theory Spec2Isabelle
  imports Main "HOL-Library.Word"
begin

section \<open>The consensus core of factomd: state/stateConsensus.go\<close>

text \<open>
  A shallow embedding of the functions of \<^verbatim>\<open>state/stateConsensus.go\<close> that the
  properties below are about. The Go code mutates one \<^verbatim>\<open>*State\<close>; here every function
  takes the state and returns the new one. A Go panic is \<open>Inl (Panic text)\<close>, a loop that
  never ends is \<open>Inl NeverReturns\<close>. Collaborators that live in other files of the
  repository (process lists, the DBState ledger, the replay filter, the message types)
  are either modelled from the specification, each under its own comment, or taken as the
  fields of an environment record \<open>env\<close>, about which nothing is assumed but what a
  theorem states as its hypothesis.
\<close>

subsection \<open>Machine integers, hashes, errors\<close>

type_synonym u32 = "32 word"
type_synonym byte = "8 word"

text \<open>
  Modelled from the spec: \<^verbatim>\<open>primitives.CreateHash\<close> is not in this file. Section 6 of
  the spec gives it as the hash \<open>H(a \<parallel> b)\<close> with a 32-byte digest. Digests are symbolic
  here: a digest is given (\<open>Digest n\<close>) or is the hash of two digests written one after
  the other, and different inputs have different digests.
\<close>

datatype hash = Digest nat | CreateHash hash hash

datatype error = Panic string | NeverReturns

subsection \<open>Blocks\<close>

record DirectoryBlock =
  DBHeight :: u32        \<comment> \<open>\<^verbatim>\<open>GetHeader().GetDBHeight()\<close>\<close>
  KeyMR :: string        \<comment> \<open>\<^verbatim>\<open>GetKeyMR().String()\<close>\<close>
  PrevKeyMR :: string    \<comment> \<open>\<^verbatim>\<open>GetHeader().GetPrevKeyMR().String()\<close>\<close>
  Timestamp :: nat       \<comment> \<open>\<^verbatim>\<open>GetHeader().GetTimestamp()\<close>, milliseconds\<close>

record Transaction =
  SigHash :: hash
  Timestamp :: nat

record FBlock =
  Transactions :: "Transaction list"

datatype ECBlockEntry = MinuteNumber byte | ECEntry nat

datatype EBlockEntry = EndOfMinuteMarker byte | EBEntry hash

type_synonym AdminBlock = "nat list"
type_synonym EntryCreditBlock = "ECBlockEntry list"
type_synonym EntryBlock = "EBlockEntry list"
type_synonym Entry = nat

subsection \<open>Messages\<close>

text \<open>
  A message is an object on the heap: the code keeps pointers to it in Holding, XReview,
  the queues and the process lists, and sets flags on it after it has stored the pointer.
  So the state carries a store \<open>Msgs\<close> from addresses to messages, and the containers hold
  addresses.
\<close>

type_synonym msg_ref = nat

record Ack =
  DBHeight :: u32
  Height :: u32
  MessageHash :: hash
  SerialHash :: hash
  BalanceHash :: "hash option"
  SaltNumber :: u32
  Salt :: "byte list"

record EOM =
  DBHeight :: u32
  Minute :: byte
  SysHeight :: u32

record DirectoryBlockSignature =
  DBHeight :: u32
  SysHeight :: u32
  SysHash :: "hash option"
  DirectoryBlockHeader :: "DirectoryBlock option"
  ServerIdentityChainID :: "hash option"

record Commit =
  Credits :: nat              \<comment> \<open>an unsigned count\<close>
  EntryHash :: hash

record DBStateMsg =
  DirectoryBlock :: DirectoryBlock
  AdminBlock :: AdminBlock
  FactoidBlock :: FBlock
  EntryCreditBlock :: EntryCreditBlock
  EBlocks :: "EntryBlock list"
  Entries :: "Entry list"
  IsInDB :: bool

datatype MsgBody =
    AckMsg Ack
  | EOMMsg EOM
  | DBSigMsg DirectoryBlockSignature
  | CommitChainMsg Commit
  | CommitEntryMsg Commit
  | DBStateMsgB DBStateMsg
  | MissingMsgResponse "msg_ref option"    \<comment> \<open>\<^verbatim>\<open>MsgResponse\<close>\<close>
  | ServerFault u32                        \<comment> \<open>\<^verbatim>\<open>DBHeight\<close>\<close>
  | FullServerFault u32                    \<comment> \<open>\<^verbatim>\<open>DBHeight\<close>\<close>
  | Heartbeat u32
  | OtherMsg nat

record Msg =
  MsgHash :: hash
  RepeatHash :: hash
  Timestamp :: nat            \<comment> \<open>milliseconds\<close>
  VMIndex :: int
  LeaderChainID :: "hash option"
  Minute :: byte
  Local :: bool               \<comment> \<open>\<^verbatim>\<open>IsLocal()\<close>\<close>
  Peer2Peer :: bool           \<comment> \<open>\<^verbatim>\<open>IsPeer2Peer()\<close>\<close>
  SentInvalid :: bool
  Signed :: bool
  Body :: MsgBody

subsection \<open>Process lists and the DBState ledger\<close>

record VM =
  List :: "(msg_ref \<times> msg_ref) option list"   \<comment> \<open>slot: (ack, message), or nil\<close>
  Height :: int
  LeaderMinute :: int
  Synced :: bool
  Signed :: bool
  FaultFlag :: int
  WhenFaulted :: int

record ProcessList =
  DBHeight :: u32
  FedServers :: "hash list"
  VMs :: "VM list"
  SystemHeight :: int              \<comment> \<open>\<^verbatim>\<open>System.Height\<close>\<close>
  SystemList :: "msg_ref option list"   \<comment> \<open>\<^verbatim>\<open>System.List\<close>\<close>
  SysHighest :: int
  DirectoryBlock :: DirectoryBlock
  AdminBlock :: AdminBlock
  EntryCreditBlock :: EntryCreditBlock
  NewEBlocks :: "(hash \<times> EntryBlock) list"
  NewEntries :: "(hash \<times> Entry) list"
  FactoidBalancesT :: "hash \<rightharpoonup> int"
  ECBalancesT :: "hash \<rightharpoonup> int"
  DBSigAlreadySent :: bool

record DBState =
  DirectoryBlock :: DirectoryBlock
  AdminBlock :: AdminBlock
  FactoidBlock :: FBlock
  EntryCreditBlock :: EntryCreditBlock
  EBlocks :: "EntryBlock list"
  Entries :: "Entry list"
  IsNew :: bool
  ReadyToSave :: bool
  Locked :: bool
  Saved :: bool
  Signed :: bool
  SaveStruct :: "nat option"

record DBStateList =
  DBStatesAt :: "int \<rightharpoonup> DBState"
  LastEnd :: int
  LastBegin :: int
  TimeToAsk :: "int option"

subsection \<open>The state\<close>

datatype ReplayKind = INTERNAL_REPLAY | BLOCK_REPLAY | REVEAL_REPLAY

type_synonym Replay = "(ReplayKind \<times> hash \<times> nat) list"

record FactoidState =
  CurrentBlock :: FBlock           \<comment> \<open>\<^verbatim>\<open>GetCurrentBlock()\<close>\<close>
  Periods :: "int list"

record State =
  Network :: string
  FactomNodeName :: string
  IdentityChainID :: hash
  LocalServerPrivKey :: string
  Now :: nat                         \<comment> \<open>\<^verbatim>\<open>GetTimestamp()\<close>, milliseconds\<close>
  Salt :: "byte list"
  Balancehash :: "hash option"
  TempBalanceHash :: "hash option"
  \<comment> \<open>the minute and block state machine\<close>
  LLeaderHeight :: u32
  CurrentMinute :: int
  CurrentMinuteStartTime :: int
  Syncing :: bool
  EOM :: bool
  EOMDone :: bool
  EOMSys :: bool
  EOMsyncing :: bool
  EOMLimit :: int
  EOMMinute :: int
  EOMProcessed :: int
  DBSig :: bool
  DBSigDone :: bool
  DBSigSys :: bool
  DBSigProcessed :: int
  Saving :: bool
  \<comment> \<open>leadership\<close>
  RunLeader :: bool
  Leader :: bool
  LeaderVMIndex :: int
  LeaderPL :: "u32 option"           \<comment> \<open>a pointer to a process list: its key in \<open>ProcessLists\<close>\<close>
  StartDelay :: int
  StartDelayLimit :: int
  IgnoreMissing :: bool
  IgnoreDone :: bool
  DBFinished :: bool
  ResetRequest :: bool
  HighestKnown :: u32
  AckChange :: u32
  \<comment> \<open>stores\<close>
  Msgs :: "msg_ref \<Rightarrow> Msg"
  NextMsg :: msg_ref                 \<comment> \<open>the next free address\<close>
  Holding :: "hash \<rightharpoonup> msg_ref"
  Acks :: "hash \<rightharpoonup> msg_ref"
  Commits :: "hash \<rightharpoonup> msg_ref option"   \<comment> \<open>a stored value may be the nil message\<close>
  XReview :: "msg_ref option list"
  ResendHolding :: "nat option"
  networkInvalidMsgQueue :: "msg_ref list"
  Replay :: Replay
  FReplay :: Replay
  FactoidState :: FactoidState
  ProcessLists :: "u32 \<rightharpoonup> ProcessList"
  DBHeightBase :: u32                \<comment> \<open>\<^verbatim>\<open>ProcessLists.DBHeightBase\<close>\<close>
  DBStates :: DBStateList
  DBStatesReceived :: "msg_ref option list"
  DBStatesReceivedBase :: int
  EntryDBHeightComplete :: u32
  FastBoot :: bool                   \<comment> \<open>\<^verbatim>\<open>StateSaverStruct.FastBoot\<close>\<close>
  \<comment> \<open>counters\<close>
  DBStateIgnoreCnt :: int
  DBStateAppliedCnt :: int
  ExpireCnt :: int
  ResendCnt :: int

subsection \<open>What the file takes from elsewhere\<close>

text \<open>
  The environment: the constant table \<^verbatim>\<open>constants.CheckPoints\<close> and the methods of other
  files whose results the code branches on or whose effect on the state is not described.
  A method that is handed the whole state may change all of it.
\<close>

record env =
  \<comment> \<open>constants and pure queries\<close>
  CheckPoints :: "u32 \<rightharpoonup> string"
  INMSGQUEUE_LOW :: int
  ReplayValid :: "Replay \<Rightarrow> ReplayKind \<Rightarrow> hash \<Rightarrow> nat \<Rightarrow> nat \<Rightarrow> bool"
  Validate :: "State \<Rightarrow> msg_ref \<Rightarrow> int"
  VMIndexFor :: "State \<Rightarrow> msg_ref \<Rightarrow> int"
  Expire :: "State \<Rightarrow> msg_ref \<Rightarrow> bool"
  Resend :: "State \<Rightarrow> msg_ref \<Rightarrow> bool"
  GetHighestSavedBlk :: "DBStateList \<Rightarrow> u32"
  GetVirtualServers :: "ProcessList \<Rightarrow> int \<Rightarrow> hash \<Rightarrow> bool \<times> int"
  ValidNext :: "State \<Rightarrow> int option \<Rightarrow> msg_ref \<Rightarrow> int"
  GetSalt :: "State \<Rightarrow> nat \<Rightarrow> u32"
  HashOf :: "Msg \<Rightarrow> hash"
  GetSerialHash :: "Msg \<Rightarrow> hash"
  SignOK :: "State \<Rightarrow> Msg \<Rightarrow> bool"
  GetBalanceHash :: "State \<Rightarrow> bool \<Rightarrow> hash option"
  GetAuditServers :: "State \<Rightarrow> u32 \<Rightarrow> hash list"
  ReadConfig :: "State \<Rightarrow> hash option \<times> string"
  GetAckChange :: "State \<Rightarrow> u32"
  UnixNano :: "State \<Rightarrow> int"
  inMsgQueueLength :: "State \<Rightarrow> int"
  HoldingOrder :: "State \<Rightarrow> hash list"
  \<comment> \<open>methods of a component of the state, which change that component\<close>
  NewProcessList :: "State \<Rightarrow> u32 \<Rightarrow> ProcessList option"
  DBStatesPut :: "State \<Rightarrow> DBState \<Rightarrow> bool"
  ReplayIsTSValid :: "Replay \<Rightarrow> ReplayKind \<Rightarrow> hash \<Rightarrow> nat \<Rightarrow> nat \<Rightarrow> Replay"
  AddToProcessList ::
    "State \<Rightarrow> ProcessList \<Rightarrow> msg_ref \<Rightarrow> msg_ref \<Rightarrow>
     VM list \<times> (hash \<rightharpoonup> msg_ref) \<times> (hash \<rightharpoonup> msg_ref)"
  markNoFault :: "ProcessList \<Rightarrow> int \<Rightarrow> ProcessList"
  Ask :: "ProcessList \<Rightarrow> int \<Rightarrow> ProcessList"
  EndOfPeriod :: "FactoidState \<Rightarrow> int \<Rightarrow> FactoidState"
  FixupLinks :: "DBStateList \<Rightarrow> int option \<Rightarrow> int \<Rightarrow> DBStateList"
  RemoveExpired :: "State \<Rightarrow> (hash \<rightharpoonup> msg_ref option)"
  \<comment> \<open>methods that are handed the whole state\<close>
  PLUpdateState :: "u32 \<Rightarrow> State \<Rightarrow> bool \<times> State"
  UpdateState :: "State \<Rightarrow> State"
  DoReset :: "State \<Rightarrow> State"
  LeaderExecute :: "msg_ref \<Rightarrow> State \<Rightarrow> State"
  FollowerExecute :: "msg_ref \<Rightarrow> State \<Rightarrow> State"
  SendOut :: "msg_ref \<Rightarrow> State \<Rightarrow> State"
  TrimBack :: "nat \<Rightarrow> int option \<Rightarrow> State \<Rightarrow> State"
  ProcessBlocks :: "int \<Rightarrow> State \<Rightarrow> State"
  DBStatesUpdateState :: "State \<Rightarrow> State"
  Catchup :: "State \<Rightarrow> State"
  SaveFactomdState :: "int \<Rightarrow> State \<Rightarrow> nat option \<times> State"
  SaveDBStateList :: "State \<Rightarrow> string option"

text \<open>
  Modelled from the spec: \<^verbatim>\<open>ProcessLists.Get\<close> is not in this file. Section 3 of the spec
  has a process list created on demand for a height in the window of the lists, so \<open>Get\<close>
  returns the list of that height, first creating it when there is none; whether one can
  be created (the height is in the window) is left to \<open>NewProcessList\<close>. The result is
  the pointer: the key, or \<open>None\<close> for nil.
\<close>

definition ProcessLists_Get :: "env \<Rightarrow> u32 \<Rightarrow> State \<Rightarrow> u32 option \<times> State" where
  "ProcessLists_Get env h s =
     (case ProcessLists s h of
        Some pl \<Rightarrow> (Some h, s)
      | None \<Rightarrow>
          (case NewProcessList env s h of
             None \<Rightarrow> (None, s)
           | Some pl \<Rightarrow> (Some h, s\<lparr>ProcessLists := (ProcessLists s)(h \<mapsto> pl)\<rparr>)))"

text \<open>
  Modelled from the spec: \<^verbatim>\<open>DBStateList.NewDBState\<close> and \<^verbatim>\<open>DBStateList.Get\<close> are not in
  this file. By sections 3 and 4.5 of the spec \<open>NewDBState\<close> constructs the DBState from
  the blocks, with \<open>IsNew\<close> as given and every other flag clear, and enters it in the
  ledger under its height; when the ledger refuses it (\<open>DBStatesPut\<close>) the result is nil.
  The pointer to a DBState is its key in the ledger.
\<close>

definition freshDBState ::
  "bool \<Rightarrow> DirectoryBlock \<Rightarrow> AdminBlock \<Rightarrow> FBlock \<Rightarrow> EntryCreditBlock \<Rightarrow>
   EntryBlock list \<Rightarrow> Entry list \<Rightarrow> DBState" where
  "freshDBState isNew directoryBlock adminBlock factoidBlock entryCreditBlock eBlocks entries =
     \<lparr>DBState.DirectoryBlock = directoryBlock, AdminBlock = adminBlock,
      FactoidBlock = factoidBlock, EntryCreditBlock = entryCreditBlock,
      EBlocks = eBlocks, Entries = entries, IsNew = isNew,
      ReadyToSave = False, Locked = False, Saved = False, Signed = False,
      SaveStruct = None\<rparr>"

definition setDBState :: "int \<Rightarrow> DBState \<Rightarrow> State \<Rightarrow> State" where
  "setDBState k d s = s\<lparr>DBStates := (DBStates s)\<lparr>DBStatesAt := (DBStatesAt (DBStates s))(k \<mapsto> d)\<rparr>\<rparr>"

definition NewDBState ::
  "env \<Rightarrow> bool \<Rightarrow> DirectoryBlock \<Rightarrow> AdminBlock \<Rightarrow> FBlock \<Rightarrow> EntryCreditBlock \<Rightarrow>
   EntryBlock list \<Rightarrow> Entry list \<Rightarrow> State \<Rightarrow> int option \<times> State" where
  "NewDBState env isNew directoryBlock adminBlock factoidBlock entryCreditBlock eBlocks entries s =
     (let dbState = freshDBState isNew directoryBlock adminBlock factoidBlock entryCreditBlock eBlocks entries;
          k = uint (DirectoryBlock.DBHeight directoryBlock)
      in if DBStatesPut env s dbState then (Some k, setDBState k dbState s) else (None, s))"

definition DBStates_Get :: "State \<Rightarrow> int \<Rightarrow> int option" where
  "DBStates_Get s i = (case DBStatesAt (DBStates s) i of None \<Rightarrow> None | Some d \<Rightarrow> Some i)"

subsection \<open>Checkpoints: \<^verbatim>\<open>CheckDBKeyMR\<close>\<close>

fun decimal :: "nat \<Rightarrow> string" where
  "decimal n =
     (if n < 10 then [''0123456789'' ! n]
      else decimal (n div 10) @ [''0123456789'' ! (n mod 10)])"

declare decimal.simps [simp del]

definition CheckDBKeyMR :: "env \<Rightarrow> State \<Rightarrow> u32 \<Rightarrow> string \<Rightarrow> string option" where
  "CheckDBKeyMR env s ht hash' =
     (if Network s \<noteq> ''MAIN'' \<and> Network s \<noteq> ''main'' then None
      else (case CheckPoints env ht of
              Some val \<Rightarrow>
                if val \<noteq> hash'
                then Some (replicate (20 - length (FactomNodeName s)) CHR '' '' @ FactomNodeName s
                           @ '' CheckPoints at '' @ decimal (unat ht) @ '' DB height failed'' @ [CHR 0x0A])
                else None
            | None \<Rightarrow> None))"

subsection \<open>\<^verbatim>\<open>AddDBState\<close>\<close>

partial_function (option) UpdateStateLoop :: "env \<Rightarrow> State \<Rightarrow> State option" where
  "UpdateStateLoop env s =
     (case PLUpdateState env (LLeaderHeight s) s of
        (again, s') \<Rightarrow> if again then UpdateStateLoop env s' else Some s')"

declare UpdateStateLoop.simps [code]

definition checkpoint_panic :: "env \<Rightarrow> u32 \<Rightarrow> string \<Rightarrow> string" where
  "checkpoint_panic env ht DBKeyMR =
     ''Found block at height '' @ decimal (unat ht) @ '' that didn't match a checkpoint. Got ''
     @ DBKeyMR @ '', expected '' @ (case CheckPoints env ht of Some c \<Rightarrow> c | None \<Rightarrow> '''')"

definition AddDBState ::
  "env \<Rightarrow> bool \<Rightarrow> DirectoryBlock \<Rightarrow> AdminBlock \<Rightarrow> FBlock \<Rightarrow> EntryCreditBlock \<Rightarrow>
   EntryBlock list \<Rightarrow> Entry list \<Rightarrow> State \<Rightarrow> error + (int option \<times> State)" where
  "AddDBState env isNew directoryBlock adminBlock factoidBlock entryCreditBlock eBlocks entries s =
     (case NewDBState env isNew directoryBlock adminBlock factoidBlock entryCreditBlock eBlocks entries s of
        (None, s0) \<Rightarrow> Inr (None, s0)
      | (Some dbState, s0) \<Rightarrow>
          (case DBStatesAt (DBStates s0) dbState of
             None \<Rightarrow> Inl (Panic ''nil pointer dereference'')
           | Some d \<Rightarrow>
          (let ht = DirectoryBlock.DBHeight (DBState.DirectoryBlock d);
               DBKeyMR = KeyMR (DBState.DirectoryBlock d)
           in case CheckDBKeyMR env s0 ht DBKeyMR of
                Some err \<Rightarrow> Inl (Panic (checkpoint_panic env ht DBKeyMR))
              | None \<Rightarrow>
                  (let r1 =
                     (if ht > LLeaderHeight s0
                      then
                        (let s1 = s0\<lparr>Syncing := False, EOM := False, DBSig := False, LLeaderHeight := ht\<rparr>;
                             s2 = snd (ProcessLists_Get env (ht + 1) s1);
                             s3 = s2\<lparr>CurrentMinute := 0, EOMProcessed := 0, DBSigProcessed := 0,
                                     StartDelay := int (Now s2), RunLeader := False\<rparr>;
                             (p, s4) = ProcessLists_Get env (LLeaderHeight s3) s3;
                             s5 = s4\<lparr>LeaderPL := p\<rparr>
                         in case p of
                              None \<Rightarrow> Inl (Panic ''nil pointer dereference'')
                            | Some k \<Rightarrow>
                                (case ProcessLists s5 k of
                                   None \<Rightarrow> Inl (Panic ''nil pointer dereference'')
                                 | Some pl \<Rightarrow>
                                     (let pl' = pl\<lparr>FactoidBalancesT := Map.empty, ECBalancesT := Map.empty\<rparr>;
                                          s6 = s5\<lparr>ProcessLists := (ProcessLists s5)(k \<mapsto> pl')\<rparr>;
                                          (l, ix) = GetVirtualServers env pl' (CurrentMinute s6) (IdentityChainID s6);
                                          s7 = s6\<lparr>Leader := l, LeaderVMIndex := ix\<rparr>
                                      in case UpdateStateLoop env s7 of
                                           None \<Rightarrow> Inl NeverReturns
                                         | Some s8 \<Rightarrow> Inr s8)))
                      else Inr s0)
                   in case r1 of
                        Inl e \<Rightarrow> Inl e
                      | Inr s9 \<Rightarrow>
                          Inr (Some dbState,
                               if ht = 0 \<and> LLeaderHeight s9 < 1 then s9\<lparr>LLeaderHeight := 1\<rparr> else s9)))))"

subsection \<open>Small steps shared by the functions\<close>

definition nil_deref :: error where
  "nil_deref = Panic ''invalid memory address or nil pointer dereference''"

definition index_out_of_range :: error where
  "index_out_of_range = Panic ''index out of range''"

definition newMsg :: "Msg \<Rightarrow> State \<Rightarrow> msg_ref \<times> State" where
  "newMsg m s = (NextMsg s, s\<lparr>Msgs := (Msgs s)(NextMsg s := m), NextMsg := Suc (NextMsg s)\<rparr>)"

definition updMsg :: "msg_ref \<Rightarrow> (Msg \<Rightarrow> Msg) \<Rightarrow> State \<Rightarrow> State" where
  "updMsg m f s = s\<lparr>Msgs := (Msgs s)(m := f (Msgs s m))\<rparr>"

definition setPL :: "u32 \<Rightarrow> ProcessList \<Rightarrow> State \<Rightarrow> State" where
  "setPL k pl s = s\<lparr>ProcessLists := (ProcessLists s)(k \<mapsto> pl)\<rparr>"

definition inRange :: "int \<Rightarrow> 'a list \<Rightarrow> bool" where
  "inRange i xs = (0 \<le> i \<and> i < int (length xs))"

text \<open>
  Modelled from the spec: \<^verbatim>\<open>Sign\<close> of a message is in the messages package. It signs
  with the node's key (section 4.2) and may fail (section 7); whether it does is left to
  \<open>SignOK\<close>. The result is the state and whether an error came back.
\<close>

definition Sign :: "env \<Rightarrow> msg_ref \<Rightarrow> State \<Rightarrow> bool \<times> State" where
  "Sign env m s =
     (if SignOK env s (Msgs s m) then (False, updMsg m (\<lambda>x. x\<lparr>Msg.Signed := True\<rparr>) s)
      else (True, s))"

text \<open>
  Modelled from the spec: \<^verbatim>\<open>ProcessList.GetAckAt\<close> is not in this file. By section 3 of
  the spec a VM list is a sequence of (Ack, Msg) pairs; \<open>GetAckAt\<close> gives the Ack of the
  pair in a slot, and nil when there is no such slot or the slot is empty.
\<close>

definition GetAckAt :: "ProcessList \<Rightarrow> int \<Rightarrow> int \<Rightarrow> msg_ref option" where
  "GetAckAt pl vmIndex height =
     (if inRange vmIndex (VMs pl) \<and> inRange height (List (VMs pl ! nat vmIndex))
      then map_option fst (List (VMs pl ! nat vmIndex) ! nat height)
      else None)"

subsection \<open>\<^verbatim>\<open>NewAck\<close>\<close>

definition stampAck :: "env \<Rightarrow> State \<Rightarrow> int \<Rightarrow> byte \<Rightarrow> Ack \<Rightarrow> Msg" where
  "stampAck env s vmIndex minute a =
     (let m = \<lparr>MsgHash = Ack.MessageHash a, RepeatHash = Ack.MessageHash a, Timestamp = Now s,
                VMIndex = vmIndex, LeaderChainID = Some (IdentityChainID s), Minute = minute,
                Local = False, Peer2Peer = False, SentInvalid = False, Signed = False,
                Body = AckMsg a\<rparr>
      in m\<lparr>MsgHash := HashOf env m, RepeatHash := HashOf env m\<rparr>)"

definition NewAck :: "env \<Rightarrow> msg_ref \<Rightarrow> hash option \<Rightarrow> State \<Rightarrow> error + (msg_ref \<times> State)" where
  "NewAck env msg balanceHash s =
     (let vmIndex = VMIndex (Msgs s msg);
          s1 = updMsg msg (\<lambda>x. x\<lparr>LeaderChainID := Some (IdentityChainID s)\<rparr>) s;
          (p, s2) = ProcessLists_Get env (LLeaderHeight s1) s1
      in case p of
           None \<Rightarrow> Inl nil_deref
         | Some k \<Rightarrow>
        (case ProcessLists s2 k of
           None \<Rightarrow> Inl nil_deref
         | Some pl \<Rightarrow>
        if \<not> inRange vmIndex (VMs pl) then Inl index_out_of_range
        else
          (let minute = (word_of_int (LeaderMinute (VMs pl ! nat vmIndex)) :: byte);
               ack = \<lparr>Ack.DBHeight = LLeaderHeight s2, Height = 0, MessageHash = MsgHash (Msgs s2 msg),
                      SerialHash = MsgHash (Msgs s2 msg), BalanceHash = balanceHash,
                      SaltNumber = GetSalt env s2 (Now s2), Salt = take 8 (State.Salt s2)\<rparr>
           in case LeaderPL s2 of
                None \<Rightarrow> Inl nil_deref
              | Some lk \<Rightarrow>
             (case ProcessLists s2 lk of
                None \<Rightarrow> Inl nil_deref
              | Some lpl \<Rightarrow>
             if \<not> inRange vmIndex (VMs lpl) then Inl index_out_of_range
             else
               (let listlen = length (List (VMs lpl ! nat vmIndex));
                    r = (if listlen = 0
                         then Inr (ack\<lparr>Ack.Height := 0, SerialHash := Ack.MessageHash ack\<rparr>)
                         else
                           (case GetAckAt lpl vmIndex (int listlen - 1) of
                              None \<Rightarrow> Inl nil_deref
                            | Some lastref \<Rightarrow>
                                (case Body (Msgs s2 lastref) of
                                   AckMsg lastAck \<Rightarrow>
                                     Inr (ack\<lparr>Ack.Height := Ack.Height lastAck + 1,
                                              SerialHash := CreateHash (Ack.MessageHash lastAck) (Ack.MessageHash ack)\<rparr>)
                                 | _ \<Rightarrow> Inl nil_deref)))
                in case r of
                     Inl e \<Rightarrow> Inl e
                   | Inr ack' \<Rightarrow>
                       (let (a, s3) = newMsg (stampAck env s2 vmIndex minute ack') s2
                        in Inr (a, snd (Sign env a s3))))))))"

subsection \<open>Commits: \<^verbatim>\<open>NextCommit\<close>, \<^verbatim>\<open>IsHighestCommit\<close>, \<^verbatim>\<open>PutCommit\<close>\<close>

text \<open>
  Modelled from the spec: the registry \<^verbatim>\<open>Commits\<close> is a map from entry hash to commit
  message (section 3); its \<^verbatim>\<open>Get\<close> and \<^verbatim>\<open>Put\<close> read and write the map. The type
  assertions of the Go code are the two functions below: they give the commit of a message
  of that type, and \<open>None\<close> for nil or a message of another type.
\<close>

definition Commits_Get :: "State \<Rightarrow> hash \<Rightarrow> msg_ref option" where
  "Commits_Get s h = (case Commits s h of None \<Rightarrow> None | Some v \<Rightarrow> v)"

definition asCommitEntryMsg :: "State \<Rightarrow> msg_ref option \<Rightarrow> Commit option" where
  "asCommitEntryMsg s m =
     (case m of None \<Rightarrow> None
      | Some r \<Rightarrow> (case Body (Msgs s r) of CommitEntryMsg c \<Rightarrow> Some c | _ \<Rightarrow> None))"

definition asCommitChainMsg :: "State \<Rightarrow> msg_ref option \<Rightarrow> Commit option" where
  "asCommitChainMsg s m =
     (case m of None \<Rightarrow> None
      | Some r \<Rightarrow> (case Body (Msgs s r) of CommitChainMsg c \<Rightarrow> Some c | _ \<Rightarrow> None))"

definition NextCommit :: "State \<Rightarrow> hash \<Rightarrow> msg_ref option" where
  "NextCommit s h = Commits_Get s h"

definition IsHighestCommit :: "State \<Rightarrow> hash \<Rightarrow> msg_ref option \<Rightarrow> bool" where
  "IsHighestCommit s h msg =
     (let e = asCommitEntryMsg s (Commits_Get s h);
          m = asCommitEntryMsg s msg;
          ec = asCommitChainMsg s (Commits_Get s h);
          mc = asCommitChainMsg s msg
      in if (case (e, m) of (Some e', Some m') \<Rightarrow> Credits e' \<ge> Credits m' | _ \<Rightarrow> False) then False
         else if (case (ec, mc) of (Some ec', Some mc') \<Rightarrow> Credits ec' \<ge> Credits mc' | _ \<Rightarrow> False) then False
         else True)"

definition PutCommit :: "hash \<Rightarrow> msg_ref option \<Rightarrow> State \<Rightarrow> State" where
  "PutCommit h msg s =
     (if IsHighestCommit s h msg then s\<lparr>Commits := (Commits s)(h \<mapsto> msg)\<rparr> else s)"

subsection \<open>The DBSig leader path: \<^verbatim>\<open>LeaderExecuteDBSig\<close> and \<^verbatim>\<open>SendDBSig\<close>\<close>

type_synonym vm_ref = "u32 \<times> nat"

definition VM_at :: "State \<Rightarrow> vm_ref \<Rightarrow> VM option" where
  "VM_at s r =
     (case ProcessLists s (fst r) of
        None \<Rightarrow> None
      | Some pl \<Rightarrow> if snd r < length (VMs pl) then Some (VMs pl ! snd r) else None)"

text \<open>
  Modelled from the spec: \<^verbatim>\<open>ProcessList.AddToProcessList\<close> is not in this file. By
  sections 4.1 and 8 of the spec it appends the pair (ack, message) to a VM list of the
  process list and takes the message out of Holding and the ack out of Acks; what it
  leaves in the VM lists, Holding and Acks is the environment's.
\<close>

definition applyAddToProcessList :: "env \<Rightarrow> u32 \<Rightarrow> msg_ref \<Rightarrow> msg_ref \<Rightarrow> State \<Rightarrow> error + State" where
  "applyAddToProcessList env k ack m s =
     (case ProcessLists s k of
        None \<Rightarrow> Inl nil_deref
      | Some pl \<Rightarrow>
          (case AddToProcessList env s pl ack m of
             (vms, holding, acks) \<Rightarrow>
               Inr ((setPL k (pl\<lparr>VMs := vms\<rparr>) s)\<lparr>Holding := holding, Acks := acks\<rparr>)))"

text \<open>The system height and serial hash that the leader stamps on an EOM or a DBSig.\<close>

definition stampSys :: "env \<Rightarrow> ProcessList \<Rightarrow> State \<Rightarrow> error + (u32 \<times> hash option)" where
  "stampSys env pl s =
     (if SystemHeight pl > 1
      then
        (if \<not> inRange (SystemHeight pl - 1) (SystemList pl) then Inl index_out_of_range
         else
           (case SystemList pl ! nat (SystemHeight pl - 1) of
              None \<Rightarrow> Inr (word_of_int (SystemHeight pl), None)
            | Some ff \<Rightarrow>
                (case Body (Msgs s ff) of
                   FullServerFault h \<Rightarrow> Inr (word_of_int (SystemHeight pl), Some (GetSerialHash env (Msgs s ff)))
                 | _ \<Rightarrow> Inr (word_of_int (SystemHeight pl), None))))
      else Inr (word_of_int (SystemHeight pl), None))"

definition LeaderExecuteDBSig :: "env \<Rightarrow> msg_ref \<Rightarrow> State \<Rightarrow> error + State" where
  "LeaderExecuteDBSig env m s =
     (case Body (Msgs s m) of
        DBSigMsg dbs \<Rightarrow>
          (let (p, s1) = ProcessLists_Get env (DirectoryBlockSignature.DBHeight dbs) s
           in if DirectoryBlockSignature.DBHeight dbs \<noteq> LLeaderHeight s1
              then Inr (FollowerExecute env m s1)
              else
                (case p of
                   None \<Rightarrow> Inl nil_deref
                 | Some k \<Rightarrow>
                (case ProcessLists s1 k of
                   None \<Rightarrow> Inl nil_deref
                 | Some pl \<Rightarrow>
                if \<not> inRange (VMIndex (Msgs s1 m)) (VMs pl) then Inl index_out_of_range
                else if length (List (VMs pl ! nat (VMIndex (Msgs s1 m)))) > 0 then Inr s1
                else
                  (case stampSys env pl s1 of
                     Inl e \<Rightarrow> Inl e
                   | Inr (sysHeight, sysHash) \<Rightarrow>
                  (let dbs' = dbs\<lparr>DirectoryBlockSignature.SysHeight := sysHeight,
                                   SysHash := (case sysHash of None \<Rightarrow> SysHash dbs | Some h \<Rightarrow> Some h)\<rparr>;
                       s2 = updMsg m (\<lambda>x. x\<lparr>Body := DBSigMsg dbs'\<rparr>) s1
                   in if \<not> ReplayValid env (Replay s2) INTERNAL_REPLAY (RepeatHash (Msgs s2 m))
                              (Msg.Timestamp (Msgs s2 m)) (Now s2)
                      then Inr (s2\<lparr>Holding := (Holding s2)(MsgHash (Msgs s2 m) := None)\<rparr>)
                      else
                        (case NewAck env m (Balancehash s2) s2 of
                           Inl e \<Rightarrow> Inl e
                         | Inr (ack, s3) \<Rightarrow>
                             (let s4 = updMsg m (\<lambda>x. x\<lparr>LeaderChainID := LeaderChainID (Msgs s3 ack),
                                                        Msg.Minute := Msg.Minute (Msgs s3 ack)\<rparr>) s3
                              in case Body (Msgs s4 ack) of
                                   AckMsg a \<Rightarrow>
                                     (case ProcessLists_Get env (Ack.DBHeight a) s4 of
                                        (None, s5) \<Rightarrow> Inl nil_deref
                                      | (Some k', s5) \<Rightarrow> applyAddToProcessList env k' ack m s5)
                                 | _ \<Rightarrow> Inl nil_deref)))))))
      | _ \<Rightarrow> Inl (Panic ''interface conversion: interfaces.IMsg is not *messages.DirectoryBlockSignature''))"

text \<open>
  The DirectoryBlockSignature that \<^verbatim>\<open>SendDBSig\<close> and the block close of \<^verbatim>\<open>ProcessEOM\<close>
  build, sign twice and hand to the leader path.
  Modelled from the spec: \<^verbatim>\<open>DirectoryBlockSignature.LeaderExecute\<close> is in the messages
  package; by the table of section 4.1 it is the DBSig leader path, \<open>LeaderExecuteDBSig\<close>.
\<close>

definition buildDBSig :: "env \<Rightarrow> DirectoryBlock \<Rightarrow> u32 \<Rightarrow> int \<Rightarrow> State \<Rightarrow> error + (msg_ref \<times> State)" where
  "buildDBSig env header dbheight vmIndex s =
     (let m0 = \<lparr>MsgHash = Digest 0, RepeatHash = Digest 0, Timestamp = Now s, VMIndex = vmIndex,
                 LeaderChainID = None, Minute = 0, Local = True, Peer2Peer = False,
                 SentInvalid = False, Signed = False,
                 Body = DBSigMsg \<lparr>DirectoryBlockSignature.DBHeight = dbheight, SysHeight = 0, SysHash = None,
                                  DirectoryBlockHeader = Some header,
                                  ServerIdentityChainID = Some (IdentityChainID s)\<rparr>\<rparr>;
          (dbs, s1) = newMsg (m0\<lparr>MsgHash := HashOf env m0, RepeatHash := HashOf env m0\<rparr>) s;
          s2 = snd (Sign env dbs s1);
          (err, s3) = Sign env dbs s2
      in if err then Inl (Panic ''signing failed'') else Inr (dbs, s3))"

definition sendNewDBSig :: "env \<Rightarrow> u32 \<Rightarrow> DBState \<Rightarrow> u32 \<Rightarrow> int \<Rightarrow> State \<Rightarrow> error + State" where
  "sendNewDBSig env k d dbheight vmIndex s1 =
     (case buildDBSig env (DBState.DirectoryBlock d) dbheight vmIndex s1 of
        Inl e \<Rightarrow> Inl e
      | Inr (dbs, s2) \<Rightarrow>
          (case LeaderExecuteDBSig env dbs s2 of
             Inl e \<Rightarrow> Inl e
           | Inr s3 \<Rightarrow>
               (case ProcessLists s3 k of
                  None \<Rightarrow> Inr s3
                | Some pl3 \<Rightarrow>
                    Inr (setPL k
                          (pl3\<lparr>VMs := (VMs pl3)[nat vmIndex := (VMs pl3 ! nat vmIndex)\<lparr>VM.Signed := True\<rparr>],
                               DBSigAlreadySent := True\<rparr>) s3))))"

function SendDBSig :: "env \<Rightarrow> u32 \<Rightarrow> int \<Rightarrow> State \<Rightarrow> error + State" where
  "SendDBSig env dbheight vmIndex s =
     (let ht = GetHighestSavedBlk env (DBStates s)
      in if dbheight \<le> ht \<or> EOM s then Inr s
         else
           (case ProcessLists_Get env dbheight s of
              (None, s1) \<Rightarrow> Inl nil_deref
            | (Some k, s1) \<Rightarrow>
           (case ProcessLists s1 k of
              None \<Rightarrow> Inl nil_deref
            | Some pl \<Rightarrow>
           if \<not> inRange vmIndex (VMs pl) then Inl index_out_of_range
           else
             (let vm = VMs pl ! nat vmIndex
              in if VM.Height vm > 0 then Inr s1
                 else
                   (case GetVirtualServers env pl (LeaderMinute vm) (IdentityChainID s1) of
                      (leader, lvm) \<Rightarrow>
                        if \<not> leader \<or> lvm \<noteq> vmIndex then Inr s1
                        else if VM.Signed vm then Inr s1
                        else
                          (case DBStates_Get s1 (uint (dbheight - 1)) of
                             None \<Rightarrow>
                               if dbheight > 0 then SendDBSig env (dbheight - 1) vmIndex s1
                               else if \<not> DBSigAlreadySent pl then Inl nil_deref
                               else Inr (setPL k (Ask env pl vmIndex) s1)
                           | Some dbstate \<Rightarrow>
                               (case DBStatesAt (DBStates s1) dbstate of
                                  None \<Rightarrow> Inl nil_deref
                                | Some d \<Rightarrow>
                                    if \<not> DBSigAlreadySent pl
                                    then sendNewDBSig env k d dbheight vmIndex s1
                                    else Inr (setPL k (Ask env pl vmIndex) s1))))))))"
  by pat_completeness auto
termination
proof (relation "measure (\<lambda>(env, dbheight, vmIndex, s). unat dbheight)")
  show "wf (measure (\<lambda>(env, dbheight, vmIndex, s). unat dbheight))" by simp
next
  fix env :: env and dbheight :: u32 and vmIndex :: int and s s1 :: State
  assume "0 < dbheight"
  then have "dbheight \<noteq> 0" by auto
  then have "unat (dbheight - 1) < unat dbheight"
    by (simp add: unat_minus_one unat_gt_0)
  then show "((env, dbheight - 1, vmIndex, s1), (env, dbheight, vmIndex, s)) \<in> measure (\<lambda>(env, dbheight, vmIndex, s). unat dbheight)"
    by simp
qed

declare SendDBSig.simps [simp del]


subsection \<open>The message executor: \<^verbatim>\<open>executeMsg\<close>\<close>

text \<open>
  Modelled from the spec: \<^verbatim>\<open>Replay.Valid\<close>, \<^verbatim>\<open>msg.Validate\<close> and
  \<^verbatim>\<open>msg.ComputeVMIndex\<close> are in other packages. By sections 3 and 4.1 of the spec
  \<open>Valid\<close> is the accept test of the filter and changes nothing, \<open>Validate\<close> returns 1, 0
  or -1, and \<open>ComputeVMIndex\<close> sets the VM index of the message. \<^verbatim>\<open>SetString\<close> refreshes
  a status line that is no part of this state. Timestamps are unsigned milliseconds;
  \<^verbatim>\<open>GetTimeSeconds\<close> divides by 1000. The channel \<^verbatim>\<open>networkInvalidMsgQueue\<close> is the list
  of the messages sent on it, the newest last.
\<close>

definition GetTimeSeconds :: "nat \<Rightarrow> int" where
  "GetTimeSeconds t = int (t div 1000)"

definition ComputeVMIndex :: "env \<Rightarrow> msg_ref \<Rightarrow> State \<Rightarrow> State" where
  "ComputeVMIndex env msg s = updMsg msg (\<lambda>x. x\<lparr>VMIndex := VMIndexFor env s msg\<rparr>) s"

definition GetHighestKnownBlock :: "State \<Rightarrow> u32" where
  "GetHighestKnownBlock s = HighestKnown s"

text \<open>The condition under which a valid message takes the leader path, left to right.\<close>

definition leaderReady :: "vm_ref option \<Rightarrow> msg_ref \<Rightarrow> State \<Rightarrow> error + bool" where
  "leaderReady vm msg s =
     (if RunLeader s \<and> Leader s \<and> \<not> Saving s
      then
        (case vm of
           None \<Rightarrow> Inr False
         | Some r \<Rightarrow>
             (case VM_at s r of
                None \<Rightarrow> Inl nil_deref
              | Some v \<Rightarrow>
                  if VM.Height v = int (length (List v)) \<and> (\<not> Syncing s \<or> \<not> Synced v)
                     \<and> (Local (Msgs s msg) \<or> VMIndex (Msgs s msg) = LeaderVMIndex s)
                  then
                    (case LeaderPL s of
                       None \<Rightarrow> Inl nil_deref
                     | Some k \<Rightarrow>
                         (case ProcessLists s k of
                            None \<Rightarrow> Inl nil_deref
                          | Some pl \<Rightarrow> Inr (ProcessList.DBHeight pl + 1 \<ge> GetHighestKnownBlock s)))
                  else Inr False))
      else Inr False)"

definition executeMsg :: "env \<Rightarrow> vm_ref option \<Rightarrow> msg_ref \<Rightarrow> State \<Rightarrow> error + (bool \<times> State)" where
  "executeMsg env vm msg s =
     (if \<not> ReplayValid env (Replay s) INTERNAL_REPLAY (RepeatHash (Msgs s msg))
            (Msg.Timestamp (Msgs s msg)) (Now s)
      then Inr (False, s)
      else
        (let s1 = ComputeVMIndex env msg s
         in if IgnoreMissing s1
               \<and> GetTimeSeconds (Now s1) - GetTimeSeconds (Msg.Timestamp (Msgs s1 msg)) > 60 * 15
            then Inr (False, s1)
            else
              (let v = Validate env s1 msg
               in if v = 1
                  then
                    (case leaderReady vm msg s1 of
                       Inl e \<Rightarrow> Inl e
                     | Inr True \<Rightarrow>
                         (case vm of
                            None \<Rightarrow> Inl nil_deref
                          | Some r \<Rightarrow>
                              (case VM_at s1 r of
                                 None \<Rightarrow> Inl nil_deref
                               | Some vmv \<Rightarrow>
                                   if length (List vmv) = 0
                                   then
                                     (case SendDBSig env (LLeaderHeight s1) (LeaderVMIndex s1) s1 of
                                        Inl e \<Rightarrow> Inl e
                                      | Inr s2 \<Rightarrow> Inr (True, s2\<lparr>XReview := XReview s2 @ [Some msg]\<rparr>))
                                   else Inr (True, LeaderExecute env msg s1)))
                     | Inr False \<Rightarrow> Inr (True, FollowerExecute env msg s1))
                  else if v = 0
                  then Inr (False, s1\<lparr>Holding := (Holding s1)(MsgHash (Msgs s1 msg) \<mapsto> msg)\<rparr>)
                  else
                    (let s2 = s1\<lparr>Holding := (Holding s1)(MsgHash (Msgs s1 msg) \<mapsto> msg)\<rparr>
                     in if \<not> SentInvalid (Msgs s2 msg)
                        then
                          (let s3 = updMsg msg (\<lambda>x. x\<lparr>SentInvalid := True\<rparr>) s2
                           in Inr (False, s3\<lparr>networkInvalidMsgQueue := networkInvalidMsgQueue s3 @ [msg]\<rparr>))
                        else Inr (False, s2)))))"


subsection \<open>End of minute: \<^verbatim>\<open>ProcessEOM\<close>\<close>

text \<open>
  Modelled from the spec: \<^verbatim>\<open>GetDBState\<close> is in another file; it is the ledger's \<open>Get\<close>
  at that height. \<^verbatim>\<open>AddEndOfMinuteMarker\<close> and the EC body's \<^verbatim>\<open>AddEntry\<close> append to
  their block (section 4.6). \<^verbatim>\<open>initServerKeys\<close> sets key material that this state does
  not carry. The wall clock of \<^verbatim>\<open>time.Now()\<close> is \<open>UnixNano\<close>.
\<close>

definition GetDBState :: "State \<Rightarrow> u32 \<Rightarrow> int option" where
  "GetDBState s h = DBStates_Get s (uint h)"

fun heartbeats :: "env \<Rightarrow> hash list \<Rightarrow> State \<Rightarrow> State" where
  "heartbeats env [] s = s"
| "heartbeats env (auditServer # rest) s =
     heartbeats env rest
       (if auditServer = IdentityChainID s
        then
          (let hb0 = \<lparr>MsgHash = Digest 0, RepeatHash = Digest 0, Timestamp = Now s, VMIndex = 0,
                       LeaderChainID = None, Minute = 0, Local = False, Peer2Peer = False,
                       SentInvalid = False, Signed = True, Body = Heartbeat (LLeaderHeight s)\<rparr>;
               (hb, s1) = newMsg (hb0\<lparr>MsgHash := HashOf env hb0, RepeatHash := HashOf env hb0\<rparr>) s
           in SendOut env hb s1)
        else s)"

definition SendHeartBeat :: "env \<Rightarrow> State \<Rightarrow> State" where
  "SendHeartBeat env s =
     (case DBStates_Get s (uint (LLeaderHeight s - 1)) of
        None \<Rightarrow> s
      | Some dbstate \<Rightarrow> heartbeats env (GetAuditServers env s (LLeaderHeight s)) s)"

definition CheckForIDChange :: "env \<Rightarrow> State \<Rightarrow> error + State" where
  "CheckForIDChange env s =
     (let reloadIdentity = (AckChange s > 0 \<and> LLeaderHeight s \<ge> AckChange s)
      in if reloadIdentity
         then
           (case ReadConfig env s of
              (None, key) \<Rightarrow> Inl (Panic ''bad identity chain id in the configuration'')
            | (Some chainID, key) \<Rightarrow> Inr (s\<lparr>IdentityChainID := chainID, LocalServerPrivKey := key\<rparr>))
         else Inr s)"

text \<open>Once \<open>EOMDone\<close> and \<open>EOMSys\<close> are both set: the unwinding of the EOMs.\<close>

definition ProcessEOM_unwind :: "env \<Rightarrow> u32 \<Rightarrow> State \<Rightarrow> error + (bool \<times> State)" where
  "ProcessEOM_unwind env dbheight s =
     (case GetDBState s (dbheight - 1) of
        None \<Rightarrow> Inr (False, s)
      | Some dbstate \<Rightarrow>
          (case DBStatesAt (DBStates s) dbstate of
             None \<Rightarrow> Inl nil_deref
           | Some d \<Rightarrow>
               if \<not> Saved d then Inr (False, s)
               else
                 (let s1 = s\<lparr>EOMProcessed := EOMProcessed s - 1\<rparr>;
                      s2 = (if EOMProcessed s1 \<le> 0
                            then
                              (let s' = s1\<lparr>EOM := False, EOMDone := False, Syncing := False, EOMProcessed := 0\<rparr>
                               in s'\<lparr>TempBalanceHash := GetBalanceHash env s' True\<rparr>)
                            else s1)
                  in Inr (True, SendHeartBeat env s2))))"

text \<open>The first EOM of a minute: what is done once for all VMs.\<close>

definition ProcessEOM_open :: "u32 \<Rightarrow> EOM \<Rightarrow> State \<Rightarrow> error + (bool \<times> State)" where
  "ProcessEOM_open k e s =
     (let s1 = s\<lparr>EOMSys := False, Syncing := True, EOM := True\<rparr>
      in case LeaderPL s1 of
           None \<Rightarrow> Inl nil_deref
         | Some lk \<Rightarrow>
             (case ProcessLists s1 lk of
                None \<Rightarrow> Inl nil_deref
              | Some lpl \<Rightarrow>
                  (let s2 = s1\<lparr>EOMLimit := int (length (FedServers lpl)),
                               EOMMinute := uint (EOM.Minute e),
                               EOMsyncing := True,
                               EOMProcessed := 0\<rparr>
                   in case ProcessLists s2 k of
                        None \<Rightarrow> Inl nil_deref
                      | Some pl \<Rightarrow>
                          Inr (False, setPL k (pl\<lparr>VMs := map (\<lambda>vm. vm\<lparr>Synced := False\<rparr>) (VMs pl)\<rparr>) s2))))"

text \<open>What is done for each EOM: the VM of the message is synced.\<close>

definition ProcessEOM_each :: "env \<Rightarrow> u32 \<Rightarrow> int \<Rightarrow> EOM \<Rightarrow> State \<Rightarrow> error + (bool \<times> State)" where
  "ProcessEOM_each env k vmIndex e s =
     (case ProcessLists s k of
        None \<Rightarrow> Inl nil_deref
      | Some pl \<Rightarrow>
          (let vm = VMs pl ! nat vmIndex;
               vm' = vm\<lparr>LeaderMinute := LeaderMinute vm + 1, Synced := True\<rparr>;
               s1 = s\<lparr>EOMProcessed := EOMProcessed s + 1\<rparr>;
               s2 = setPL k (markNoFault env (pl\<lparr>VMs := (VMs pl)[nat vmIndex := vm']\<rparr>) vmIndex) s1
           in case LeaderPL s2 of
                None \<Rightarrow> Inl nil_deref
              | Some lk \<Rightarrow>
                  (case ProcessLists s2 lk of
                     None \<Rightarrow> Inl nil_deref
                   | Some lpl \<Rightarrow>
                       if SysHighest lpl < uint (EOM.SysHeight e)
                       then Inr (False, setPL lk (lpl\<lparr>SysHighest := uint (EOM.SysHeight e)\<rparr>) s2)
                       else Inr (False, s2))))"

text \<open>The block close, when the minute that has just ended was the tenth.\<close>

definition closeBlock_DBSig :: "env \<Rightarrow> int \<Rightarrow> State \<Rightarrow> error + State" where
  "closeBlock_DBSig env dbstate s =
     (case ProcessLists_Get env (LLeaderHeight s) s of
        (pldbs, s1) \<Rightarrow>
          if Leader s1
          then
            (case pldbs of
               None \<Rightarrow> Inl nil_deref
             | Some k \<Rightarrow>
                 (case ProcessLists s1 k of
                    None \<Rightarrow> Inl nil_deref
                  | Some pl \<Rightarrow>
                      if \<not> DBSigAlreadySent pl
                      then
                        (case DBStatesAt (DBStates s1) dbstate of
                           None \<Rightarrow> Inl nil_deref
                         | Some d \<Rightarrow>
                             (case buildDBSig env (DBState.DirectoryBlock d) (LLeaderHeight s1) (LeaderVMIndex s1) s1 of
                                Inl e \<Rightarrow> Inl e
                              | Inr (dbs, s2) \<Rightarrow>
                                  (case ProcessLists s2 k of
                                     None \<Rightarrow> Inl nil_deref
                                   | Some pl2 \<Rightarrow>
                                       LeaderExecuteDBSig env dbs (setPL k (pl2\<lparr>DBSigAlreadySent := True\<rparr>) s2))))
                      else Inr s1))
          else Inr s1)"

definition closeBlock_advance :: "env \<Rightarrow> State \<Rightarrow> error + State" where
  "closeBlock_advance env s =
     (let s1 = s\<lparr>CurrentMinute := 0, LLeaderHeight := LLeaderHeight s + 1\<rparr>;
          s2 = s1\<lparr>AckChange := GetAckChange env s1\<rparr>
      in case CheckForIDChange env s2 of
           Inl e \<Rightarrow> Inl e
         | Inr s3 \<Rightarrow>
             (case ProcessLists_Get env (LLeaderHeight s3) s3 of
                (p, s4) \<Rightarrow>
                  (case p of
                     None \<Rightarrow> Inl nil_deref
                   | Some k \<Rightarrow>
                       (case ProcessLists s4 k of
                          None \<Rightarrow> Inl nil_deref
                        | Some pl \<Rightarrow>
                            (case GetVirtualServers env pl 0 (IdentityChainID s4) of
                               (l, ix) \<Rightarrow>
                                 Inr (s4\<lparr>LeaderPL := p, Leader := l, LeaderVMIndex := ix,
                                         DBSigProcessed := 0\<rparr>))))))"

definition closeBlock_links :: "env \<Rightarrow> int \<Rightarrow> State \<Rightarrow> error + State" where
  "closeBlock_links env dbstate s =
     (case DBStatesAt (DBStates s) dbstate of
        None \<Rightarrow> Inl nil_deref
      | Some d \<Rightarrow>
          (let dbht = uint (DirectoryBlock.DBHeight (DBState.DirectoryBlock d))
           in if dbht > 0
              then Inr (s\<lparr>DBStates := FixupLinks env (DBStates s) (DBStates_Get s (dbht - 1)) dbstate\<rparr>)
              else Inr s))"

text \<open>The dbstate that the block close goes on with: the new one, or the ledger's.\<close>

definition closeBlock_dbstate :: "int option \<Rightarrow> State \<Rightarrow> error + int" where
  "closeBlock_dbstate added s =
     (case added of
        Some d \<Rightarrow> Inr d
      | None \<Rightarrow>
          (case LeaderPL s of
             None \<Rightarrow> Inl nil_deref
           | Some lk \<Rightarrow>
               (case ProcessLists s lk of
                  None \<Rightarrow> Inl nil_deref
                | Some lpl \<Rightarrow>
                    (case DBStates_Get s (uint (DirectoryBlock.DBHeight (ProcessList.DirectoryBlock lpl))) of
                       None \<Rightarrow> Inl nil_deref
                     | Some d \<Rightarrow> Inr d))))"

text \<open>The block close up to \<^verbatim>\<open>ProcessBlocks\<close>: the result is the dbstate and the state.\<close>

definition closeBlock_prepare :: "env \<Rightarrow> u32 \<Rightarrow> State \<Rightarrow> error + (int \<times> State)" where
  "closeBlock_prepare env k s =
     (case ProcessLists s k of
        None \<Rightarrow> Inl nil_deref
      | Some pl \<Rightarrow>
     (let eBlocks = map snd (NewEBlocks pl);
          entries = map snd (NewEntries pl)
      in case LeaderPL s of
           None \<Rightarrow> Inl nil_deref
         | Some lk \<Rightarrow>
        (case ProcessLists s lk of
           None \<Rightarrow> Inl nil_deref
         | Some lpl \<Rightarrow>
        (case AddDBState env True (ProcessList.DirectoryBlock lpl) (ProcessList.AdminBlock lpl)
                (CurrentBlock (FactoidState s)) (ProcessList.EntryCreditBlock lpl) eBlocks entries s of
           Inl e \<Rightarrow> Inl e
         | Inr (added, s1) \<Rightarrow>
        (case closeBlock_dbstate added s1 of
           Inl e \<Rightarrow> Inl e
         | Inr dbstate \<Rightarrow>
        (case closeBlock_links env dbstate s1 of
           Inl e \<Rightarrow> Inl e
         | Inr s2 \<Rightarrow> Inr (dbstate, ProcessBlocks env dbstate s2)))))))"

definition closeBlock :: "env \<Rightarrow> u32 \<Rightarrow> State \<Rightarrow> error + State" where
  "closeBlock env k s =
     (case closeBlock_prepare env k s of
        Inl e \<Rightarrow> Inl e
      | Inr (dbstate, s2) \<Rightarrow>
          (case closeBlock_advance env s2 of
             Inl e \<Rightarrow> Inl e
           | Inr s3 \<Rightarrow>
               (case closeBlock_DBSig env dbstate s3 of
                  Inl e \<Rightarrow> Inl e
                | Inr s4 \<Rightarrow> Inr (s4\<lparr>Saving := True\<rparr>))))"

text \<open>When the minute is below ten after the increment.\<close>

definition nextMinute :: "env \<Rightarrow> u32 \<Rightarrow> State \<Rightarrow> error + State" where
  "nextMinute env dbheight s =
     (case (if CurrentMinute s = 1
            then
              (case GetDBState s (dbheight - 1) of
                 None \<Rightarrow> Inl nil_deref
               | Some dbstate \<Rightarrow>
                   (case DBStatesAt (DBStates s) dbstate of
                      None \<Rightarrow> Inl nil_deref
                    | Some d \<Rightarrow>
                        if \<not> Saved d then Inr (setDBState dbstate (d\<lparr>ReadyToSave := True\<rparr>) s)
                        else Inr s))
            else Inr s) of
        Inl e \<Rightarrow> Inl e
      | Inr s1 \<Rightarrow>
          (case ProcessLists_Get env (LLeaderHeight s1) s1 of
             (p, s2) \<Rightarrow>
               (case p of
                  None \<Rightarrow> Inl nil_deref
                | Some k \<Rightarrow>
                    (case ProcessLists s2 k of
                       None \<Rightarrow> Inl nil_deref
                     | Some pl \<Rightarrow>
                         (case GetVirtualServers env pl (CurrentMinute s2) (IdentityChainID s2) of
                            (l, ix) \<Rightarrow> Inr (s2\<lparr>LeaderPL := p, Leader := l, LeaderVMIndex := ix\<rparr>))))))"

text \<open>
  The loop that deletes the acks below the leader height. Every value the file stores in
  \<open>Acks\<close> is an Ack, so the conversion in the loop does not fail.
\<close>

definition dropOldAcks :: "State \<Rightarrow> State" where
  "dropOldAcks s =
     s\<lparr>Acks := (\<lambda>key. case Acks s key of
                         None \<Rightarrow> None
                       | Some v \<Rightarrow>
                           (case Body (Msgs s v) of
                              AckMsg a \<Rightarrow> if Ack.DBHeight a < LLeaderHeight s then None else Some v
                            | _ \<Rightarrow> Some v))\<rparr>"

text \<open>All EOMs of the minute are in: the minute ends.\<close>

definition endMinute :: "env \<Rightarrow> u32 \<Rightarrow> EOM \<Rightarrow> ProcessList \<Rightarrow> State \<Rightarrow> State" where
  "endMinute env k e pl s =
     (let s1 = s\<lparr>EOMDone := True\<rparr>;
          pl1 = pl\<lparr>NewEBlocks := map (\<lambda>(h, eb). (h, eb @ [EndOfMinuteMarker (EOM.Minute e + 1)])) (NewEBlocks pl)\<rparr>;
          s2 = (setPL k pl1 s1)\<lparr>FactoidState := EndOfPeriod env (FactoidState s1) (uint (EOM.Minute e))\<rparr>;
          pl2 = pl1\<lparr>ProcessList.EntryCreditBlock := ProcessList.EntryCreditBlock pl1 @ [MinuteNumber (EOM.Minute e + 1)]\<rparr>;
          s3 = setPL k pl2 s2;
          s4 = (if \<not> Leader s3 then s3\<lparr>CurrentMinute := uint (EOM.Minute e)\<rparr> else s3);
          s5 = s4\<lparr>CurrentMinute := CurrentMinute s4 + 1\<rparr>
      in s5\<lparr>CurrentMinuteStartTime := UnixNano env s5\<rparr>)"

definition ProcessEOM_complete :: "env \<Rightarrow> u32 \<Rightarrow> u32 \<Rightarrow> EOM \<Rightarrow> State \<Rightarrow> error + (bool \<times> State)" where
  "ProcessEOM_complete env dbheight k e s =
     (case ProcessLists s k of
        None \<Rightarrow> Inl nil_deref
      | Some pl \<Rightarrow>
          (let s6 = endMinute env k e pl s
           in case (if CurrentMinute s6 < 10 then nextMinute env dbheight s6
                    else if CurrentMinute s6 = 10 then closeBlock env k s6
                    else Inr s6) of
                Inl err \<Rightarrow> Inl err
              | Inr s7 \<Rightarrow> Inr (False, dropOldAcks (s7\<lparr>Commits := RemoveExpired env s7\<rparr>))))"

definition ProcessEOM :: "env \<Rightarrow> u32 \<Rightarrow> msg_ref \<Rightarrow> State \<Rightarrow> error + (bool \<times> State)" where
  "ProcessEOM env dbheight msg s =
     (case Body (Msgs s msg) of
        EOMMsg e \<Rightarrow>
          if Syncing s \<and> \<not> EOM s then Inr (False, s)
          else if EOM s \<and> uint (EOM.Minute e) > EOMMinute s then Inr (False, s)
          else
            (case ProcessLists_Get env dbheight s of
               (None, s1) \<Rightarrow> Inl nil_deref
             | (Some k, s1) \<Rightarrow>
            (case ProcessLists s1 k of
               None \<Rightarrow> Inl nil_deref
             | Some pl \<Rightarrow>
            if \<not> inRange (VMIndex (Msgs s1 msg)) (VMs pl) then Inl index_out_of_range
            else
              (let vm = VMs pl ! nat (VMIndex (Msgs s1 msg));
                   s2 = (if (word_of_int (SystemHeight pl) :: u32) \<ge> EOM.SysHeight e
                         then s1\<lparr>EOMSys := True\<rparr> else s1)
               in if EOMDone s2 \<and> EOMSys s2 then ProcessEOM_unwind env dbheight s2
                  else if \<not> EOM s2 then ProcessEOM_open k e s2
                  else if \<not> Synced vm then ProcessEOM_each env k (VMIndex (Msgs s1 msg)) e s2
                  else
                    (case LeaderPL s2 of
                       None \<Rightarrow> Inl nil_deref
                     | Some lk \<Rightarrow>
                         (case ProcessLists s2 lk of
                            None \<Rightarrow> Inl nil_deref
                          | Some lpl \<Rightarrow>
                              (let allfaults = (SystemHeight lpl \<ge> SysHighest lpl)
                               in if allfaults \<and> EOMProcessed s2 = EOMLimit s2 \<and> \<not> EOMDone s2
                                  then ProcessEOM_complete env dbheight k e s2
                                  else Inr (False, s2)))))))
      | _ \<Rightarrow> Inl (Panic ''interface conversion: interfaces.IMsg is not *messages.EOM''))"


subsection \<open>Applying a DBState message: \<^verbatim>\<open>FollowerExecuteDBState\<close>\<close>

text \<open>
  A write through a pointer to a DBState changes the ledger entry the pointer stands for;
  once the entry is gone from the ledger the write is seen by nobody.
  \<^verbatim>\<open>ExecuteEntriesInDBState\<close> writes entries to the database only, which this state does
  not carry.
\<close>

definition updDBState :: "int \<Rightarrow> (DBState \<Rightarrow> DBState) \<Rightarrow> State \<Rightarrow> State" where
  "updDBState k f s =
     (case DBStatesAt (DBStates s) k of None \<Rightarrow> s | Some d \<Rightarrow> setDBState k (f d) s)"

definition ExecuteEntriesInDBState :: "DBStateMsg \<Rightarrow> State \<Rightarrow> State" where
  "ExecuteEntriesInDBState dbmsg s = s"

definition cntFail :: "DBStateMsg \<Rightarrow> State \<Rightarrow> State" where
  "cntFail dbstatemsg s =
     (if \<not> IsInDB dbstatemsg then s\<lparr>DBStateIgnoreCnt := DBStateIgnoreCnt s + 1\<rparr> else s)"

text \<open>
  The first loop over the factoid transactions: \<open>True\<close> when it runs to its end, \<open>False\<close>
  when it returns from the function. \<open>i\<close> is the index of the head of the list.
\<close>

fun replayScan :: "env \<Rightarrow> Replay \<Rightarrow> u32 \<Rightarrow> nat \<Rightarrow> nat \<Rightarrow> Transaction list \<Rightarrow> bool" where
  "replayScan env r dbheight blockTime i [] = True"
| "replayScan env r dbheight blockTime i (fct # rest) =
     (let valid = ReplayValid env r BLOCK_REPLAY (SigHash fct) (Transaction.Timestamp fct) blockTime
      in if i > 0 \<and> ((dbheight > 0 \<and> dbheight < 2000) \<or> dbheight > 100000) \<and> \<not> valid
         then False
         else replayScan env r dbheight blockTime (Suc i) rest)"

text \<open>The second loop: every transaction is sealed in the block replay filter.\<close>

fun sealAll :: "env \<Rightarrow> nat \<Rightarrow> Transaction list \<Rightarrow> Replay \<Rightarrow> Replay" where
  "sealAll env blockTime [] r = r"
| "sealAll env blockTime (fct # rest) r =
     sealAll env blockTime rest
       (ReplayIsTSValid env r BLOCK_REPLAY (SigHash fct) (Transaction.Timestamp fct) blockTime)"

text \<open>\<open>ValidNext\<close> said 0: the message is kept for later.\<close>

definition FollowerExecuteDBState_pending :: "env \<Rightarrow> msg_ref \<Rightarrow> DBStateMsg \<Rightarrow> u32 \<Rightarrow> State \<Rightarrow> State" where
  "FollowerExecuteDBState_pending env msg dbstatemsg dbheight s =
     (let saved = uint (GetHighestSavedBlk env (DBStates s));
          s1 = (if DBStatesReceivedBase s < saved
                then
                  (let cut = saved - DBStatesReceivedBase s;
                       s' = (if int (length (DBStatesReceived s)) > cut
                             then s\<lparr>DBStatesReceived := drop (nat cut) (DBStatesReceived s)\<rparr>
                             else s)
                   in s'\<lparr>DBStatesReceivedBase := DBStatesReceivedBase s' + cut\<rparr>)
                else s);
          ix = uint dbheight - DBStatesReceivedBase s1
      in if ix < 0 then ExecuteEntriesInDBState dbstatemsg s1
         else
           (let padded = DBStatesReceived s1
                         @ replicate (nat ix + 1 - length (DBStatesReceived s1)) None
            in s1\<lparr>DBStatesReceived := padded[nat ix := Some msg]\<rparr>))"

text \<open>After the replay scan has passed: seal, mark the DBState, reset the minute flags.\<close>

definition FollowerExecuteDBState_commit ::
  "env \<Rightarrow> msg_ref \<Rightarrow> DBStateMsg \<Rightarrow> u32 \<Rightarrow> int \<Rightarrow> State \<Rightarrow> error + State" where
  "FollowerExecuteDBState_commit env msg dbstatemsg dbheight dbstate s =
     (let s1 = s\<lparr>FReplay := sealAll env (DirectoryBlock.Timestamp (DBStateMsg.DirectoryBlock dbstatemsg))
                                (Transactions (DBStateMsg.FactoidBlock dbstatemsg)) (FReplay s)\<rparr>;
          s2 = (if IsInDB dbstatemsg = False
                then
                  (let s' = updDBState dbstate (\<lambda>d. d\<lparr>ReadyToSave := True, Locked := False, DBState.Signed := True\<rparr>) s1
                   in DBStatesUpdateState env (s'\<lparr>DBStateAppliedCnt := DBStateAppliedCnt s' + 1\<rparr>))
                else updDBState dbstate (\<lambda>d. d\<lparr>Saved := True, IsNew := False, Locked := False\<rparr>) s1);
          s3 = s2\<lparr>EOM := False, EOMDone := False, EOMSys := False, DBSig := False, DBSigDone := False,
                  DBSigSys := False, Saving := True, Syncing := False\<rparr>;
          s4 = (if LastEnd (DBStates s3) < uint dbheight then Catchup env s3 else s3);
          s5 = (if LastBegin (DBStates s4) < uint dbheight + 1
                then s4\<lparr>DBStates := (DBStates s4)\<lparr>LastBegin := uint dbheight\<rparr>\<rparr>
                else s4);
          s6 = s5\<lparr>DBStates := (DBStates s5)\<lparr>TimeToAsk := None\<rparr>\<rparr>
      in if Local (Msgs s6 msg) \<and> FastBoot s6
         then
           (case SaveFactomdState env dbstate s6 of
              (ss, s7) \<Rightarrow>
                (let s8 = updDBState dbstate (\<lambda>d. d\<lparr>SaveStruct := ss\<rparr>) s7
                 in case SaveDBStateList env s8 of
                      Some err \<Rightarrow> Inl (Panic err)
                    | None \<Rightarrow> Inr s8))
         else Inr s6)"

text \<open>Before the block is added, the state may be rolled back to the predecessor's.\<close>

definition FollowerExecuteDBState_trim :: "env \<Rightarrow> u32 \<Rightarrow> int option \<Rightarrow> State \<Rightarrow> error + State" where
  "FollowerExecuteDBState_trim env dbheight pdbstate s =
     (if dbheight > 1 \<and> dbheight \<ge> DBHeightBase s
      then
        (let dbs = DBStates_Get s (uint dbheight)
         in case pdbstate of
              None \<Rightarrow> Inl nil_deref
            | Some pk \<Rightarrow>
                (case DBStatesAt (DBStates s) pk of
                   None \<Rightarrow> Inl nil_deref
                 | Some pd \<Rightarrow>
                     (case SaveStruct pd of
                        None \<Rightarrow> Inr s
                      | Some ss \<Rightarrow> Inr (TrimBack env ss dbs s))))
      else Inr s)"

definition FollowerExecuteDBState :: "env \<Rightarrow> msg_ref \<Rightarrow> State \<Rightarrow> error + State" where
  "FollowerExecuteDBState env msg s =
     (case Body (Msgs s msg) of
        DBStateMsgB dbstatemsg \<Rightarrow>
          (let dbheight = DirectoryBlock.DBHeight (DBStateMsg.DirectoryBlock dbstatemsg)
           in if dbheight > 0 \<and> dbheight \<le> GetHighestSavedBlk env (DBStates s)
                 \<and> dbheight < EntryDBHeightComplete s
              then Inr s
              else
                (let pdbstate = DBStates_Get s (uint (dbheight - 1));
                     v = ValidNext env s pdbstate msg
                 in if v = 0 then Inr (FollowerExecuteDBState_pending env msg dbstatemsg dbheight s)
                    else if v = - 1 then Inr (cntFail dbstatemsg s)
                    else
                      (case FollowerExecuteDBState_trim env dbheight pdbstate s of
                         Inl e \<Rightarrow> Inl e
                       | Inr s1 \<Rightarrow>
                           (case AddDBState env False (DBStateMsg.DirectoryBlock dbstatemsg)
                                   (DBStateMsg.AdminBlock dbstatemsg) (DBStateMsg.FactoidBlock dbstatemsg)
                                   (DBStateMsg.EntryCreditBlock dbstatemsg) (DBStateMsg.EBlocks dbstatemsg)
                                   (DBStateMsg.Entries dbstatemsg) s1 of
                              Inl e \<Rightarrow> Inl e
                            | Inr (None, s2) \<Rightarrow> Inr (cntFail dbstatemsg s2)
                            | Inr (Some dbstate, s2) \<Rightarrow>
                                if \<not> replayScan env (FReplay s2) dbheight
                                       (DirectoryBlock.Timestamp (DBStateMsg.DirectoryBlock dbstatemsg)) 0
                                       (Transactions (DBStateMsg.FactoidBlock dbstatemsg))
                                then Inr s2
                                else FollowerExecuteDBState_commit env msg dbstatemsg dbheight dbstate s2))))
      | _ \<Rightarrow> Inl nil_deref)"


subsection \<open>Reading an Ack back, and running the executor again\<close>

definition SerialHashOf :: "State \<Rightarrow> msg_ref \<Rightarrow> hash option" where
  "SerialHashOf s a = (case Body (Msgs s a) of AckMsg ack \<Rightarrow> Some (Ack.SerialHash ack) | _ \<Rightarrow> None)"

definition NewAck_SerialHash :: "env \<Rightarrow> msg_ref \<Rightarrow> hash option \<Rightarrow> State \<Rightarrow> hash option" where
  "NewAck_SerialHash env msg balanceHash s =
     (case NewAck env msg balanceHash s of Inl e \<Rightarrow> None | Inr (a, s') \<Rightarrow> SerialHashOf s' a)"

text \<open>The two gates that a message passes before it is validated.\<close>

definition passesGates :: "env \<Rightarrow> msg_ref \<Rightarrow> State \<Rightarrow> bool" where
  "passesGates env msg s =
     (ReplayValid env (Replay s) INTERNAL_REPLAY (RepeatHash (Msgs s msg)) (Msg.Timestamp (Msgs s msg)) (Now s)
      \<and> \<not> (IgnoreMissing s
            \<and> GetTimeSeconds (Now s) - GetTimeSeconds (Msg.Timestamp (Msgs s msg)) > 60 * 15))"

text \<open>The same message executed \<open>n\<close> times in a row.\<close>

fun executeMsg_times :: "nat \<Rightarrow> env \<Rightarrow> vm_ref option \<Rightarrow> msg_ref \<Rightarrow> State \<Rightarrow> error + State" where
  "executeMsg_times 0 env vm msg s = Inr s"
| "executeMsg_times (Suc n) env vm msg s =
     (case executeMsg env vm msg s of
        Inl e \<Rightarrow> Inl e
      | Inr (ret, s') \<Rightarrow> executeMsg_times n env vm msg s')"


subsection \<open>Holding review: \<^verbatim>\<open>ReviewHolding\<close>\<close>

text \<open>
  Go visits the keys of the map \<^verbatim>\<open>Holding\<close> in an order of its own choosing and skips a
  key that has been deleted before its turn; the order is \<open>HoldingOrder\<close>. \<^verbatim>\<open>DB.Trim\<close>
  works on the database, which this state does not carry.
\<close>

definition deleteHolding :: "hash \<Rightarrow> State \<Rightarrow> State" where
  "deleteHolding k s = s\<lparr>Holding := (Holding s)(k := None)\<rparr>"

definition reviewHeld :: "env \<Rightarrow> u32 \<Rightarrow> u32 \<Rightarrow> hash \<Rightarrow> msg_ref \<Rightarrow> State \<Rightarrow> State" where
  "reviewHeld env highest saved k v s0 =
     (let s = (if uint highest - uint saved > 1000 then deleteHolding k s0 else s0);
          body = Body (Msgs s v)
      in case body of
           MissingMsgResponse resp \<Rightarrow>
             (case resp of
                None \<Rightarrow> s
              | Some r \<Rightarrow>
                  (case Body (Msgs s r) of
                     FullServerFault h \<Rightarrow> if h < saved then deleteHolding k s else s
                   | _ \<Rightarrow> s))
         | _ \<Rightarrow>
             if (case body of ServerFault h \<Rightarrow> h < saved | _ \<Rightarrow> False) then deleteHolding k s
             else if (case body of FullServerFault h \<Rightarrow> h < saved | _ \<Rightarrow> False) then deleteHolding k s
             else if (case body of
                        EOMMsg eom \<Rightarrow> (EOM.DBHeight eom \<le> saved \<and> saved > 0)
                                      \<or> (EOM.DBHeight eom < highest - 3 \<and> highest > 2)
                      | _ \<Rightarrow> False) then deleteHolding k s
             else if (case body of
                        DBStateMsgB m \<Rightarrow>
                          DirectoryBlock.DBHeight (DBStateMsg.DirectoryBlock m) < saved - 1 \<and> saved > 0
                      | _ \<Rightarrow> False) then deleteHolding k s
             else if (case body of
                        DBSigMsg d \<Rightarrow> (DirectoryBlockSignature.DBHeight d \<le> saved \<and> saved > 0)
                                      \<or> (DirectoryBlockSignature.DBHeight d < highest - 3 \<and> highest > 2)
                      | _ \<Rightarrow> False) then deleteHolding k s
             else if \<not> ReplayValid env (Replay s) INTERNAL_REPLAY (RepeatHash (Msgs s v))
                         (Msg.Timestamp (Msgs s v)) (Now s) then deleteHolding k s
             else if Expire env s v then deleteHolding k (s\<lparr>ExpireCnt := ExpireCnt s + 1\<rparr>)
             else if Resend env s v \<and> Validate env s v = 1
                  then SendOut env v (s\<lparr>ResendCnt := ResendCnt s + 1\<rparr>)
             else if Validate env s v < 0 then deleteHolding k s
             else deleteHolding k (s\<lparr>XReview := XReview s @ [Some v]\<rparr>))"

fun reviewHoldingLoop :: "env \<Rightarrow> u32 \<Rightarrow> u32 \<Rightarrow> hash list \<Rightarrow> State \<Rightarrow> State" where
  "reviewHoldingLoop env highest saved [] s = s"
| "reviewHoldingLoop env highest saved (k # rest) s =
     reviewHoldingLoop env highest saved rest
       (case Holding s k of None \<Rightarrow> s | Some v \<Rightarrow> reviewHeld env highest saved k v s)"

definition ReviewHolding :: "env \<Rightarrow> State \<Rightarrow> State" where
  "ReviewHolding env s =
     (if length (XReview s) > 0 then s
      else if inMsgQueueLength env s > INMSGQUEUE_LOW env then s
      else
        (let now = Now s;
             s1 = (if ResendHolding s = None then s\<lparr>ResendHolding := Some now\<rparr> else s)
         in if int now - int (case ResendHolding s1 of Some t \<Rightarrow> t | None \<Rightarrow> now) < 300 then s1
            else
              (let s2 = s1\<lparr>ResendHolding := Some now, XReview := []\<rparr>;
                   highest = GetHighestKnownBlock s2;
                   saved = GetHighestSavedBlk env (DBStates s2)
               in reviewHoldingLoop env highest saved (HoldingOrder env s2) s2)))"

subsection \<open>The process loop: \<^verbatim>\<open>Process\<close>\<close>

text \<open>
  The channels \<^verbatim>\<open>ackQueue\<close> and \<^verbatim>\<open>msgQueue\<close> are fed by other threads; what they deliver
  during one call of \<^verbatim>\<open>Process\<close> is given to it as two lists. The channel \<^verbatim>\<open>process\<close>
  is local to the call: a list, with room while it holds fewer than 9995 messages.
\<close>

definition room :: "msg_ref list \<Rightarrow> bool" where
  "room process = (length process < 9995)"

definition recomputeLeader :: "env \<Rightarrow> State \<Rightarrow> error + State" where
  "recomputeLeader env s =
     (case ProcessLists_Get env (LLeaderHeight s) s of
        (p, s1) \<Rightarrow>
          (case p of
             None \<Rightarrow> Inl nil_deref
           | Some k \<Rightarrow>
               (case ProcessLists s1 k of
                  None \<Rightarrow> Inl nil_deref
                | Some pl \<Rightarrow>
                    (case GetVirtualServers env pl (if CurrentMinute s1 > 9 then 9 else CurrentMinute s1)
                            (IdentityChainID s1) of
                       (l, ix) \<Rightarrow> Inr (s1\<lparr>LeaderPL := p, Leader := l, LeaderVMIndex := ix\<rparr>)))))"

definition bootWindow :: "env \<Rightarrow> State \<Rightarrow> error + State" where
  "bootWindow env s =
     (if \<not> RunLeader s
      then
        (let now = int (Now s);
             s1 = (if now - StartDelay s > StartDelayLimit s
                   then
                     (if DBFinished s = True
                      then
                        (let s' = s\<lparr>RunLeader := True\<rparr>
                         in if \<not> IgnoreDone s' then s'\<lparr>StartDelay := now, IgnoreDone := True\<rparr> else s')
                      else s)
                   else s)
         in recomputeLeader env s1)
      else if IgnoreMissing s
      then
        (case recomputeLeader env s of
           Inl e \<Rightarrow> Inl e
         | Inr s1 \<Rightarrow>
             Inr (if int (Now s1) - StartDelay s1 > StartDelayLimit s1 then s1\<lparr>IgnoreMissing := False\<rparr> else s1))
      else Inr s)"

definition leaderVM :: "env \<Rightarrow> State \<Rightarrow> error + (vm_ref option \<times> State)" where
  "leaderVM env s =
     (if Leader s
      then
        (case LeaderPL s of
           None \<Rightarrow> Inl nil_deref
         | Some lk \<Rightarrow>
             (case ProcessLists s lk of
                None \<Rightarrow> Inl nil_deref
              | Some lpl \<Rightarrow>
                  if \<not> inRange (LeaderVMIndex s) (VMs lpl) then Inl index_out_of_range
                  else if VM.Height (VMs lpl ! nat (LeaderVMIndex s)) = 0
                  then
                    (case SendDBSig env (ProcessList.DBHeight lpl) (LeaderVMIndex s) s of
                       Inl e \<Rightarrow> Inl e
                     | Inr s1 \<Rightarrow> Inr (Some (lk, nat (LeaderVMIndex s)), s1))
                  else Inr (Some (lk, nat (LeaderVMIndex s)), s)))
      else Inr (None, s))"

function drainDBStates :: "env \<Rightarrow> msg_ref list \<Rightarrow> State \<Rightarrow> msg_ref list \<times> State" where
  "drainDBStates env process s =
     (if room process
      then
        (let ix = uint (GetHighestSavedBlk env (DBStates s)) - DBStatesReceivedBase s + 1
         in if ix < 0 \<or> ix \<ge> int (length (DBStatesReceived s)) then (process, s)
            else
              (case DBStatesReceived s ! nat ix of
                 None \<Rightarrow> (process, s)
               | Some msg \<Rightarrow>
                   drainDBStates env (process @ [msg])
                     (s\<lparr>DBStatesReceived := (DBStatesReceived s)[nat ix := None]\<rparr>)))
      else (process, s))"
  by pat_completeness auto
termination
  by (relation "measure (\<lambda>(env, process, s). 9995 - length process)") (auto simp: room_def)

declare drainDBStates.simps [simp del]

fun ackLoop :: "env \<Rightarrow> vm_ref option \<Rightarrow> msg_ref list \<Rightarrow> bool \<Rightarrow> State \<Rightarrow> error + (bool \<times> State)" where
  "ackLoop env vm [] progress s = Inr (progress, s)"
| "ackLoop env vm (ack # rest) progress s =
     (case Body (Msgs s ack) of
        AckMsg a \<Rightarrow>
          (case (if Ack.DBHeight a \<ge> LLeaderHeight s \<and> Validate env s ack = 1
                 then
                   (if IgnoreMissing s
                    then
                      (if GetTimeSeconds (Now s) - GetTimeSeconds (Msg.Timestamp (Msgs s ack)) < 60 * 15
                       then executeMsg env vm ack s
                       else Inr (False, s))
                    else executeMsg env vm ack s)
                 else Inr (False, s)) of
             Inl e \<Rightarrow> Inl e
           | Inr (ret, s1) \<Rightarrow> ackLoop env vm rest True s1)
      | _ \<Rightarrow> Inl (Panic ''interface conversion: interfaces.IMsg is not *messages.Ack''))"

fun msgLoop :: "env \<Rightarrow> vm_ref option \<Rightarrow> msg_ref list \<Rightarrow> State \<Rightarrow> error + State" where
  "msgLoop env vm [] s = Inr s"
| "msgLoop env vm (msg # rest) s =
     (case executeMsg env vm msg s of
        Inl e \<Rightarrow> Inl e
      | Inr (ret, s1) \<Rightarrow>
          msgLoop env vm rest (if ret \<and> \<not> Peer2Peer (Msgs s1 msg) then SendOut env msg s1 else s1))"

text \<open>
  The pass over XReview runs over the list as it is when the pass begins. The first
  component of the result says whether the pass came to its end; only then is XReview
  emptied.
\<close>

fun reviewLoop ::
  "env \<Rightarrow> vm_ref option \<Rightarrow> msg_ref option list \<Rightarrow> msg_ref list \<Rightarrow> bool \<Rightarrow> State \<Rightarrow>
   error + (bool \<times> msg_ref list \<times> bool \<times> State)" where
  "reviewLoop env vm [] process progress s = Inr (True, process, progress, s)"
| "reviewLoop env vm (m # rest) process progress s =
     (if \<not> room process then Inr (False, process, progress, s)
      else
        (case m of
           None \<Rightarrow> reviewLoop env vm rest process progress s
         | Some msg \<Rightarrow>
             (case executeMsg env vm msg s of
                Inl e \<Rightarrow> Inl e
              | Inr (ret, s1) \<Rightarrow> reviewLoop env vm rest (process @ [msg]) (ret \<or> progress) s1)))"

fun pump :: "env \<Rightarrow> vm_ref option \<Rightarrow> msg_ref list \<Rightarrow> State \<Rightarrow> error + State" where
  "pump env vm [] s = Inr s"
| "pump env vm (msg # rest) s =
     (case executeMsg env vm msg s of
        Inl e \<Rightarrow> Inl e
      | Inr (ret, s1) \<Rightarrow>
          pump env vm rest
            (UpdateState env (if \<not> Peer2Peer (Msgs s1 msg) then SendOut env msg s1 else s1)))"

definition Process :: "env \<Rightarrow> msg_ref list \<Rightarrow> msg_ref list \<Rightarrow> State \<Rightarrow> error + (bool \<times> State)" where
  "Process env acks msgs s =
     (if ResetRequest s then Inr (False, DoReset env (s\<lparr>ResetRequest := False\<rparr>))
      else
        (case bootWindow env s of
           Inl e \<Rightarrow> Inl e
         | Inr s1 \<Rightarrow>
        (case leaderVM env s1 of
           Inl e \<Rightarrow> Inl e
         | Inr (vm, s2) \<Rightarrow>
        (case drainDBStates env [] s2 of
           (process, s3) \<Rightarrow>
        (case (if room process then ackLoop env vm acks False (ReviewHolding env s3)
               else Inr (False, ReviewHolding env s3)) of
           Inl e \<Rightarrow> Inl e
         | Inr (progress, s4) \<Rightarrow>
        (case (if room process then msgLoop env vm msgs s4 else Inr s4) of
           Inl e \<Rightarrow> Inl e
         | Inr s5 \<Rightarrow>
        (case reviewLoop env vm (XReview s5) process progress s5 of
           Inl e \<Rightarrow> Inl e
         | Inr (done, process', progress', s6) \<Rightarrow>
        (case pump env vm process' (if done then s6\<lparr>XReview := []\<rparr> else s6) of
           Inl e \<Rightarrow> Inl e
         | Inr s7 \<Rightarrow> Inr (progress', s7)))))))))"

subsection \<open>What is asked of the collaborators\<close>

text \<open>
  The methods that are handed the whole state are outside this file. \<open>neverLowers\<close> says
  that none of them leaves \<open>LLeaderHeight\<close> below the value it found; \<open>staysBelowTop\<close>
  says that none of them, and no new process list, brings the largest 32-bit height into
  a state that is below it.
\<close>

definition top :: u32 where
  "top = 0xFFFFFFFF"

definition belowTop :: "State \<Rightarrow> bool" where
  "belowTop s =
     (LLeaderHeight s < top
      \<and> (\<forall>k pl. ProcessLists s k = Some pl \<longrightarrow> DirectoryBlock.DBHeight (ProcessList.DirectoryBlock pl) < top))"

definition neverLowers :: "env \<Rightarrow> bool" where
  "neverLowers env =
     ((\<forall>h s. LLeaderHeight s \<le> LLeaderHeight (snd (PLUpdateState env h s)))
      \<and> (\<forall>s. LLeaderHeight s \<le> LLeaderHeight (UpdateState env s))
      \<and> (\<forall>s. LLeaderHeight s \<le> LLeaderHeight (DoReset env s))
      \<and> (\<forall>m s. LLeaderHeight s \<le> LLeaderHeight (LeaderExecute env m s))
      \<and> (\<forall>m s. LLeaderHeight s \<le> LLeaderHeight (FollowerExecute env m s))
      \<and> (\<forall>m s. LLeaderHeight s \<le> LLeaderHeight (SendOut env m s))
      \<and> (\<forall>ss d s. LLeaderHeight s \<le> LLeaderHeight (TrimBack env ss d s))
      \<and> (\<forall>d s. LLeaderHeight s \<le> LLeaderHeight (ProcessBlocks env d s))
      \<and> (\<forall>s. LLeaderHeight s \<le> LLeaderHeight (DBStatesUpdateState env s))
      \<and> (\<forall>s. LLeaderHeight s \<le> LLeaderHeight (Catchup env s))
      \<and> (\<forall>d s. LLeaderHeight s \<le> LLeaderHeight (snd (SaveFactomdState env d s))))"

definition staysBelowTop :: "env \<Rightarrow> bool" where
  "staysBelowTop env =
     ((\<forall>h s. belowTop s \<longrightarrow> belowTop (snd (PLUpdateState env h s)))
      \<and> (\<forall>d s. belowTop s \<longrightarrow> belowTop (ProcessBlocks env d s))
      \<and> (\<forall>s h pl. NewProcessList env s h = Some pl \<longrightarrow>
            DirectoryBlock.DBHeight (ProcessList.DirectoryBlock pl) < top))"



section \<open>Concrete states and environments\<close>

text \<open>
  A quiet node and an environment of collaborators that do nothing; the examples below are
  built from them by record update.
\<close>

definition blankMsg :: Msg where
  "blankMsg = \<lparr>MsgHash = Digest 0, RepeatHash = Digest 0, Timestamp = 0, VMIndex = 0,
               LeaderChainID = None, Minute = 0, Local = False, Peer2Peer = False,
               SentInvalid = False, Signed = False, Body = OtherMsg 0\<rparr>"

definition blankDBlock :: DirectoryBlock where
  "blankDBlock = \<lparr>DirectoryBlock.DBHeight = 0, KeyMR = [], PrevKeyMR = [], Timestamp = 0\<rparr>"

definition quietState :: State where
  "quietState =
     \<lparr>Network = ''LOCAL'', FactomNodeName = ''FNode0'', IdentityChainID = Digest 7,
      LocalServerPrivKey = [], Now = 0, Salt = [], Balancehash = None, TempBalanceHash = None,
      LLeaderHeight = 0, CurrentMinute = 0, CurrentMinuteStartTime = 0,
      Syncing = False, EOM = False, EOMDone = False, EOMSys = False, EOMsyncing = False,
      EOMLimit = 0, EOMMinute = 0, EOMProcessed = 0,
      DBSig = False, DBSigDone = False, DBSigSys = False, DBSigProcessed = 0, Saving = False,
      RunLeader = False, Leader = False, LeaderVMIndex = 0, LeaderPL = None,
      StartDelay = 0, StartDelayLimit = 0, IgnoreMissing = False, IgnoreDone = False,
      DBFinished = False, ResetRequest = False, HighestKnown = 0, AckChange = 0,
      Msgs = (\<lambda>r. blankMsg), NextMsg = 100, Holding = Map.empty, Acks = Map.empty,
      Commits = Map.empty, XReview = [], ResendHolding = None,
      networkInvalidMsgQueue = [], Replay = [], FReplay = [],
      FactoidState = \<lparr>CurrentBlock = \<lparr>Transactions = []\<rparr>, Periods = []\<rparr>,
      ProcessLists = Map.empty, DBHeightBase = 0,
      DBStates = \<lparr>DBStatesAt = Map.empty, LastEnd = 0, LastBegin = 0, TimeToAsk = None\<rparr>,
      DBStatesReceived = [], DBStatesReceivedBase = 0, EntryDBHeightComplete = 0,
      FastBoot = False, DBStateIgnoreCnt = 0, DBStateAppliedCnt = 0, ExpireCnt = 0, ResendCnt = 0\<rparr>"

definition quietEnv :: env where
  "quietEnv =
     \<lparr>CheckPoints = Map.empty, INMSGQUEUE_LOW = 0,
      ReplayValid = (\<lambda>r k h t n. (k, h, t) \<notin> set r),
      Validate = (\<lambda>s m. 1), VMIndexFor = (\<lambda>s m. VMIndex (Msgs s m)),
      Expire = (\<lambda>s m. False), Resend = (\<lambda>s m. False),
      GetHighestSavedBlk = (\<lambda>l. 0), GetVirtualServers = (\<lambda>pl m h. (False, 0)),
      ValidNext = (\<lambda>s p m. 1), GetSalt = (\<lambda>s t. 0), HashOf = (\<lambda>m. MsgHash m),
      GetSerialHash = (\<lambda>m. MsgHash m),
      SignOK = (\<lambda>s m. True), GetBalanceHash = (\<lambda>s b. None), GetAuditServers = (\<lambda>s h. []),
      ReadConfig = (\<lambda>s. (Some (IdentityChainID s), LocalServerPrivKey s)),
      GetAckChange = (\<lambda>s. AckChange s), UnixNano = (\<lambda>s. 0), inMsgQueueLength = (\<lambda>s. 0),
      HoldingOrder = (\<lambda>s. []),
      NewProcessList = (\<lambda>s h. None), DBStatesPut = (\<lambda>s d. True),
      ReplayIsTSValid = (\<lambda>r k h t n. (k, h, t) # r),
      AddToProcessList = (\<lambda>s pl a m. (VMs pl, Holding s, Acks s)),
      markNoFault = (\<lambda>pl i. pl), Ask = (\<lambda>pl i. pl), EndOfPeriod = (\<lambda>f m. f),
      FixupLinks = (\<lambda>l p d. l), RemoveExpired = (\<lambda>s. Commits s),
      PLUpdateState = (\<lambda>h s. (False, s)), UpdateState = (\<lambda>s. s), DoReset = (\<lambda>s. s),
      LeaderExecute = (\<lambda>m s. s), FollowerExecute = (\<lambda>m s. s), SendOut = (\<lambda>m s. s),
      TrimBack = (\<lambda>ss d s. s), ProcessBlocks = (\<lambda>d s. s), DBStatesUpdateState = (\<lambda>s. s),
      Catchup = (\<lambda>s. s), SaveFactomdState = (\<lambda>d s. (None, s)), SaveDBStateList = (\<lambda>s. None)\<rparr>"

text \<open>Scenario 3 of the spec: a CommitEntry of 10 credits is stored, one of 20 arrives.\<close>

definition commitMsg :: "nat \<Rightarrow> Msg" where
  "commitMsg c = blankMsg\<lparr>Body := CommitEntryMsg \<lparr>Credits = c, EntryHash = Digest 5\<rparr>\<rparr>"

definition commitState :: State where
  "commitState =
     quietState\<lparr>Msgs := (\<lambda>r. blankMsg)(1 := commitMsg 10, 2 := commitMsg 20, 3 := commitMsg 10),
                Commits := [Digest 5 \<mapsto> Some 1]\<rparr>"

text \<open>Scenario 6 of the spec: a checkpoint at height 10 and a block there with another KeyMR.\<close>

definition checkpointEnv :: env where
  "checkpointEnv = quietEnv\<lparr>CheckPoints := [10 \<mapsto> ''abcd'']\<rparr>"

definition refusingEnv :: env where
  "refusingEnv = checkpointEnv\<lparr>DBStatesPut := (\<lambda>s d. False)\<rparr>"

definition block10 :: DirectoryBlock where
  "block10 = \<lparr>DirectoryBlock.DBHeight = 10, KeyMR = ''dead'', PrevKeyMR = [], Timestamp = 0\<rparr>"

definition noFBlock :: FBlock where
  "noFBlock = \<lparr>Transactions = []\<rparr>"

definition localState :: State where
  "localState = quietState\<lparr>LLeaderHeight := 20\<rparr>"

definition mainState :: State where
  "mainState = quietState\<lparr>Network := ''MAIN'', LLeaderHeight := 20\<rparr>"

text \<open>A node that has no block yet, and the block of height 0.\<close>

definition block0 :: DirectoryBlock where
  "block0 = \<lparr>DirectoryBlock.DBHeight = 0, KeyMR = ''beef'', PrevKeyMR = [], Timestamp = 0\<rparr>"


text \<open>A message whose RepeatHash the internal replay filter has already seen.\<close>

definition replayedState :: State where
  "replayedState = quietState\<lparr>Replay := [(INTERNAL_REPLAY, Digest 0, 0)]\<rparr>"

text \<open>
  A leader at height 5 whose VM 0 holds two acknowledged messages; the acks are at the
  addresses 10 and 11, a third message waits at address 22.
\<close>

definition ackMsg :: "u32 \<Rightarrow> hash \<Rightarrow> hash \<Rightarrow> Msg" where
  "ackMsg h mh sh =
     blankMsg\<lparr>Body := AckMsg \<lparr>Ack.DBHeight = 5, Height = h, MessageHash = mh, SerialHash = sh,
                               BalanceHash = None, SaltNumber = 0, Salt = []\<rparr>\<rparr>"

definition blankVM :: VM where
  "blankVM = \<lparr>List = [], Height = 0, LeaderMinute = 0, Synced = False, Signed = False,
              FaultFlag = 0, WhenFaulted = 0\<rparr>"

definition blankPL :: ProcessList where
  "blankPL = \<lparr>ProcessList.DBHeight = 0, FedServers = [], VMs = [], SystemHeight = 0, SystemList = [],
              SysHighest = 0, DirectoryBlock = blankDBlock, AdminBlock = [], EntryCreditBlock = [],
              NewEBlocks = [], NewEntries = [], FactoidBalancesT = Map.empty, ECBalancesT = Map.empty,
              DBSigAlreadySent = False\<rparr>"

definition chainPL :: ProcessList where
  "chainPL = blankPL\<lparr>ProcessList.DBHeight := 5, FedServers := [Digest 7],
                     VMs := [blankVM\<lparr>List := [Some (10, 20), Some (11, 21)], Height := 2\<rparr>]\<rparr>"

definition chainState :: State where
  "chainState =
     quietState\<lparr>LLeaderHeight := 5, LeaderPL := Some 5, ProcessLists := [5 \<mapsto> chainPL],
                Msgs := (\<lambda>r. blankMsg)
                  (10 := ackMsg 0 (Digest 100) (Digest 100),
                   11 := ackMsg 1 (Digest 101) (CreateHash (Digest 100) (Digest 101)),
                   20 := blankMsg\<lparr>MsgHash := Digest 100\<rparr>,
                   21 := blankMsg\<lparr>MsgHash := Digest 101\<rparr>,
                   22 := blankMsg\<lparr>MsgHash := Digest 102\<rparr>)\<rparr>"

definition emptyChainState :: State where
  "emptyChainState =
     chainState\<lparr>ProcessLists := [5 \<mapsto> chainPL\<lparr>VMs := [blankVM]\<rparr>]\<rparr>"

text \<open>An environment in which every message is invalid for ever.\<close>

definition invalidEnv :: env where
  "invalidEnv = quietEnv\<lparr>Validate := (\<lambda>s m. - 1)\<rparr>"


text \<open>
  Scenario 4 of the spec: three federated servers at height 5, and the EOM of minute 0
  from VM 0 at the address 30. Two of the VMs still carry the \<open>Synced\<close> flag of the last
  round.
\<close>

definition eomMsg :: "int \<Rightarrow> byte \<Rightarrow> Msg" where
  "eomMsg vm minute =
     blankMsg\<lparr>VMIndex := vm, Body := EOMMsg \<lparr>EOM.DBHeight = 5, Minute = minute, SysHeight = 0\<rparr>\<rparr>"

definition eomPL :: ProcessList where
  "eomPL = blankPL\<lparr>ProcessList.DBHeight := 5, FedServers := [Digest 1, Digest 2, Digest 3],
                   VMs := [blankVM\<lparr>Synced := True\<rparr>, blankVM, blankVM\<lparr>Synced := True\<rparr>]\<rparr>"

definition eomState :: State where
  "eomState =
     quietState\<lparr>LLeaderHeight := 5, LeaderPL := Some 5, ProcessLists := [5 \<mapsto> eomPL],
                Msgs := (\<lambda>r. blankMsg)(30 := eomMsg 0 0)\<rparr>"


text \<open>
  A DBState message at the address 40 for the height \<open>h\<close>, on a node whose ledger has the
  block below it. The factoid block has the coinbase and one more transaction, and that
  transaction is already sealed in the block replay filter.
\<close>

definition spentTwiceMsg :: "u32 \<Rightarrow> Msg" where
  "spentTwiceMsg h =
     blankMsg\<lparr>Body := DBStateMsgB
       \<lparr>DBStateMsg.DirectoryBlock = \<lparr>DirectoryBlock.DBHeight = h, KeyMR = ''feed'', PrevKeyMR = [], Timestamp = 0\<rparr>,
        AdminBlock = [],
        FactoidBlock = \<lparr>Transactions = [\<lparr>SigHash = Digest 8, Timestamp = 0\<rparr>,
                                        \<lparr>SigHash = Digest 9, Timestamp = 0\<rparr>]\<rparr>,
        EntryCreditBlock = [], EBlocks = [], Entries = [], IsInDB = False\<rparr>\<rparr>"

definition spentTwiceState :: "u32 \<Rightarrow> State" where
  "spentTwiceState h =
     quietState\<lparr>LLeaderHeight := h,
                FReplay := [(BLOCK_REPLAY, Digest 9, 0)],
                DBStates := \<lparr>DBStatesAt = [uint h - 1 \<mapsto>
                                (freshDBState False blankDBlock [] noFBlock [] [] [])\<lparr>Saved := True\<rparr>],
                             LastEnd = 0, LastBegin = 0, TimeToAsk = None\<rparr>,
                Msgs := (\<lambda>r. blankMsg)(40 := spentTwiceMsg h)\<rparr>"


text \<open>
  Scenario 5 of the spec: one federated server at height \<open>H\<close>, minute 9, every EOM of the
  minute processed but the last call, whose EOM is at the address 50. The environment makes
  the process lists that are asked for, takes the node for the leader of VM 0, and its
  \<open>FixupLinks\<close> leaves a trace in the ledger (\<open>TimeToAsk\<close> becomes \<open>Some 1\<close>).
\<close>

definition openingPL :: "u32 \<Rightarrow> ProcessList" where
  "openingPL H = blankPL\<lparr>ProcessList.DBHeight := H, FedServers := [Digest 7], VMs := [blankVM]\<rparr>"

definition tracingEnv :: env where
  "tracingEnv = quietEnv\<lparr>NewProcessList := (\<lambda>s h. Some (openingPL h)),
                         GetVirtualServers := (\<lambda>pl m h. (True, 0)),
                         FixupLinks := (\<lambda>l p d. l\<lparr>TimeToAsk := Some 1\<rparr>)\<rparr>"

definition closingPL :: "u32 \<Rightarrow> ProcessList" where
  "closingPL H = blankPL\<lparr>ProcessList.DBHeight := H, FedServers := [Digest 7],
                         VMs := [blankVM\<lparr>Synced := True\<rparr>],
                         ProcessList.DirectoryBlock := blankDBlock\<lparr>DirectoryBlock.DBHeight := H, KeyMR := ''cafe''\<rparr>\<rparr>"

definition closingState :: "u32 \<Rightarrow> State" where
  "closingState H =
     quietState\<lparr>LLeaderHeight := H, CurrentMinute := 9, Leader := True, Syncing := True, EOM := True,
                EOMLimit := 1, EOMMinute := 9, EOMProcessed := 1, LeaderPL := Some H,
                ProcessLists := [H \<mapsto> closingPL H],
                Msgs := (\<lambda>r. blankMsg)(50 := eomMsg 0 9)\<rparr>"


section \<open>Properties\<close>

subsection \<open>The commit registry keeps the commit with the most credits\<close>

lemma IsHighestCommit_iff:
  "IsHighestCommit s h msg =
     (\<not> ((\<exists>e m. asCommitEntryMsg s (Commits_Get s h) = Some e \<and> asCommitEntryMsg s msg = Some m
                  \<and> Credits e \<ge> Credits m)
         \<or> (\<exists>ec mc. asCommitChainMsg s (Commits_Get s h) = Some ec \<and> asCommitChainMsg s msg = Some mc
                  \<and> Credits ec \<ge> Credits mc)))"
  by (auto simp: IsHighestCommit_def Let_def split: option.splits)

text \<open>
  C4. \<open>PutCommit(entryHash, msg)\<close> stores \<open>msg\<close> under \<open>entryHash\<close> when
  \<open>IsHighestCommit(entryHash, msg)\<close> is true and leaves the state as it is when it is
  false; and \<open>IsHighestCommit\<close> is true unless the commit stored under \<open>entryHash\<close> has
  the type of \<open>msg\<close> (both CommitEntry messages, or both CommitChain messages) and at
  least as many credits as \<open>msg\<close>.
\<close>

theorem PutCommit_stores_iff_highest:
  "(IsHighestCommit s h msg \<longrightarrow>
      PutCommit h msg s = s\<lparr>Commits := (Commits s)(h \<mapsto> msg)\<rparr> \<and> Commits_Get (PutCommit h msg s) h = msg)
   \<and> (\<not> IsHighestCommit s h msg \<longrightarrow> PutCommit h msg s = s)
   \<and> (IsHighestCommit s h msg \<longleftrightarrow>
        \<not> ((\<exists>e m. asCommitEntryMsg s (Commits_Get s h) = Some e \<and> asCommitEntryMsg s msg = Some m
                  \<and> Credits e \<ge> Credits m)
           \<or> (\<exists>ec mc. asCommitChainMsg s (Commits_Get s h) = Some ec \<and> asCommitChainMsg s msg = Some mc
                  \<and> Credits ec \<ge> Credits mc)))"
proof -
  have stored: "IsHighestCommit s h msg \<longrightarrow>
      PutCommit h msg s = s\<lparr>Commits := (Commits s)(h \<mapsto> msg)\<rparr> \<and> Commits_Get (PutCommit h msg s) h = msg"
    by (simp add: PutCommit_def Commits_Get_def)
  have kept: "\<not> IsHighestCommit s h msg \<longrightarrow> PutCommit h msg s = s"
    by (simp add: PutCommit_def)
  show ?thesis
    using stored kept IsHighestCommit_iff [of s h msg] by blast
qed

lemma commitState_highest:
  "IsHighestCommit commitState (Digest 5) (Some 2)" "\<not> IsHighestCommit commitState (Digest 5) (Some 3)"
  by (simp_all add: IsHighestCommit_def commitState_def quietState_def commitMsg_def blankMsg_def
      asCommitEntryMsg_def asCommitChainMsg_def Commits_Get_def)

theorem PutCommit_stores_iff_highest_witness:
  "IsHighestCommit commitState (Digest 5) (Some 2)
   \<and> Commits_Get (PutCommit (Digest 5) (Some 2) commitState) (Digest 5) = Some 2
   \<and> \<not> IsHighestCommit commitState (Digest 5) (Some 3)
   \<and> PutCommit (Digest 5) (Some 3) commitState = commitState"
proof -
  have a: "IsHighestCommit commitState (Digest 5) (Some 2)"
    and b: "\<not> IsHighestCommit commitState (Digest 5) (Some 3)"
    by (rule commitState_highest)+
  from PutCommit_stores_iff_highest [of commitState "Digest 5" "Some 2"] a
  have c: "Commits_Get (PutCommit (Digest 5) (Some 2) commitState) (Digest 5) = Some 2"
    by blast
  from PutCommit_stores_iff_highest [of commitState "Digest 5" "Some 3"] b
  have d: "PutCommit (Digest 5) (Some 3) commitState = commitState"
    by blast
  show ?thesis using a b c d by blast
qed

subsection \<open>Adding a DBState: checkpoints and the leader height\<close>

lemma NewDBState_accepted:
  "DBStatesPut env s (freshDBState isNew db ab fb ecb ebs es) \<Longrightarrow>
   NewDBState env isNew db ab fb ecb ebs es s =
     (Some (uint (DirectoryBlock.DBHeight db)),
      setDBState (uint (DirectoryBlock.DBHeight db)) (freshDBState isNew db ab fb ecb ebs es) s)"
  by (simp add: NewDBState_def Let_def)

lemma NewDBState_refused:
  "\<not> DBStatesPut env s (freshDBState isNew db ab fb ecb ebs es) \<Longrightarrow>
   NewDBState env isNew db ab fb ecb ebs es s = (None, s)"
  by (simp add: NewDBState_def Let_def)

lemma AddDBState_refused:
  "\<not> DBStatesPut env s (freshDBState isNew db ab fb ecb ebs es) \<Longrightarrow>
   AddDBState env isNew db ab fb ecb ebs es s = Inr (None, s)"
  by (simp add: AddDBState_def NewDBState_refused)

lemma CheckDBKeyMR_setDBState [simp]:
  "CheckDBKeyMR env (setDBState k d s) ht h = CheckDBKeyMR env s ht h"
  by (simp add: CheckDBKeyMR_def setDBState_def split: option.splits)

lemma setDBState_sel [simp]:
  "DBStatesAt (DBStates (setDBState k d s)) = (DBStatesAt (DBStates s))(k \<mapsto> d)"
  "LLeaderHeight (setDBState k d s) = LLeaderHeight s"
  "CurrentMinute (setDBState k d s) = CurrentMinute s"
  "Syncing (setDBState k d s) = Syncing s"
  "EOM (setDBState k d s) = EOM s"
  "DBSig (setDBState k d s) = DBSig s"
  "FReplay (setDBState k d s) = FReplay s"
  by (simp_all add: setDBState_def)

lemma freshDBState_sel [simp]:
  "DBState.DirectoryBlock (freshDBState isNew db ab fb ecb ebs es) = db"
  "IsNew (freshDBState isNew db ab fb ecb ebs es) = isNew"
  "\<not> ReadyToSave (freshDBState isNew db ab fb ecb ebs es)"
  "\<not> Saved (freshDBState isNew db ab fb ecb ebs es)"
  "\<not> DBState.Signed (freshDBState isNew db ab fb ecb ebs es)"
  by (simp_all add: freshDBState_def)

lemma AddDBState_mismatch:
  assumes "DBStatesPut env s (freshDBState isNew db ab fb ecb ebs es)"
      and "CheckDBKeyMR env s (DirectoryBlock.DBHeight db) (KeyMR db) = Some err"
  shows "AddDBState env isNew db ab fb ecb ebs es s =
           Inl (Panic (checkpoint_panic env (DirectoryBlock.DBHeight db) (KeyMR db)))"
  using assms
  by (simp add: AddDBState_def NewDBState_accepted Let_def)

lemma AddDBState_low:
  assumes "DBStatesPut env s (freshDBState isNew db ab fb ecb ebs es)"
      and "CheckDBKeyMR env s (DirectoryBlock.DBHeight db) (KeyMR db) = None"
      and "\<not> DirectoryBlock.DBHeight db > LLeaderHeight s"
  shows "AddDBState env isNew db ab fb ecb ebs es s =
           Inr (Some (uint (DirectoryBlock.DBHeight db)),
                (let s0 = setDBState (uint (DirectoryBlock.DBHeight db)) (freshDBState isNew db ab fb ecb ebs es) s
                 in if DirectoryBlock.DBHeight db = 0 \<and> LLeaderHeight s < 1 then s0\<lparr>LLeaderHeight := 1\<rparr> else s0))"
  using assms
  by (simp add: AddDBState_def NewDBState_accepted Let_def)

lemma CheckDBKeyMR_Some:
  assumes "Network s = ''MAIN'' \<or> Network s = ''main''"
      and "CheckPoints env ht = Some c" and "c \<noteq> h"
  shows "\<exists>err. CheckDBKeyMR env s ht h = Some err"
  using assms by (auto simp: CheckDBKeyMR_def)

lemma CheckDBKeyMR_other_network:
  "Network s \<noteq> ''MAIN'' \<Longrightarrow> Network s \<noteq> ''main'' \<Longrightarrow> CheckDBKeyMR env s ht h = None"
  by (simp add: CheckDBKeyMR_def)

lemma CheckDBKeyMR_no_checkpoint:
  "CheckPoints env ht = None \<Longrightarrow> CheckDBKeyMR env s ht h = None"
  by (simp add: CheckDBKeyMR_def)

text \<open>
  C2, as amended. On the network MAIN (or main), when the ledger takes the block
  (\<open>NewDBState\<close> does not return nil) and \<open>CheckPoints\<close> has an entry for the height of the
  directory block that differs from the block's KeyMR, \<open>AddDBState\<close> panics, and the
  message of the panic is "Found block at height h that didn't match a checkpoint. Got
  (the KeyMR), expected (the checkpoint)".
\<close>

theorem AddDBState_checkpoint_panic:
  assumes "Network s = ''MAIN'' \<or> Network s = ''main''"
      and "DBStatesPut env s (freshDBState isNew db ab fb ecb ebs es)"
      and "CheckPoints env (DirectoryBlock.DBHeight db) = Some c"
      and "c \<noteq> KeyMR db"
  shows "AddDBState env isNew db ab fb ecb ebs es s =
           Inl (Panic (''Found block at height '' @ decimal (unat (DirectoryBlock.DBHeight db))
                       @ '' that didn't match a checkpoint. Got '' @ KeyMR db @ '', expected '' @ c))"
proof -
  from CheckDBKeyMR_Some [OF assms(1) assms(3) assms(4)]
  obtain err where "CheckDBKeyMR env s (DirectoryBlock.DBHeight db) (KeyMR db) = Some err" ..
  from AddDBState_mismatch [OF assms(2) this]
  show ?thesis by (simp add: checkpoint_panic_def assms(3))
qed

lemma checkpointEnv_sel:
  "CheckPoints checkpointEnv 10 = Some ''abcd''"
  "DBStatesPut checkpointEnv s d"
  "CheckPoints refusingEnv 10 = Some ''abcd''"
  "\<not> DBStatesPut refusingEnv s d"
  by (simp_all add: checkpointEnv_def refusingEnv_def quietEnv_def)

lemma example_states_sel:
  "Network mainState = ''MAIN''" "Network localState = ''LOCAL''"
  "LLeaderHeight mainState = 20" "LLeaderHeight localState = 20"
  "LLeaderHeight quietState = 0" "Network quietState = ''LOCAL''"
  by (simp_all add: mainState_def localState_def quietState_def)

theorem AddDBState_checkpoint_panic_witness:
  "AddDBState checkpointEnv False block10 [] noFBlock [] [] [] mainState =
     Inl (Panic ''Found block at height 10 that didn't match a checkpoint. Got dead, expected abcd'')"
proof -
  have "Network mainState = ''MAIN'' \<or> Network mainState = ''main''"
    by (simp add: example_states_sel)
  moreover have "CheckPoints checkpointEnv (DirectoryBlock.DBHeight block10) = Some ''abcd''"
    by (simp add: block10_def checkpointEnv_sel)
  moreover have "''abcd'' \<noteq> KeyMR block10"
    by (simp add: block10_def)
  ultimately show ?thesis
    using AddDBState_checkpoint_panic [of mainState checkpointEnv False block10 "[]" noFBlock "[]" "[]" "[]" "''abcd''"]
    by (simp add: checkpointEnv_sel block10_def decimal.simps)
qed

text \<open>
  C2 as the spec states it fails twice: off the main network the same block is added and
  returned, and on the main network a block that the ledger refuses gives nil, each time
  with no panic.
\<close>

theorem AddDBState_checkpoint_counterexample:
  "CheckPoints checkpointEnv (DirectoryBlock.DBHeight block10) = Some ''abcd''
   \<and> KeyMR block10 = ''dead''
   \<and> AddDBState checkpointEnv False block10 [] noFBlock [] [] [] localState =
       Inr (Some 10, setDBState 10 (freshDBState False block10 [] noFBlock [] [] []) localState)
   \<and> CheckPoints refusingEnv (DirectoryBlock.DBHeight block10) = Some ''abcd''
   \<and> Network mainState = ''MAIN''
   \<and> AddDBState refusingEnv False block10 [] noFBlock [] [] [] mainState = Inr (None, mainState)"
proof -
  have chk: "CheckDBKeyMR checkpointEnv localState (DirectoryBlock.DBHeight block10) (KeyMR block10) = None"
    by (rule CheckDBKeyMR_other_network) (simp_all add: example_states_sel)
  have low: "\<not> DirectoryBlock.DBHeight block10 > LLeaderHeight localState"
    by (simp add: block10_def example_states_sel)
  have "AddDBState checkpointEnv False block10 [] noFBlock [] [] [] localState =
       Inr (Some 10, setDBState 10 (freshDBState False block10 [] noFBlock [] [] []) localState)"
    using AddDBState_low [OF checkpointEnv_sel(2) chk low]
    by (simp add: block10_def example_states_sel)
  moreover have "AddDBState refusingEnv False block10 [] noFBlock [] [] [] mainState = Inr (None, mainState)"
    by (rule AddDBState_refused) (rule checkpointEnv_sel)
  ultimately show ?thesis
    by (simp add: block10_def checkpointEnv_sel example_states_sel)
qed

text \<open>
  C10, as amended. Take a call of \<open>AddDBState\<close> with a directory block whose height is at
  most \<open>LLeaderHeight\<close>. When the ledger refuses the block (\<open>NewDBState\<close> gives nil) the
  call returns nil and the state is as it was, at height 0 too. When the ledger takes the
  block and the checkpoint check fails, the call panics. When the ledger takes the block
  and the checkpoint check passes: if the directory block has height 0 and \<open>LLeaderHeight\<close>
  is below 1, the call returns the DBState with \<open>LLeaderHeight\<close> set to 1, although the
  height does not exceed \<open>LLeaderHeight\<close>; for every other height it returns the DBState and
  leaves \<open>LLeaderHeight\<close> as it was; in both cases \<open>CurrentMinute\<close> and the flags \<open>Syncing\<close>,
  \<open>EOM\<close> and \<open>DBSig\<close> keep their values.
\<close>

theorem AddDBState_not_above_leader_height:
  assumes "DirectoryBlock.DBHeight db \<le> LLeaderHeight s"
  shows "(\<not> DBStatesPut env s (freshDBState isNew db ab fb ecb ebs es) \<longrightarrow>
            AddDBState env isNew db ab fb ecb ebs es s = Inr (None, s))
       \<and> (DBStatesPut env s (freshDBState isNew db ab fb ecb ebs es)
            \<and> CheckDBKeyMR env s (DirectoryBlock.DBHeight db) (KeyMR db) \<noteq> None \<longrightarrow>
            AddDBState env isNew db ab fb ecb ebs es s =
              Inl (Panic (checkpoint_panic env (DirectoryBlock.DBHeight db) (KeyMR db))))
       \<and> (DBStatesPut env s (freshDBState isNew db ab fb ecb ebs es)
            \<and> CheckDBKeyMR env s (DirectoryBlock.DBHeight db) (KeyMR db) = None \<longrightarrow>
            (\<exists>s'. AddDBState env isNew db ab fb ecb ebs es s = Inr (Some (uint (DirectoryBlock.DBHeight db)), s')
               \<and> LLeaderHeight s' =
                   (if DirectoryBlock.DBHeight db = 0 \<and> LLeaderHeight s < 1 then 1 else LLeaderHeight s)
               \<and> CurrentMinute s' = CurrentMinute s
               \<and> Syncing s' = Syncing s \<and> EOM s' = EOM s \<and> DBSig s' = DBSig s))"
proof (intro conjI impI)
  assume "\<not> DBStatesPut env s (freshDBState isNew db ab fb ecb ebs es)"
  then show "AddDBState env isNew db ab fb ecb ebs es s = Inr (None, s)" by (rule AddDBState_refused)
next
  assume a: "DBStatesPut env s (freshDBState isNew db ab fb ecb ebs es)
            \<and> CheckDBKeyMR env s (DirectoryBlock.DBHeight db) (KeyMR db) \<noteq> None"
  then obtain err where "CheckDBKeyMR env s (DirectoryBlock.DBHeight db) (KeyMR db) = Some err" by auto
  with a show "AddDBState env isNew db ab fb ecb ebs es s =
              Inl (Panic (checkpoint_panic env (DirectoryBlock.DBHeight db) (KeyMR db)))"
    by (simp add: AddDBState_mismatch)
next
  assume a: "DBStatesPut env s (freshDBState isNew db ab fb ecb ebs es)
            \<and> CheckDBKeyMR env s (DirectoryBlock.DBHeight db) (KeyMR db) = None"
  from assms have "\<not> DirectoryBlock.DBHeight db > LLeaderHeight s" by simp
  from AddDBState_low [OF conjunct1 [OF a] conjunct2 [OF a] this]
  show "\<exists>s'. AddDBState env isNew db ab fb ecb ebs es s = Inr (Some (uint (DirectoryBlock.DBHeight db)), s')
               \<and> LLeaderHeight s' =
                   (if DirectoryBlock.DBHeight db = 0 \<and> LLeaderHeight s < 1 then 1 else LLeaderHeight s)
               \<and> CurrentMinute s' = CurrentMinute s
               \<and> Syncing s' = Syncing s \<and> EOM s' = EOM s \<and> DBSig s' = DBSig s"
    by (simp add: Let_def)
qed

text \<open>
  The three cases of C10 at work: height 0 on a node at height 0, height 10 on a node at
  height 20, a block the ledger refuses, and a block that fails its checkpoint on the main
  network.
\<close>

theorem AddDBState_not_above_leader_height_witness:
  "(\<exists>s'. AddDBState quietEnv True block0 [] noFBlock [] [] [] quietState = Inr (Some 0, s')
         \<and> LLeaderHeight quietState = 0 \<and> LLeaderHeight s' = 1)
   \<and> (\<exists>s'. AddDBState quietEnv True block10 [] noFBlock [] [] [] localState = Inr (Some 10, s')
         \<and> LLeaderHeight s' = 20)
   \<and> AddDBState refusingEnv True block10 [] noFBlock [] [] [] localState = Inr (None, localState)
   \<and> AddDBState checkpointEnv True block10 [] noFBlock [] [] [] mainState =
       Inl (Panic (checkpoint_panic checkpointEnv 10 ''dead''))"
proof -
  have put: "\<And>s d. DBStatesPut quietEnv s d" by (simp add: quietEnv_def)
  have chk: "\<And>s ht h. CheckDBKeyMR quietEnv s ht h = None"
    by (rule CheckDBKeyMR_no_checkpoint) (simp add: quietEnv_def)
  have h0: "DirectoryBlock.DBHeight block0 \<le> LLeaderHeight quietState" by (simp add: block0_def)
  have a: "\<exists>s'. AddDBState quietEnv True block0 [] noFBlock [] [] [] quietState = Inr (Some 0, s')
         \<and> LLeaderHeight quietState = 0 \<and> LLeaderHeight s' = 1"
    using AddDBState_not_above_leader_height
            [of block0 quietState quietEnv True "[]" noFBlock "[]" "[]" "[]", OF h0] put chk
    by (auto simp: block0_def example_states_sel)
  have h10: "DirectoryBlock.DBHeight block10 \<le> LLeaderHeight localState"
    by (simp add: block10_def example_states_sel)
  have b: "\<exists>s'. AddDBState quietEnv True block10 [] noFBlock [] [] [] localState = Inr (Some 10, s')
         \<and> LLeaderHeight s' = 20"
    using AddDBState_not_above_leader_height
            [of block10 localState quietEnv True "[]" noFBlock "[]" "[]" "[]", OF h10] put chk
    by (auto simp: block10_def example_states_sel)
  have c: "AddDBState refusingEnv True block10 [] noFBlock [] [] [] localState = Inr (None, localState)"
    using AddDBState_not_above_leader_height
            [of block10 localState refusingEnv True "[]" noFBlock "[]" "[]" "[]", OF h10]
    by (simp add: checkpointEnv_sel)
  have m10: "DirectoryBlock.DBHeight block10 \<le> LLeaderHeight mainState"
    by (simp add: block10_def example_states_sel)
  have bad: "CheckDBKeyMR checkpointEnv mainState (DirectoryBlock.DBHeight block10) (KeyMR block10) \<noteq> None"
    by code_simp
  have d: "AddDBState checkpointEnv True block10 [] noFBlock [] [] [] mainState =
       Inl (Panic (checkpoint_panic checkpointEnv 10 ''dead''))"
    using AddDBState_not_above_leader_height
            [of block10 mainState checkpointEnv True "[]" noFBlock "[]" "[]" "[]", OF m10] bad
    by (simp add: checkpointEnv_sel block10_def)
  from a b c d show ?thesis by blast
qed

text \<open>
  C10 as the spec words it, for every call at height 0 with \<open>LLeaderHeight\<close> below 1, fails:
  when the ledger refuses the block the call returns before the leader height is looked
  at, and \<open>LLeaderHeight\<close> is still 0; and on the main network a block of height 0 that
  fails its checkpoint ends the call in a panic.
\<close>

theorem AddDBState_height_0_counterexample:
  "DirectoryBlock.DBHeight block0 = 0 \<and> LLeaderHeight quietState = 0
   \<and> AddDBState refusingEnv True block0 [] noFBlock [] [] [] quietState = Inr (None, quietState)
   \<and> isl (AddDBState (quietEnv\<lparr>CheckPoints := [0 \<mapsto> ''abcd'']\<rparr>) True block0 [] noFBlock [] [] []
             (quietState\<lparr>Network := ''MAIN''\<rparr>))"
proof -
  have "AddDBState refusingEnv True block0 [] noFBlock [] [] [] quietState = Inr (None, quietState)"
    by (rule AddDBState_refused) (rule checkpointEnv_sel)
  moreover have "isl (AddDBState (quietEnv\<lparr>CheckPoints := [0 \<mapsto> ''abcd'']\<rparr>) True block0 [] noFBlock [] [] []
             (quietState\<lparr>Network := ''MAIN''\<rparr>))"
    by code_simp
  ultimately show ?thesis by (simp add: block0_def example_states_sel)
qed

subsection \<open>The replay gate of the executor\<close>

text \<open>
  C9. When the RepeatHash of a message fails the INTERNAL_REPLAY filter, \<open>executeMsg\<close>
  returns false and the state it returns is the state it was given: nothing is added to
  Holding or to a process list, the message is neither leader- nor follower-executed, and
  no queue receives anything.
\<close>

theorem executeMsg_replay_invalid:
  assumes "\<not> ReplayValid env (Replay s) INTERNAL_REPLAY (RepeatHash (Msgs s msg))
               (Msg.Timestamp (Msgs s msg)) (Now s)"
  shows "executeMsg env vm msg s = Inr (False, s)"
  using assms by (simp add: executeMsg_def)



lemma replayedState_invalid:
  "\<not> ReplayValid quietEnv (Replay replayedState) INTERNAL_REPLAY (RepeatHash (Msgs replayedState 2))
       (Msg.Timestamp (Msgs replayedState 2)) (Now replayedState)"
  by (simp add: replayedState_def quietEnv_def quietState_def blankMsg_def)

theorem executeMsg_replay_invalid_witness:
  "executeMsg quietEnv None 2 replayedState = Inr (False, replayedState)"
  using executeMsg_replay_invalid [OF replayedState_invalid] .

subsection \<open>The serial hash of a new Ack\<close>

lemma ProcessLists_Get_present:
  "ProcessLists s h = Some pl \<Longrightarrow> ProcessLists_Get env h s = (Some h, s)"
  by (simp add: ProcessLists_Get_def)

lemma updMsg_sel [simp]:
  "Msgs (updMsg m f s) = (Msgs s)(m := f (Msgs s m))"
  "ProcessLists (updMsg m f s) = ProcessLists s"
  "LeaderPL (updMsg m f s) = LeaderPL s"
  "LLeaderHeight (updMsg m f s) = LLeaderHeight s"
  "NextMsg (updMsg m f s) = NextMsg s"
  "Holding (updMsg m f s) = Holding s"
  "networkInvalidMsgQueue (updMsg m f s) = networkInvalidMsgQueue s"
  "Replay (updMsg m f s) = Replay s"
  "Now (updMsg m f s) = Now s"
  "IgnoreMissing (updMsg m f s) = IgnoreMissing s"
  "IdentityChainID (updMsg m f s) = IdentityChainID s"
  by (simp_all add: updMsg_def)

lemma SerialHashOf_Sign_newMsg:
  "SerialHashOf (snd (Sign env (fst (newMsg (stampAck env s0 vmIndex minute ack) s)) (snd (newMsg (stampAck env s0 vmIndex minute ack) s))))
     (fst (newMsg (stampAck env s0 vmIndex minute ack) s)) = Some (Ack.SerialHash ack)"
  by (simp add: SerialHashOf_def Sign_def newMsg_def stampAck_def Let_def updMsg_def)

lemma NewAck_first:
  assumes "ProcessLists s (LLeaderHeight s) = Some pl" and "inRange (VMIndex (Msgs s msg)) (VMs pl)"
      and "LeaderPL s = Some lk" and "ProcessLists s lk = Some lpl"
      and "inRange (VMIndex (Msgs s msg)) (VMs lpl)"
      and "List (VMs lpl ! nat (VMIndex (Msgs s msg))) = []"
  shows "NewAck_SerialHash env msg balanceHash s = Some (MsgHash (Msgs s msg))"
  using assms
  by (simp add: NewAck_SerialHash_def NewAck_def Let_def ProcessLists_Get_present split_beta
        SerialHashOf_Sign_newMsg)


lemma GetAckAt_last:
  assumes "inRange i (VMs lpl)" and "List (VMs lpl ! nat i) = l" and "l \<noteq> []"
  shows "GetAckAt lpl i (int (length l) - 1) = map_option fst (last l)"
proof -
  from assms(3) have "inRange (int (length l) - 1) l" by (cases l) (simp_all add: inRange_def)
  moreover from assms(3) have "l ! nat (int (length l) - 1) = last l"
    by (simp add: last_conv_nth nat_diff_distrib')
  ultimately show ?thesis using assms(1,2) by (simp add: GetAckAt_def)
qed

lemma NewAck_next:
  assumes "ProcessLists s (LLeaderHeight s) = Some pl" and "inRange (VMIndex (Msgs s msg)) (VMs pl)"
      and "LeaderPL s = Some lk" and "ProcessLists s lk = Some lpl"
      and "inRange (VMIndex (Msgs s msg)) (VMs lpl)"
      and "List (VMs lpl ! nat (VMIndex (Msgs s msg))) = l" and "l \<noteq> []"
      and "last l = Some (lastref, lastmsg)"
      and "Body (Msgs s lastref) = AckMsg lastAck"
  shows "NewAck_SerialHash env msg balanceHash s
           = Some (CreateHash (Ack.MessageHash lastAck) (MsgHash (Msgs s msg)))"
proof -
  have g: "GetAckAt lpl (VMIndex (Msgs s msg)) (int (length l) - 1) = Some lastref"
    using GetAckAt_last [OF assms(5) assms(6) assms(7)] assms(8) by simp
  have b: "Body (((Msgs s)(msg := (Msgs s msg)\<lparr>LeaderChainID := Some (IdentityChainID s)\<rparr>)) lastref) = AckMsg lastAck"
    using assms(9) by auto
  show ?thesis
    using assms(1-7) g b
    by (simp add: NewAck_SerialHash_def NewAck_def Let_def ProcessLists_Get_present split_beta
        SerialHashOf_Sign_newMsg)
qed

text \<open>
  C1, as amended. Let the leader's process list have a VM for the message M. When the list
  of that VM is empty, the Ack that \<open>NewAck\<close> builds for M has M's MsgHash as its
  SerialHash. When it is not empty, the SerialHash is the hash of the MessageHash (not the
  SerialHash) of the Ack in the last slot, followed by M's MsgHash: the serial hash of
  slot h is \<open>H(MessageHash of slot h-1 \<parallel> MsgHash of slot h)\<close>.
\<close>

theorem NewAck_chains_over_MessageHash:
  assumes "ProcessLists s (LLeaderHeight s) = Some pl" and "inRange (VMIndex (Msgs s msg)) (VMs pl)"
      and "LeaderPL s = Some lk" and "ProcessLists s lk = Some lpl"
      and "inRange (VMIndex (Msgs s msg)) (VMs lpl)"
      and "List (VMs lpl ! nat (VMIndex (Msgs s msg))) = l"
  shows "(l = [] \<longrightarrow> NewAck_SerialHash env msg balanceHash s = Some (MsgHash (Msgs s msg)))
       \<and> (l \<noteq> [] \<and> last l = Some (lastref, lastmsg) \<and> Body (Msgs s lastref) = AckMsg lastAck \<longrightarrow>
            NewAck_SerialHash env msg balanceHash s
              = Some (CreateHash (Ack.MessageHash lastAck) (MsgHash (Msgs s msg))))"
  using NewAck_first [OF assms(1-5)] NewAck_next [OF assms] assms(6) by blast

lemma chainState_sel:
  "ProcessLists chainState (LLeaderHeight chainState) = Some chainPL"
  "inRange (VMIndex (Msgs chainState 22)) (VMs chainPL)"
  "LeaderPL chainState = Some 5"
  "ProcessLists chainState 5 = Some chainPL"
  "inRange (VMIndex (Msgs chainState 22)) (VMs chainPL)"
  "List (VMs chainPL ! nat (VMIndex (Msgs chainState 22))) = [Some (10, 20), Some (11, 21)]"
  by (simp_all add: chainState_def quietState_def blankMsg_def chainPL_def blankPL_def blankVM_def
      inRange_def)

lemma chainState_acks:
  "MsgHash (Msgs chainState 22) = Digest 102"
  "Body (Msgs chainState 11) = AckMsg \<lparr>Ack.DBHeight = 5, Height = 1, MessageHash = Digest 101,
       SerialHash = CreateHash (Digest 100) (Digest 101), BalanceHash = None, SaltNumber = 0, Salt = []\<rparr>"
  "SerialHashOf chainState 11 = Some (CreateHash (Digest 100) (Digest 101))"
  by (simp_all add: chainState_def quietState_def blankMsg_def ackMsg_def SerialHashOf_def)

lemma emptyChainState_sel:
  "ProcessLists emptyChainState (LLeaderHeight emptyChainState) = Some (chainPL\<lparr>VMs := [blankVM]\<rparr>)"
  "inRange (VMIndex (Msgs emptyChainState 22)) (VMs (chainPL\<lparr>VMs := [blankVM]\<rparr>))"
  "LeaderPL emptyChainState = Some 5"
  "ProcessLists emptyChainState 5 = Some (chainPL\<lparr>VMs := [blankVM]\<rparr>)"
  "inRange (VMIndex (Msgs emptyChainState 22)) (VMs (chainPL\<lparr>VMs := [blankVM]\<rparr>))"
  "List (VMs (chainPL\<lparr>VMs := [blankVM]\<rparr>) ! nat (VMIndex (Msgs emptyChainState 22))) = []"
  by (simp_all add: emptyChainState_def chainState_def quietState_def blankMsg_def chainPL_def
      blankPL_def blankVM_def inRange_def)

lemma emptyChainState_msg: "MsgHash (Msgs emptyChainState 22) = Digest 102"
  by (simp add: emptyChainState_def chainState_def quietState_def blankMsg_def)

theorem NewAck_chains_over_MessageHash_witness:
  "NewAck_SerialHash quietEnv 22 None emptyChainState = Some (Digest 102)
   \<and> NewAck_SerialHash quietEnv 22 None chainState = Some (CreateHash (Digest 101) (Digest 102))"
proof -
  have a: "NewAck_SerialHash quietEnv 22 None emptyChainState = Some (Digest 102)"
    using NewAck_chains_over_MessageHash [OF emptyChainState_sel, of quietEnv None]
    by (simp add: emptyChainState_msg)
  have b: "NewAck_SerialHash quietEnv 22 None chainState = Some (CreateHash (Digest 101) (Digest 102))"
    using NewAck_chains_over_MessageHash [OF chainState_sel, of quietEnv None 11 21
                "\<lparr>Ack.DBHeight = 5, Height = 1, MessageHash = Digest 101,
                  SerialHash = CreateHash (Digest 100) (Digest 101), BalanceHash = None,
                  SaltNumber = 0, Salt = []\<rparr>"]
    by (simp add: chainState_acks)
  from a b show ?thesis by simp
qed

text \<open>
  C1 as the spec states it fails at slot 2: the Ack of slot 1 has the serial hash
  \<open>H(100 \<parallel> 101)\<close> and the message hash 101; for a message of hash 102 the new Ack gets
  \<open>H(101 \<parallel> 102)\<close>, not \<open>H(H(100 \<parallel> 101) \<parallel> 102)\<close>.
\<close>

theorem NewAck_SerialHash_counterexample:
  "SerialHashOf chainState 11 = Some (CreateHash (Digest 100) (Digest 101))
   \<and> MsgHash (Msgs chainState 22) = Digest 102
   \<and> NewAck_SerialHash quietEnv 22 None chainState = Some (CreateHash (Digest 101) (Digest 102))
   \<and> NewAck_SerialHash quietEnv 22 None chainState
         \<noteq> Some (CreateHash (CreateHash (Digest 100) (Digest 101)) (Digest 102))"
proof -
  have "last [Some (10, 20), Some (11, 21)] = Some (11::nat, 21::nat)" by simp
  from NewAck_next [OF chainState_sel _ this chainState_acks(2), of quietEnv None]
  have "NewAck_SerialHash quietEnv 22 None chainState = Some (CreateHash (Digest 101) (Digest 102))"
    by (simp add: chainState_acks)
  then show ?thesis by (simp add: chainState_acks)
qed

subsection \<open>Invalid messages are announced once\<close>

lemma executeMsg_invalid_step:
  assumes "passesGates env msg s" and "Validate env (ComputeVMIndex env msg s) msg = - 1"
  shows "\<exists>s'. executeMsg env vm msg s = Inr (False, s')
           \<and> Holding s' (MsgHash (Msgs s msg)) = Some msg
           \<and> SentInvalid (Msgs s' msg)
           \<and> MsgHash (Msgs s' msg) = MsgHash (Msgs s msg)
           \<and> networkInvalidMsgQueue s' =
               networkInvalidMsgQueue s @ (if SentInvalid (Msgs s msg) then [] else [msg])
           \<and> passesGates env msg s'"
  using assms
  by (simp add: executeMsg_def passesGates_def ComputeVMIndex_def Let_def)

lemma executeMsg_times_invalid:
  assumes "\<forall>s. Validate env s msg = - 1"
  shows "passesGates env msg s \<Longrightarrow>
         \<exists>s'. executeMsg_times (Suc n) env vm msg s = Inr s'
           \<and> Holding s' (MsgHash (Msgs s msg)) = Some msg
           \<and> SentInvalid (Msgs s' msg)
           \<and> networkInvalidMsgQueue s' =
               networkInvalidMsgQueue s @ (if SentInvalid (Msgs s msg) then [] else [msg])"
proof (induction n arbitrary: s)
  case 0
  from assms have v: "Validate env (ComputeVMIndex env msg s) msg = - 1" by simp
  from executeMsg_invalid_step [OF 0 v, of vm] show ?case by auto
next
  case (Suc n)
  from assms have v: "Validate env (ComputeVMIndex env msg s) msg = - 1" by simp
  from executeMsg_invalid_step [OF Suc.prems v, of vm]
  obtain s1 where s1: "executeMsg env vm msg s = Inr (False, s1)"
      "SentInvalid (Msgs s1 msg)" "MsgHash (Msgs s1 msg) = MsgHash (Msgs s msg)"
      "networkInvalidMsgQueue s1 = networkInvalidMsgQueue s @ (if SentInvalid (Msgs s msg) then [] else [msg])"
      "passesGates env msg s1"
    by blast
  from Suc.IH [OF s1(5)] s1(2,3,4)
  obtain s' where "executeMsg_times (Suc n) env vm msg s1 = Inr s'"
      "Holding s' (MsgHash (Msgs s msg)) = Some msg" "SentInvalid (Msgs s' msg)"
      "networkInvalidMsgQueue s' = networkInvalidMsgQueue s @ (if SentInvalid (Msgs s msg) then [] else [msg])"
    by auto
  with s1(1) show ?case by simp
qed

text \<open>
  C8. Let \<open>Validate\<close> say -1 for the message, and let the message pass the replay gate and
  the boot-window guard. Then an execution puts the message in Holding under its MsgHash
  and leaves the \<open>SentInvalid\<close> flag set; it appends the message to
  \<open>networkInvalidMsgQueue\<close> when the flag was not yet set, and appends nothing when it
  was. So after any number \<open>n + 1\<close> of executions in a row, starting with the flag
  clear, the queue has grown by this message exactly once.
\<close>

theorem executeMsg_invalid_sent_once:
  assumes "\<forall>s. Validate env s msg = - 1" and "passesGates env msg s"
  shows "(\<exists>s'. executeMsg env vm msg s = Inr (False, s')
            \<and> Holding s' (MsgHash (Msgs s msg)) = Some msg
            \<and> SentInvalid (Msgs s' msg)
            \<and> networkInvalidMsgQueue s' =
                networkInvalidMsgQueue s @ (if SentInvalid (Msgs s msg) then [] else [msg]))
       \<and> (\<exists>s'. executeMsg_times (Suc n) env vm msg s = Inr s'
            \<and> Holding s' (MsgHash (Msgs s msg)) = Some msg
            \<and> SentInvalid (Msgs s' msg)
            \<and> networkInvalidMsgQueue s' =
                networkInvalidMsgQueue s @ (if SentInvalid (Msgs s msg) then [] else [msg]))"
proof -
  from assms(1) have v: "Validate env (ComputeVMIndex env msg s) msg = - 1" by simp
  from executeMsg_invalid_step [OF assms(2) v, of vm] executeMsg_times_invalid [OF assms, of n vm]
  show ?thesis by blast
qed

lemma invalidEnv_gates: "passesGates invalidEnv 2 quietState"
  by (simp add: passesGates_def invalidEnv_def quietEnv_def quietState_def)

theorem executeMsg_invalid_sent_once_witness:
  "\<exists>s'. executeMsg_times (Suc 2) invalidEnv None 2 quietState = Inr s'
         \<and> Holding s' (Digest 0) = Some 2
         \<and> SentInvalid (Msgs s' 2)
         \<and> networkInvalidMsgQueue s' = [2]"
proof -
  have v: "\<forall>s. Validate invalidEnv s 2 = - 1" by (simp add: invalidEnv_def quietEnv_def)
  have q: "networkInvalidMsgQueue quietState = []" "SentInvalid (Msgs quietState 2) = False"
    "MsgHash (Msgs quietState 2) = Digest 0"
    by (simp_all add: quietState_def blankMsg_def)
  from executeMsg_invalid_sent_once [OF v invalidEnv_gates, of None 2]
  have "\<exists>s'. executeMsg_times (Suc 2) invalidEnv None 2 quietState = Inr s'
            \<and> Holding s' (MsgHash (Msgs quietState 2)) = Some 2
            \<and> SentInvalid (Msgs s' 2)
            \<and> networkInvalidMsgQueue s' =
                networkInvalidMsgQueue quietState @ (if SentInvalid (Msgs quietState 2) then [] else [2])"
    by (rule conjunct2)
  then show ?thesis unfolding q by (simp only: if_False append_Nil)
qed

subsection \<open>The first EOM of a minute\<close>

lemma ProcessLists_Get_cases:
  "ProcessLists_Get env h s = (p, s1) \<Longrightarrow>
   (p = None \<and> s1 = s) \<or> (p = Some h \<and> ProcessLists s1 h \<noteq> None \<and> (\<forall>x. Msgs s1 x = Msgs s x))"
  by (auto simp: ProcessLists_Get_def split: option.splits)

text \<open>
  C5. Let \<open>ProcessEOM\<close> get an EOM while the \<open>EOM\<close> flag is not set, no other sync is
  under way (\<open>Syncing\<close> is false), the process list of the height and the VM of the
  message exist, and the unwinding of the last minute is not pending. Then it returns
  false, with \<open>EOMSys\<close> false, \<open>Syncing\<close> and \<open>EOM\<close> true, \<open>EOMLimit\<close> the number of
  federated servers of the leader's process list, \<open>EOMMinute\<close> the minute of the
  message, \<open>EOMProcessed\<close> zero, and \<open>Synced\<close> false on every VM of the process list.
\<close>

theorem ProcessEOM_first_EOM_of_minute:
  assumes "Body (Msgs s msg) = EOMMsg e"
      and "\<not> EOM s" and "\<not> Syncing s"
      and "ProcessLists_Get env dbheight s = (Some k, s1)"
      and "ProcessLists s1 k = Some pl"
      and "inRange (VMIndex (Msgs s msg)) (VMs pl)"
      and "\<not> (EOMDone s \<and> (EOMSys s \<or> (word_of_int (SystemHeight pl) :: u32) \<ge> EOM.SysHeight e))"
      and "LeaderPL s = Some lk" and "ProcessLists s1 lk = Some lpl"
  shows "\<exists>s'. ProcessEOM env dbheight msg s = Inr (False, s')
           \<and> \<not> EOMSys s' \<and> Syncing s' \<and> EOM s'
           \<and> EOMLimit s' = int (length (FedServers lpl))
           \<and> EOMMinute s' = uint (EOM.Minute e)
           \<and> EOMProcessed s' = 0
           \<and> (\<exists>pl'. ProcessLists s' k = Some pl' \<and> length (VMs pl') = length (VMs pl)
                    \<and> (\<forall>vm \<in> set (VMs pl'). \<not> Synced vm))"
proof -
  from assms(4) have s1: "Msgs s1 = Msgs s" "EOM s1 = EOM s" "Syncing s1 = Syncing s"
      "EOMDone s1 = EOMDone s" "EOMSys s1 = EOMSys s" "LeaderPL s1 = LeaderPL s"
    by (auto simp: ProcessLists_Get_def split: option.splits)
  show ?thesis
    using assms s1
    by (auto simp: ProcessEOM_def ProcessEOM_open_def Let_def setPL_def)
qed

lemma eomState_sel:
  "Body (Msgs eomState 30) = EOMMsg \<lparr>EOM.DBHeight = 5, Minute = 0, SysHeight = 0\<rparr>"
  "\<not> EOM eomState" "\<not> Syncing eomState"
  "ProcessLists_Get quietEnv 5 eomState = (Some 5, eomState)"
  "ProcessLists eomState 5 = Some eomPL"
  "inRange (VMIndex (Msgs eomState 30)) (VMs eomPL)"
  "\<not> (EOMDone eomState \<and> (EOMSys eomState
        \<or> (word_of_int (SystemHeight eomPL) :: u32) \<ge> EOM.SysHeight \<lparr>EOM.DBHeight = 5, Minute = 0, SysHeight = 0\<rparr>))"
  "LeaderPL eomState = Some 5"
  "ProcessLists eomState 5 = Some eomPL"
  by (simp_all add: eomState_def quietState_def eomMsg_def blankMsg_def eomPL_def blankPL_def
      blankVM_def inRange_def ProcessLists_Get_def)

theorem ProcessEOM_first_EOM_of_minute_witness:
  "\<exists>s'. ProcessEOM quietEnv 5 30 eomState = Inr (False, s')
         \<and> \<not> EOMSys s' \<and> Syncing s' \<and> EOM s' \<and> EOMLimit s' = 3 \<and> EOMMinute s' = 0
         \<and> EOMProcessed s' = 0
         \<and> (\<exists>pl'. ProcessLists s' 5 = Some pl' \<and> length (VMs pl') = 3
                  \<and> (\<forall>vm \<in> set (VMs pl'). \<not> Synced vm))"
  using ProcessEOM_first_EOM_of_minute [OF eomState_sel]
  by (simp add: eomPL_def blankPL_def numeral_3_eq_3)

subsection \<open>A block with a replayed factoid transaction\<close>

lemma replayScan_rejects:
  assumes "(dbheight > 0 \<and> dbheight < 2000) \<or> dbheight > 100000"
  shows "j < length txs \<Longrightarrow> 0 < i + j \<Longrightarrow>
         \<not> ReplayValid env r BLOCK_REPLAY (SigHash (txs ! j)) (Transaction.Timestamp (txs ! j)) blockTime \<Longrightarrow>
         \<not> replayScan env r dbheight blockTime i txs"
proof (induction txs arbitrary: i j)
  case Nil
  then show ?case by simp
next
  case (Cons fct rest)
  show ?case
  proof (cases j)
    case 0
    with Cons.prems assms show ?thesis by (simp add: Let_def)
  next
    case (Suc j')
    with Cons.prems have "j' < length rest" "0 < Suc i + j'"
      "\<not> ReplayValid env r BLOCK_REPLAY (SigHash (rest ! j')) (Transaction.Timestamp (rest ! j')) blockTime"
      by simp_all
    from Cons.IH [OF this] show ?thesis by (simp add: Let_def)
  qed
qed

text \<open>
  C3, as amended. Take a DBState message that is applied: it is not too old, \<open>ValidNext\<close>
  says neither 0 nor -1, the roll-back step returns, and \<open>AddDBState\<close> returns the new
  DBState with the state \<open>s2\<close>. If the height of the block lies in 1..1999 or above
  100000 and some factoid transaction other than the coinbase fails the BLOCK_REPLAY
  check, then \<open>FollowerExecuteDBState\<close> returns with the state \<open>s2\<close> as \<open>AddDBState\<close>
  left it: no transaction of the block is sealed in the filter and the DBState is marked
  neither ReadyToSave nor Signed nor Saved.
\<close>

theorem FollowerExecuteDBState_rejects_double_spend:
  assumes "Body (Msgs s msg) = DBStateMsgB m"
      and "dbheight = DirectoryBlock.DBHeight (DBStateMsg.DirectoryBlock m)"
      and "\<not> (dbheight > 0 \<and> dbheight \<le> GetHighestSavedBlk env (DBStates s) \<and> dbheight < EntryDBHeightComplete s)"
      and "ValidNext env s (DBStates_Get s (uint (dbheight - 1))) msg \<noteq> 0"
      and "ValidNext env s (DBStates_Get s (uint (dbheight - 1))) msg \<noteq> - 1"
      and "FollowerExecuteDBState_trim env dbheight (DBStates_Get s (uint (dbheight - 1))) s = Inr s1"
      and "AddDBState env False (DBStateMsg.DirectoryBlock m) (DBStateMsg.AdminBlock m)
             (DBStateMsg.FactoidBlock m) (DBStateMsg.EntryCreditBlock m) (DBStateMsg.EBlocks m)
             (DBStateMsg.Entries m) s1 = Inr (Some dbstate, s2)"
      and "(dbheight > 0 \<and> dbheight < 2000) \<or> dbheight > 100000"
      and "0 < j" and "j < length (Transactions (DBStateMsg.FactoidBlock m))"
      and "\<not> ReplayValid env (FReplay s2) BLOCK_REPLAY
               (SigHash (Transactions (DBStateMsg.FactoidBlock m) ! j))
               (Transaction.Timestamp (Transactions (DBStateMsg.FactoidBlock m) ! j))
               (DirectoryBlock.Timestamp (DBStateMsg.DirectoryBlock m))"
  shows "FollowerExecuteDBState env msg s = Inr s2"
proof -
  from assms(9) have "0 < 0 + j" by simp
  from replayScan_rejects [OF assms(8) assms(10) this assms(11)]
  have "\<not> replayScan env (FReplay s2) dbheight (DirectoryBlock.Timestamp (DBStateMsg.DirectoryBlock m)) 0
            (Transactions (DBStateMsg.FactoidBlock m))" .
  with assms(1-7) show ?thesis
    by (auto simp: FollowerExecuteDBState_def Let_def)
qed

lemma spentTwice_sel:
  "Body (Msgs (spentTwiceState h) 40) = DBStateMsgB
       \<lparr>DBStateMsg.DirectoryBlock = \<lparr>DirectoryBlock.DBHeight = h, KeyMR = ''feed'', PrevKeyMR = [], Timestamp = 0\<rparr>,
        AdminBlock = [],
        FactoidBlock = \<lparr>Transactions = [\<lparr>SigHash = Digest 8, Timestamp = 0\<rparr>,
                                        \<lparr>SigHash = Digest 9, Timestamp = 0\<rparr>]\<rparr>,
        EntryCreditBlock = [], EBlocks = [], Entries = [], IsInDB = False\<rparr>"
  "LLeaderHeight (spentTwiceState h) = h"
  "FReplay (spentTwiceState h) = [(BLOCK_REPLAY, Digest 9, 0)]"
  "Local (Msgs (spentTwiceState h) 40) = False"
  "DBHeightBase (spentTwiceState h) = 0"
  "EntryDBHeightComplete (spentTwiceState h) = 0"
  "Network (spentTwiceState h) = ''LOCAL''"
  by (simp_all add: spentTwiceState_def spentTwiceMsg_def quietState_def blankMsg_def)

lemma spentTwice_ledger:
  "DBStates_Get (spentTwiceState h) (uint h - 1) = Some (uint h - 1)"
  "DBStatesAt (DBStates (spentTwiceState h)) (uint h - 1)
       = Some ((freshDBState False blankDBlock [] noFBlock [] [] [])\<lparr>Saved := True\<rparr>)"
  by (simp_all add: DBStates_Get_def spentTwiceState_def quietState_def)

lemma spentTwice_trim:
  "uint (h - 1) = uint h - 1 \<Longrightarrow>
   FollowerExecuteDBState_trim quietEnv h (DBStates_Get (spentTwiceState h) (uint (h - 1))) (spentTwiceState h)
     = Inr (spentTwiceState h)"
  by (simp add: FollowerExecuteDBState_trim_def spentTwice_ledger Let_def freshDBState_def)

lemma quietEnv_sel:
  "DBStatesPut quietEnv s d" "CheckPoints quietEnv h = None" "GetHighestSavedBlk quietEnv l = 0"
  "ValidNext quietEnv s p m = 1"
  "ReplayValid quietEnv r k hh t n = ((k, hh, t) \<notin> set r)"
  "ReplayIsTSValid quietEnv r k hh t n = (k, hh, t) # r"
  "DBStatesUpdateState quietEnv s = s" "Catchup quietEnv s = s"
  by (simp_all add: quietEnv_def)

lemma spentTwice_add:
  "h \<noteq> 0 \<Longrightarrow> AddDBState quietEnv False \<lparr>DirectoryBlock.DBHeight = h, KeyMR = ''feed'', PrevKeyMR = [], Timestamp = 0\<rparr> []
      \<lparr>Transactions = [\<lparr>SigHash = Digest 8, Timestamp = 0\<rparr>, \<lparr>SigHash = Digest 9, Timestamp = 0\<rparr>]\<rparr>
      [] [] [] (spentTwiceState h)
   = Inr (Some (uint h),
          setDBState (uint h)
            (freshDBState False \<lparr>DirectoryBlock.DBHeight = h, KeyMR = ''feed'', PrevKeyMR = [], Timestamp = 0\<rparr> []
               \<lparr>Transactions = [\<lparr>SigHash = Digest 8, Timestamp = 0\<rparr>, \<lparr>SigHash = Digest 9, Timestamp = 0\<rparr>]\<rparr>
               [] [] [])
            (spentTwiceState h))"
proof -
  have chk: "CheckDBKeyMR quietEnv (spentTwiceState h)
       (DirectoryBlock.DBHeight \<lparr>DirectoryBlock.DBHeight = h, KeyMR = ''feed'', PrevKeyMR = [], Timestamp = 0\<rparr>)
       (KeyMR \<lparr>DirectoryBlock.DBHeight = h, KeyMR = ''feed'', PrevKeyMR = [], Timestamp = 0\<rparr>) = None"
    by (simp add: CheckDBKeyMR_def quietEnv_sel)
  have low: "\<not> DirectoryBlock.DBHeight \<lparr>DirectoryBlock.DBHeight = h, KeyMR = ''feed'', PrevKeyMR = [], Timestamp = 0\<rparr>
               > LLeaderHeight (spentTwiceState h)"
    by (simp add: spentTwice_sel)
  assume "h \<noteq> 0"
  with AddDBState_low [OF quietEnv_sel(1) chk low]
  show ?thesis by (simp add: Let_def)
qed

theorem FollowerExecuteDBState_rejects_double_spend_witness:
  "FollowerExecuteDBState quietEnv 40 (spentTwiceState 1999)
     = Inr (setDBState 1999
            (freshDBState False \<lparr>DirectoryBlock.DBHeight = 1999, KeyMR = ''feed'', PrevKeyMR = [], Timestamp = 0\<rparr> []
               \<lparr>Transactions = [\<lparr>SigHash = Digest 8, Timestamp = 0\<rparr>, \<lparr>SigHash = Digest 9, Timestamp = 0\<rparr>]\<rparr>
               [] [] [])
            (spentTwiceState 1999))"
proof -
  have u: "uint ((1999::u32) - 1) = uint (1999::u32) - 1" by simp
  have t: "FollowerExecuteDBState_trim quietEnv 1999
             (DBStates_Get (spentTwiceState 1999) (uint ((1999::u32) - 1))) (spentTwiceState 1999)
           = Inr (spentTwiceState 1999)"
    by (rule spentTwice_trim [OF u])
  show ?thesis
    using FollowerExecuteDBState_rejects_double_spend
      [of "spentTwiceState 1999" 40 _ 1999 quietEnv "spentTwiceState 1999" _ _ 1,
       OF spentTwice_sel(1) _ _ _ _ _ _ _ _ _ _]
      t spentTwice_add [of 1999]
    by (simp add: quietEnv_sel spentTwice_sel)
qed


lemma FollowerExecuteDBState_applies:
  assumes "Body (Msgs s msg) = DBStateMsgB m"
      and "dbheight = DirectoryBlock.DBHeight (DBStateMsg.DirectoryBlock m)"
      and "\<not> (dbheight > 0 \<and> dbheight \<le> GetHighestSavedBlk env (DBStates s) \<and> dbheight < EntryDBHeightComplete s)"
      and "ValidNext env s (DBStates_Get s (uint (dbheight - 1))) msg \<noteq> 0"
      and "ValidNext env s (DBStates_Get s (uint (dbheight - 1))) msg \<noteq> - 1"
      and "FollowerExecuteDBState_trim env dbheight (DBStates_Get s (uint (dbheight - 1))) s = Inr s1"
      and "AddDBState env False (DBStateMsg.DirectoryBlock m) (DBStateMsg.AdminBlock m)
             (DBStateMsg.FactoidBlock m) (DBStateMsg.EntryCreditBlock m) (DBStateMsg.EBlocks m)
             (DBStateMsg.Entries m) s1 = Inr (Some dbstate, s2)"
      and "replayScan env (FReplay s2) dbheight (DirectoryBlock.Timestamp (DBStateMsg.DirectoryBlock m)) 0
            (Transactions (DBStateMsg.FactoidBlock m))"
  shows "FollowerExecuteDBState env msg s = FollowerExecuteDBState_commit env msg m dbheight dbstate s2"
  using assms by (auto simp: FollowerExecuteDBState_def Let_def)

text \<open>
  C3 as the spec states it fails at the height 2000, which the test \<open>dbheight < 2000\<close>
  leaves out: the block with the replayed transaction is taken, its transactions are
  sealed and its DBState is marked ReadyToSave and Signed.
\<close>

theorem FollowerExecuteDBState_height_2000_counterexample:
  "\<not> ReplayValid quietEnv (FReplay (spentTwiceState 2000)) BLOCK_REPLAY (Digest 9) 0 0
   \<and> \<not> isl (FollowerExecuteDBState quietEnv 40 (spentTwiceState 2000))
   \<and> FReplay (projr (FollowerExecuteDBState quietEnv 40 (spentTwiceState 2000)))
       = [(BLOCK_REPLAY, Digest 9, 0), (BLOCK_REPLAY, Digest 8, 0), (BLOCK_REPLAY, Digest 9, 0)]
   \<and> map_option ReadyToSave
         (DBStatesAt (DBStates (projr (FollowerExecuteDBState quietEnv 40 (spentTwiceState 2000)))) 2000)
       = Some True
   \<and> map_option DBState.Signed
         (DBStatesAt (DBStates (projr (FollowerExecuteDBState quietEnv 40 (spentTwiceState 2000)))) 2000)
       = Some True"
proof -
  let ?s = "spentTwiceState 2000"
  let ?txs = "[\<lparr>SigHash = Digest 8, Timestamp = 0\<rparr>, \<lparr>SigHash = Digest 9, Timestamp = 0\<rparr>]"
  let ?db = "\<lparr>DirectoryBlock.DBHeight = 2000, KeyMR = ''feed'', PrevKeyMR = [], Timestamp = 0\<rparr>"
  let ?m = "\<lparr>DBStateMsg.DirectoryBlock = ?db, AdminBlock = [], FactoidBlock = \<lparr>Transactions = ?txs\<rparr>,
             EntryCreditBlock = [], EBlocks = [], Entries = [], IsInDB = False\<rparr>"
  let ?s2 = "setDBState 2000 (freshDBState False ?db [] \<lparr>Transactions = ?txs\<rparr> [] [] []) ?s"
  have b: "Body (Msgs ?s 40) = DBStateMsgB ?m" by (rule spentTwice_sel(1))
  have h: "(2000::u32) = DirectoryBlock.DBHeight (DBStateMsg.DirectoryBlock ?m)" by simp
  have old: "\<not> ((2000::u32) > 0 \<and> 2000 \<le> GetHighestSavedBlk quietEnv (DBStates ?s)
                  \<and> 2000 < EntryDBHeightComplete ?s)"
    by (simp add: quietEnv_sel)
  have v0: "ValidNext quietEnv ?s (DBStates_Get ?s (uint ((2000::u32) - 1))) 40 \<noteq> 0"
    and v1: "ValidNext quietEnv ?s (DBStates_Get ?s (uint ((2000::u32) - 1))) 40 \<noteq> - 1"
    by (simp_all add: quietEnv_sel)
  have u: "uint ((2000::u32) - 1) = uint (2000::u32) - 1" by simp
  have t: "FollowerExecuteDBState_trim quietEnv 2000 (DBStates_Get ?s (uint ((2000::u32) - 1))) ?s = Inr ?s"
    by (rule spentTwice_trim [OF u])
  have a: "AddDBState quietEnv False (DBStateMsg.DirectoryBlock ?m) (DBStateMsg.AdminBlock ?m)
             (DBStateMsg.FactoidBlock ?m) (DBStateMsg.EntryCreditBlock ?m) (DBStateMsg.EBlocks ?m)
             (DBStateMsg.Entries ?m) ?s = Inr (Some 2000, ?s2)"
    using spentTwice_add [of 2000] by simp
  have r: "replayScan quietEnv (FReplay ?s2) 2000 (DirectoryBlock.Timestamp (DBStateMsg.DirectoryBlock ?m)) 0
            (Transactions (DBStateMsg.FactoidBlock ?m))"
    by (simp add: Let_def)
  from FollowerExecuteDBState_applies [OF b h old v0 v1 t a r]
  have "FollowerExecuteDBState quietEnv 40 ?s = FollowerExecuteDBState_commit quietEnv 40 ?m 2000 2000 ?s2" .
  then show ?thesis
    by (simp add: FollowerExecuteDBState_commit_def Let_def quietEnv_sel spentTwice_sel
        updDBState_def setDBState_def freshDBState_def spentTwiceState_def quietState_def)
qed


subsection \<open>The block close at minute ten\<close>

lemma ProcessEOM_all_in:
  assumes body: "Body (Msgs s msg) = EOMMsg e"
      and eom: "EOM s" and minute: "uint (EOM.Minute e) \<le> EOMMinute s"
      and pl: "ProcessLists s h = Some pl"
      and vm: "inRange (VMIndex (Msgs s msg)) (VMs pl)"
      and synced: "Synced (VMs pl ! nat (VMIndex (Msgs s msg)))"
      and notdone: "\<not> EOMDone s"
      and lpl: "LeaderPL s = Some lk" "ProcessLists s lk = Some lpl"
      and faults: "SysHighest lpl \<le> SystemHeight lpl"
      and allin: "EOMProcessed s = EOMLimit s"
  shows "ProcessEOM env h msg s =
           ProcessEOM_complete env h h e
             (if EOM.SysHeight e \<le> word_of_int (SystemHeight pl) then s\<lparr>EOMSys := True\<rparr> else s)"
  using assms
  by (simp add: ProcessEOM_def ProcessLists_Get_present [OF pl] Let_def)

lemma endMinute_sel:
  "CurrentMinute (endMinute env k e pl s) = (if Leader s then CurrentMinute s else uint (EOM.Minute e)) + 1"
  "LeaderPL (endMinute env k e pl s) = LeaderPL s"
  "EOMDone (endMinute env k e pl s)"
  by (simp_all add: endMinute_def Let_def setPL_def)

lemma ProcessEOM_complete_ten:
  assumes "ProcessLists s k = Some pl" and "CurrentMinute (endMinute env k e pl s) = 10"
  shows "ProcessEOM_complete env h k e s =
           (case closeBlock env k (endMinute env k e pl s) of
              Inl err \<Rightarrow> Inl err
            | Inr s7 \<Rightarrow> Inr (False, dropOldAcks (s7\<lparr>Commits := RemoveExpired env s7\<rparr>)))"
  using assms by (simp add: ProcessEOM_complete_def Let_def)

lemma AddDBState_nil:
  assumes "AddDBState env isNew db ab fb ecb ebs es s = Inr (None, s')"
  shows "s' = s"
proof (cases "DBStatesPut env s (freshDBState isNew db ab fb ecb ebs es)")
  case False
  from AddDBState_refused [OF False] assms show ?thesis by simp
next
  case True
  from assms show ?thesis
    by (auto simp: AddDBState_def NewDBState_accepted [OF True] Let_def
             split: option.splits sum.splits if_splits)
qed

lemma closeBlock_advance_sel:
  assumes "closeBlock_advance env s = Inr s'"
  shows "CurrentMinute s' = 0" and "LLeaderHeight s' = LLeaderHeight s + 1"
    and "DBSigProcessed s' = 0" and "LeaderPL s' = Some (LLeaderHeight s')"
    and "\<exists>pl. ProcessLists s' (LLeaderHeight s') = Some pl"
  using assms
  by (auto simp: closeBlock_advance_def Let_def CheckForIDChange_def ProcessLists_Get_def
           split: option.splits if_splits prod.splits sum.splits)

lemma closeBlock_DBSig_cases:
  assumes run: "closeBlock_DBSig env d s = Inr s'" and pl: "ProcessLists s (LLeaderHeight s) = Some pl"
  shows "if Leader s \<and> \<not> DBSigAlreadySent pl
         then \<exists>dd dbs sb pl2.
                DBStatesAt (DBStates s) d = Some dd
              \<and> buildDBSig env (DBState.DirectoryBlock dd) (LLeaderHeight s) (LeaderVMIndex s) s = Inr (dbs, sb)
              \<and> ProcessLists sb (LLeaderHeight s) = Some pl2
              \<and> LeaderExecuteDBSig env dbs (setPL (LLeaderHeight s) (pl2\<lparr>DBSigAlreadySent := True\<rparr>) sb) = Inr s'
         else s' = s"
  using run
  by (auto simp: closeBlock_DBSig_def ProcessLists_Get_present [OF pl] pl
           split: option.splits sum.splits prod.splits if_splits)

lemma closeBlock_links_cases:
  assumes "closeBlock_links env d s = Inr s'"
  shows "\<exists>dd. DBStatesAt (DBStates s) d = Some dd
           \<and> s' = (if uint (DirectoryBlock.DBHeight (DBState.DirectoryBlock dd)) > 0
                   then s\<lparr>DBStates := FixupLinks env (DBStates s)
                            (DBStates_Get s (uint (DirectoryBlock.DBHeight (DBState.DirectoryBlock dd)) - 1)) d\<rparr>
                   else s)"
  using assms
  by (auto simp: closeBlock_links_def Let_def split: option.splits if_splits)

lemma closeBlock_prepare_cases:
  assumes run: "closeBlock_prepare env k s = Inr (d, sp)"
      and lk: "LeaderPL s = Some lk"
  shows "\<exists>pl lpl added sa sl.
           ProcessLists s k = Some pl \<and> ProcessLists s lk = Some lpl
         \<and> AddDBState env True (ProcessList.DirectoryBlock lpl) (ProcessList.AdminBlock lpl)
              (CurrentBlock (FactoidState s)) (ProcessList.EntryCreditBlock lpl)
              (map snd (NewEBlocks pl)) (map snd (NewEntries pl)) s = Inr (added, sa)
         \<and> (added = Some d \<or>
             added = None \<and> DBStates_Get sa (uint (DirectoryBlock.DBHeight (ProcessList.DirectoryBlock lpl))) = Some d)
         \<and> closeBlock_links env d sa = Inr sl
         \<and> sp = ProcessBlocks env d sl"
proof -
  from run lk obtain pl lpl added sa sl where
      pl: "ProcessLists s k = Some pl" and lpl: "ProcessLists s lk = Some lpl"
      and add: "AddDBState env True (ProcessList.DirectoryBlock lpl) (ProcessList.AdminBlock lpl)
              (CurrentBlock (FactoidState s)) (ProcessList.EntryCreditBlock lpl)
              (map snd (NewEBlocks pl)) (map snd (NewEntries pl)) s = Inr (added, sa)"
      and db: "closeBlock_dbstate added sa = Inr d"
      and links: "closeBlock_links env d sa = Inr sl"
      and sp: "sp = ProcessBlocks env d sl"
    by (auto simp: closeBlock_prepare_def Let_def split: option.splits sum.splits prod.splits)
  have "added = Some d \<or>
        added = None \<and> DBStates_Get sa (uint (DirectoryBlock.DBHeight (ProcessList.DirectoryBlock lpl))) = Some d"
  proof (cases added)
    case (Some x)
    with db show ?thesis by (simp add: closeBlock_dbstate_def)
  next
    case None
    with add have "sa = s" by (auto dest: AddDBState_nil)
    with db None lk lpl show ?thesis
      by (auto simp: closeBlock_dbstate_def split: option.splits)
  qed
  with pl lpl add links sp show ?thesis by blast
qed

text \<open>
  C6, as amended. Let \<open>ProcessEOM\<close> get an EOM when every EOM of the minute has been
  processed and all faults are in (\<open>EOMProcessed = EOMLimit\<close>, \<open>EOMDone\<close> clear, the VM of
  the message synced), and let the minute that ends be the tenth: \<open>CurrentMinute\<close> is 9 on a
  leader, the minute of the EOM is 9 on a follower. \<open>s6\<close> is the state when the minute has
  been counted. Whenever the call returns,
  \<^item> \<open>AddDBState\<close> was called with \<open>isNew = True\<close> on the blocks of the leader's process
    list, and the block close went on with the DBState it returned or, when it returned
    nil, with the ledger's DBState of that height;
  \<^item> \<open>FixupLinks\<close> was called with the DBState one below if the height of the DBState is
    above 0, and not at all at height 0;
  \<^item> after \<open>ProcessBlocks\<close>, \<open>CurrentMinute\<close> was set to 0 and \<open>LLeaderHeight\<close> to one more
    than \<open>AddDBState\<close> and \<open>ProcessBlocks\<close> had left it;
  \<^item> if the node is then the leader and \<open>DBSigAlreadySent\<close> is clear on the process list of
    the new height, a DirectoryBlockSignature was built from the directory block of the
    DBState and handed to the leader path with \<open>DBSigAlreadySent\<close> set; otherwise nothing
    was sent;
  \<^item> \<open>Saving\<close> is set and the result is false.
\<close>

theorem ProcessEOM_block_close:
  assumes body: "Body (Msgs s msg) = EOMMsg e"
      and eom: "EOM s" and minute: "uint (EOM.Minute e) \<le> EOMMinute s"
      and pl: "ProcessLists s h = Some pl"
      and vm: "inRange (VMIndex (Msgs s msg)) (VMs pl)"
      and synced: "Synced (VMs pl ! nat (VMIndex (Msgs s msg)))"
      and notdone: "\<not> EOMDone s"
      and lpl: "LeaderPL s = Some lk" "ProcessLists s lk = Some lpl"
      and faults: "SysHighest lpl \<le> SystemHeight lpl"
      and allin: "EOMProcessed s = EOMLimit s"
      and nine: "(if Leader s then CurrentMinute s else uint (EOM.Minute e)) = 9"
      and s6: "s6 = endMinute env h e pl
                      (if EOM.SysHeight e \<le> word_of_int (SystemHeight pl) then s\<lparr>EOMSys := True\<rparr> else s)"
      and run: "ProcessEOM env h msg s = Inr (b, s')"
  shows "\<exists>pl6 lpl6 added d dd sa sl sv plN sg.
           ProcessLists s6 h = Some pl6 \<and> ProcessLists s6 lk = Some lpl6
         \<and> AddDBState env True (ProcessList.DirectoryBlock lpl6) (ProcessList.AdminBlock lpl6)
              (CurrentBlock (FactoidState s6)) (ProcessList.EntryCreditBlock lpl6)
              (map snd (NewEBlocks pl6)) (map snd (NewEntries pl6)) s6 = Inr (added, sa)
         \<and> (added = Some d \<or>
             added = None \<and> DBStates_Get sa (uint (DirectoryBlock.DBHeight (ProcessList.DirectoryBlock lpl6))) = Some d)
         \<and> DBStatesAt (DBStates sa) d = Some dd
         \<and> sl = (if uint (DirectoryBlock.DBHeight (DBState.DirectoryBlock dd)) > 0
                 then sa\<lparr>DBStates := FixupLinks env (DBStates sa)
                            (DBStates_Get sa (uint (DirectoryBlock.DBHeight (DBState.DirectoryBlock dd)) - 1)) d\<rparr>
                 else sa)
         \<and> closeBlock_advance env (ProcessBlocks env d sl) = Inr sv
         \<and> CurrentMinute sv = 0
         \<and> LLeaderHeight sv = LLeaderHeight (ProcessBlocks env d sl) + 1
         \<and> ProcessLists sv (LLeaderHeight sv) = Some plN
         \<and> (if Leader sv \<and> \<not> DBSigAlreadySent plN
             then \<exists>dd' dbs sb pl2.
                    DBStatesAt (DBStates sv) d = Some dd'
                  \<and> buildDBSig env (DBState.DirectoryBlock dd') (LLeaderHeight sv) (LeaderVMIndex sv) sv = Inr (dbs, sb)
                  \<and> ProcessLists sb (LLeaderHeight sv) = Some pl2
                  \<and> LeaderExecuteDBSig env dbs (setPL (LLeaderHeight sv) (pl2\<lparr>DBSigAlreadySent := True\<rparr>) sb) = Inr sg
             else sg = sv)
         \<and> s' = dropOldAcks (sg\<lparr>Saving := True, Commits := RemoveExpired env (sg\<lparr>Saving := True\<rparr>)\<rparr>)
         \<and> Saving s' \<and> \<not> b"
proof -
  let ?s2 = "if EOM.SysHeight e \<le> word_of_int (SystemHeight pl) then s\<lparr>EOMSys := True\<rparr> else s"
  have pl2: "ProcessLists ?s2 h = Some pl" and lk2: "LeaderPL ?s2 = Some lk" using pl lpl by simp_all
  have ten: "CurrentMinute (endMinute env h e pl ?s2) = 10"
    using nine by (auto simp: endMinute_sel split: if_splits)
  have lk6: "LeaderPL s6 = Some lk" unfolding s6 using lk2 by (simp only: endMinute_sel)
  from run have "ProcessEOM_complete env h h e ?s2 = Inr (b, s')"
    by (simp only: ProcessEOM_all_in [OF body eom minute pl vm synced notdone lpl faults allin])
  then obtain s7 where
      cb: "closeBlock env h s6 = Inr s7"
      and s': "s' = dropOldAcks (s7\<lparr>Commits := RemoveExpired env s7\<rparr>)" and b: "\<not> b"
    unfolding ProcessEOM_complete_ten [OF pl2 ten] s6
    by (auto split: sum.splits)
  from cb obtain d sp sv sg where
      p: "closeBlock_prepare env h s6 = Inr (d, sp)"
      and a: "closeBlock_advance env sp = Inr sv"
      and g: "closeBlock_DBSig env d sv = Inr sg"
      and s7: "s7 = sg\<lparr>Saving := True\<rparr>"
    by (auto simp: closeBlock_def split: sum.splits prod.splits)
  from closeBlock_prepare_cases [OF p lk6] obtain pl6 lpl6 added sa sl where
      pl6: "ProcessLists s6 h = Some pl6" "ProcessLists s6 lk = Some lpl6"
      and add: "AddDBState env True (ProcessList.DirectoryBlock lpl6) (ProcessList.AdminBlock lpl6)
              (CurrentBlock (FactoidState s6)) (ProcessList.EntryCreditBlock lpl6)
              (map snd (NewEBlocks pl6)) (map snd (NewEntries pl6)) s6 = Inr (added, sa)"
      and res: "added = Some d \<or>
             added = None \<and> DBStates_Get sa (uint (DirectoryBlock.DBHeight (ProcessList.DirectoryBlock lpl6))) = Some d"
      and links: "closeBlock_links env d sa = Inr sl"
      and sp: "sp = ProcessBlocks env d sl"
    by blast
  from closeBlock_links_cases [OF links] obtain dd where
      dd: "DBStatesAt (DBStates sa) d = Some dd"
      and sl: "sl = (if uint (DirectoryBlock.DBHeight (DBState.DirectoryBlock dd)) > 0
                 then sa\<lparr>DBStates := FixupLinks env (DBStates sa)
                            (DBStates_Get sa (uint (DirectoryBlock.DBHeight (DBState.DirectoryBlock dd)) - 1)) d\<rparr>
                 else sa)"
    by blast
  from closeBlock_advance_sel [OF a] obtain plN where
      sv: "CurrentMinute sv = 0" "LLeaderHeight sv = LLeaderHeight sp + 1"
      and plN: "ProcessLists sv (LLeaderHeight sv) = Some plN"
    by blast
  note sig = closeBlock_DBSig_cases [OF g plN]
  have fin: "s' = dropOldAcks (sg\<lparr>Saving := True, Commits := RemoveExpired env (sg\<lparr>Saving := True\<rparr>)\<rparr>)"
    unfolding s' s7 by simp
  have sav: "Saving s'" unfolding fin by (simp add: dropOldAcks_def)
  from pl6 add res dd sl a [unfolded sp] sv [unfolded sp] plN sig fin sav b
  show ?thesis by blast
qed

lemma closingState_sel:
  "Body (Msgs (closingState 5) 50) = EOMMsg \<lparr>EOM.DBHeight = 5, Minute = 9, SysHeight = 0\<rparr>"
  "EOM (closingState 5)"
  "uint (EOM.Minute \<lparr>EOM.DBHeight = 5, Minute = 9, SysHeight = 0\<rparr>) \<le> EOMMinute (closingState 5)"
  "ProcessLists (closingState 5) 5 = Some (closingPL 5)"
  "inRange (VMIndex (Msgs (closingState 5) 50)) (VMs (closingPL 5))"
  "Synced (VMs (closingPL 5) ! nat (VMIndex (Msgs (closingState 5) 50)))"
  "\<not> EOMDone (closingState 5)"
  "LeaderPL (closingState 5) = Some 5"
  "ProcessLists (closingState 5) 5 = Some (closingPL 5)"
  "SysHighest (closingPL 5) \<le> SystemHeight (closingPL 5)"
  "EOMProcessed (closingState 5) = EOMLimit (closingState 5)"
  "(if Leader (closingState 5) then CurrentMinute (closingState 5)
    else uint (EOM.Minute \<lparr>EOM.DBHeight = 5, Minute = 9, SysHeight = 0\<rparr>)) = 9"
  by (simp_all add: closingState_def quietState_def eomMsg_def blankMsg_def closingPL_def blankPL_def
      blankVM_def inRange_def)

lemma closingState_run:
  "\<not> isl (ProcessEOM tracingEnv 5 50 (closingState 5))"
  "LLeaderHeight (snd (projr (ProcessEOM tracingEnv 5 50 (closingState 5)))) = 6"
  "CurrentMinute (snd (projr (ProcessEOM tracingEnv 5 50 (closingState 5)))) = 0"
  "TimeToAsk (DBStates (snd (projr (ProcessEOM tracingEnv 5 50 (closingState 5))))) = Some 1"
  "map_option IsNew (DBStatesAt (DBStates (snd (projr (ProcessEOM tracingEnv 5 50 (closingState 5))))) 5) = Some True"
  "map_option DBSigAlreadySent (ProcessLists (snd (projr (ProcessEOM tracingEnv 5 50 (closingState 5)))) 6) = Some True"
  by code_simp+

text \<open>
  The hypotheses of C6 hold in scenario 5 at height 5: the call returns false with
  \<open>Saving\<close> set, minute 0 and height 6; the new DBState is in the ledger with \<open>IsNew\<close>,
  \<open>FixupLinks\<close> has left its trace, and the process list of height 6 has
  \<open>DBSigAlreadySent\<close>.
\<close>

theorem ProcessEOM_block_close_witness:
  "\<exists>s'. ProcessEOM tracingEnv 5 50 (closingState 5) = Inr (False, s')
        \<and> Saving s' \<and> CurrentMinute s' = 0 \<and> LLeaderHeight s' = 6
        \<and> TimeToAsk (DBStates s') = Some 1
        \<and> map_option IsNew (DBStatesAt (DBStates s') 5) = Some True
        \<and> map_option DBSigAlreadySent (ProcessLists s' 6) = Some True"
proof -
  obtain b s' where run: "ProcessEOM tracingEnv 5 50 (closingState 5) = Inr (b, s')"
    using closingState_run(1) by (cases "ProcessEOM tracingEnv 5 50 (closingState 5)") auto
  from ProcessEOM_block_close [OF closingState_sel refl run] have "Saving s' \<and> \<not> b" by blast
  with run closingState_run show ?thesis by simp
qed

text \<open>
  C6 as the spec words it fails at height 0. Scenario 5 with \<open>H = 0\<close>: \<open>AddDBState\<close> raises
  \<open>LLeaderHeight\<close> from 0 to 1 before the increment, so the block close ends at height 2 and
  not at \<open>H + 1\<close>; and \<open>FixupLinks\<close> is not called, its trace is missing from the ledger
  (at height 5 it is there).
\<close>

theorem ProcessEOM_block_close_height_0_counterexample:
  "CurrentMinute (closingState 0) = 9 \<and> LLeaderHeight (closingState 0) = 0
   \<and> \<not> isl (ProcessEOM tracingEnv 0 50 (closingState 0))
   \<and> LLeaderHeight (snd (projr (ProcessEOM tracingEnv 0 50 (closingState 0)))) = 2
   \<and> TimeToAsk (DBStates (snd (projr (ProcessEOM tracingEnv 0 50 (closingState 0))))) = None
   \<and> TimeToAsk (DBStates (snd (projr (ProcessEOM tracingEnv 5 50 (closingState 5))))) = Some 1"
proof -
  have "CurrentMinute (closingState 0) = 9" by code_simp
  moreover have "LLeaderHeight (closingState 0) = 0" by code_simp
  moreover have "\<not> isl (ProcessEOM tracingEnv 0 50 (closingState 0))" by code_simp
  moreover have "LLeaderHeight (snd (projr (ProcessEOM tracingEnv 0 50 (closingState 0)))) = 2" by code_simp
  moreover have "TimeToAsk (DBStates (snd (projr (ProcessEOM tracingEnv 0 50 (closingState 0))))) = None" by code_simp
  moreover note closingState_run(4)
  ultimately show ?thesis by blast
qed


subsection \<open>The leader height does not fall\<close>

lemma Get_LL [simp]: "LLeaderHeight (snd (ProcessLists_Get env h s)) = LLeaderHeight s"
  by (simp add: ProcessLists_Get_def split: option.splits)

lemma Get_LL': "ProcessLists_Get env h s = (p, s1) \<Longrightarrow> LLeaderHeight s1 = LLeaderHeight s"
  using Get_LL [of env h s] by simp

lemma small_LL [simp]:
  "LLeaderHeight (snd (newMsg m s)) = LLeaderHeight s"
  "LLeaderHeight (snd (Sign env r s)) = LLeaderHeight s"
  "LLeaderHeight (setPL k pl s) = LLeaderHeight s"
  "LLeaderHeight (updDBState d f s) = LLeaderHeight s"
  "LLeaderHeight (deleteHolding h s) = LLeaderHeight s"
  "LLeaderHeight (ComputeVMIndex env r s) = LLeaderHeight s"
  by (simp_all add: newMsg_def Sign_def setPL_def updDBState_def deleteHolding_def ComputeVMIndex_def
      split: option.splits)

lemma NewAck_LL: "NewAck env msg bh s = Inr (a, s') \<Longrightarrow> LLeaderHeight s' = LLeaderHeight s"
  by (auto simp: NewAck_def Let_def split_beta Get_LL' split: option.splits if_splits sum.splits MsgBody.splits prod.splits)


lemma applyAddToProcessList_LL:
  "applyAddToProcessList env k a m s = Inr s' \<Longrightarrow> LLeaderHeight s' = LLeaderHeight s"
  by (auto simp: applyAddToProcessList_def split: option.splits prod.splits)

lemma buildDBSig_LL:
  "buildDBSig env hdr h i s = Inr (dbs, s') \<Longrightarrow> LLeaderHeight s' = LLeaderHeight s"
  by (auto simp: buildDBSig_def Let_def split_beta split: if_splits)

lemma LeaderExecuteDBSig_mono:
  assumes "neverLowers env" and "LeaderExecuteDBSig env m s = Inr s'"
  shows "LLeaderHeight s \<le> LLeaderHeight s'"
proof -
  from assms(1) have fe: "\<And>m s. LLeaderHeight s \<le> LLeaderHeight (FollowerExecute env m s)"
    by (simp add: neverLowers_def)
  show ?thesis
    using assms(2) fe [of "snd (ProcessLists_Get env h s)" for h]
    by (auto simp: LeaderExecuteDBSig_def Let_def split_beta
             dest!: NewAck_LL applyAddToProcessList_LL Get_LL'
             split: MsgBody.splits option.splits if_splits sum.splits prod.splits)
qed


lemma neverLowersD:
  assumes "neverLowers env"
  shows "LLeaderHeight s \<le> LLeaderHeight (snd (PLUpdateState env h s))"
    and "LLeaderHeight s \<le> LLeaderHeight (UpdateState env s)"
    and "LLeaderHeight s \<le> LLeaderHeight (DoReset env s)"
    and "LLeaderHeight s \<le> LLeaderHeight (LeaderExecute env m s)"
    and "LLeaderHeight s \<le> LLeaderHeight (FollowerExecute env m s)"
    and "LLeaderHeight s \<le> LLeaderHeight (SendOut env m s)"
    and "LLeaderHeight s \<le> LLeaderHeight (TrimBack env ss d s)"
    and "LLeaderHeight s \<le> LLeaderHeight (ProcessBlocks env k s)"
    and "LLeaderHeight s \<le> LLeaderHeight (DBStatesUpdateState env s)"
    and "LLeaderHeight s \<le> LLeaderHeight (Catchup env s)"
    and "LLeaderHeight s \<le> LLeaderHeight (snd (SaveFactomdState env k s))"
  using assms by (simp_all add: neverLowers_def)

lemma sendNewDBSig_mono:
  assumes "neverLowers env" and "sendNewDBSig env k d h i s = Inr s'"
  shows "LLeaderHeight s \<le> LLeaderHeight s'"
  using assms(2)
  by (auto simp: sendNewDBSig_def
           dest!: buildDBSig_LL LeaderExecuteDBSig_mono [OF assms(1)]
           split: sum.splits prod.splits option.splits)


lemma word_pred_less: "0 < (h::u32) \<Longrightarrow> unat (h - 1) < unat h"
proof -
  assume "0 < h"
  then have "h \<noteq> 0" by auto
  then show ?thesis by (simp add: unat_minus_one unat_gt_0)
qed

lemma SendDBSig_mono_all:
  assumes "neverLowers env"
  shows "\<forall>s s'. SendDBSig env h i s = Inr s' \<longrightarrow> LLeaderHeight s \<le> LLeaderHeight s'"
proof (induction "unat h" arbitrary: h rule: less_induct)
  case less
  have ih: "\<And>s s'. 0 < h \<Longrightarrow> SendDBSig env (h - 1) i s = Inr s' \<Longrightarrow> LLeaderHeight s \<le> LLeaderHeight s'"
    using less.hyps [OF word_pred_less] by blast
  show ?case
  proof (intro allI impI)
    fix s s'
    assume "SendDBSig env h i s = Inr s'"
    then show "LLeaderHeight s \<le> LLeaderHeight s'"
      apply (subst (asm) SendDBSig.simps)
      apply (auto simp: Let_def dest!: Get_LL' sendNewDBSig_mono [OF assms] ih
                  split: if_splits prod.splits option.splits)
      done
  qed
qed


lemma SendDBSig_mono:
  "neverLowers env \<Longrightarrow> SendDBSig env h i s = Inr s' \<Longrightarrow> LLeaderHeight s \<le> LLeaderHeight s'"
  using SendDBSig_mono_all by blast

lemma executeMsg_mono:
  assumes "neverLowers env" and "executeMsg env vm msg s = Inr (r, s')"
  shows "LLeaderHeight s \<le> LLeaderHeight s'"
proof -
  note nl = neverLowersD [OF assms(1)]
  have c: "\<And>m s. LLeaderHeight s \<le> LLeaderHeight (LeaderExecute env m (ComputeVMIndex env msg s))"
          "\<And>m s. LLeaderHeight s \<le> LLeaderHeight (FollowerExecute env m (ComputeVMIndex env msg s))"
    using nl(4) [of "ComputeVMIndex env msg s" for s] nl(5) [of "ComputeVMIndex env msg s" for s] by simp_all
  show ?thesis
    using assms(2) c
    by (auto simp: executeMsg_def Let_def
             dest!: SendDBSig_mono [OF assms(1)]
             split: if_splits sum.splits option.splits bool.splits)
qed

lemma deleteHolding_Msgs [simp]: "Msgs (deleteHolding k s) = Msgs s"
  by (simp add: deleteHolding_def)

lemma reviewHeld_mono:
  assumes "neverLowers env"
  shows "LLeaderHeight s \<le> LLeaderHeight (reviewHeld env highest saved k v s)"
proof -
  have so: "\<And>m s. LLeaderHeight s \<le> LLeaderHeight (SendOut env m s)"
    using neverLowersD(6) [OF assms] .
  have so': "\<And>m s x. LLeaderHeight s \<le> LLeaderHeight (SendOut env m (s\<lparr>ResendCnt := x\<rparr>))"
            "\<And>m s x h. LLeaderHeight s \<le> LLeaderHeight (SendOut env m (deleteHolding h s\<lparr>ResendCnt := x\<rparr>))"
    using so [of "s\<lparr>ResendCnt := x\<rparr>" for s x] so [of "deleteHolding h s\<lparr>ResendCnt := x\<rparr>" for s x h]
    by (simp_all add: deleteHolding_def)
  show ?thesis
    by (cases "Body (Msgs s v)")
       (simp_all add: reviewHeld_def Let_def so' split: option.splits MsgBody.splits)
qed

lemma reviewHoldingLoop_mono:
  assumes "neverLowers env"
  shows "LLeaderHeight s \<le> LLeaderHeight (reviewHoldingLoop env highest saved ks s)"
proof (induction ks arbitrary: s)
  case Nil
  then show ?case by simp
next
  case (Cons k ks)
  show ?case
  proof (cases "Holding s k")
    case None
    with Cons.IH [of s] show ?thesis by simp
  next
    case (Some v)
    from reviewHeld_mono [OF assms, of s highest saved k v] Cons.IH [of "reviewHeld env highest saved k v s"] Some
    show ?thesis by simp
  qed
qed

lemma ReviewHolding_mono:
  assumes "neverLowers env"
  shows "LLeaderHeight s \<le> LLeaderHeight (ReviewHolding env s)"
proof -
  have "\<And>s h sv. LLeaderHeight s \<le> LLeaderHeight (reviewHoldingLoop env h sv (HoldingOrder env s) s)"
    by (rule reviewHoldingLoop_mono [OF assms])
  from this [of "s\<lparr>ResendHolding := x, XReview := []\<rparr>" for x]
  show ?thesis
    by (simp add: ReviewHolding_def Let_def)
qed

lemma recomputeLeader_LL:
  "recomputeLeader env s = Inr s' \<Longrightarrow> LLeaderHeight s' = LLeaderHeight s"
  by (auto simp: recomputeLeader_def dest!: Get_LL' split: prod.splits option.splits)

lemma bootWindow_LL:
  "bootWindow env s = Inr s' \<Longrightarrow> LLeaderHeight s' = LLeaderHeight s"
  by (auto simp: bootWindow_def Let_def dest!: recomputeLeader_LL split: if_splits sum.splits)

lemma leaderVM_mono:
  "neverLowers env \<Longrightarrow> leaderVM env s = Inr (vm, s') \<Longrightarrow> LLeaderHeight s \<le> LLeaderHeight s'"
  by (auto simp: leaderVM_def dest!: SendDBSig_mono split: if_splits sum.splits option.splits)

lemma drainDBStates_LL:
  "drainDBStates env process s = (process', s') \<Longrightarrow> LLeaderHeight s' = LLeaderHeight s"
proof (induction env process s arbitrary: process' s' rule: drainDBStates.induct)
  case (1 env process s)
  from "1.prems" show ?case
    apply (subst (asm) drainDBStates.simps)
    apply (auto simp: Let_def dest!: "1.IH" [rotated -1] split: if_splits option.splits)
    done
qed

lemma ackLoop_mono:
  assumes "neverLowers env"
  shows "ackLoop env vm acks progress s = Inr (p', s') \<Longrightarrow> LLeaderHeight s \<le> LLeaderHeight s'"
proof (induction acks arbitrary: progress s)
  case Nil
  then show ?case by simp
next
  case (Cons ack rest)
  from Cons.prems show ?case
    by (auto dest!: Cons.IH executeMsg_mono [OF assms]
             split: MsgBody.splits sum.splits prod.splits if_splits)
qed

lemma msgLoop_mono:
  assumes "neverLowers env"
  shows "msgLoop env vm msgs s = Inr s' \<Longrightarrow> LLeaderHeight s \<le> LLeaderHeight s'"
proof (induction msgs arbitrary: s)
  case Nil
  then show ?case by simp
next
  case (Cons msg rest)
  from Cons.prems obtain ret s1 where e: "executeMsg env vm msg s = Inr (ret, s1)"
    and r: "msgLoop env vm rest (if ret \<and> \<not> Peer2Peer (Msgs s1 msg) then SendOut env msg s1 else s1) = Inr s'"
    by (auto split: sum.splits prod.splits)
  from executeMsg_mono [OF assms e] have "LLeaderHeight s \<le> LLeaderHeight s1" .
  also have "\<dots> \<le> LLeaderHeight (if ret \<and> \<not> Peer2Peer (Msgs s1 msg) then SendOut env msg s1 else s1)"
    using neverLowersD(6) [OF assms] by simp
  also from Cons.IH [OF r] have "\<dots> \<le> LLeaderHeight s'" .
  finally show ?case .
qed

lemma reviewLoop_mono:
  assumes "neverLowers env"
  shows "reviewLoop env vm ms process progress s = Inr (dn, process', progress', s')
         \<Longrightarrow> LLeaderHeight s \<le> LLeaderHeight s'"
proof (induction ms arbitrary: process progress s)
  case Nil
  then show ?case by simp
next
  case (Cons m rest)
  show ?case
  proof (cases "room process")
    case False
    with Cons.prems show ?thesis by simp
  next
    case True
    show ?thesis
    proof (cases m)
      case None
      with True Cons.prems Cons.IH show ?thesis by simp
    next
      case (Some msg)
      with True Cons.prems obtain ret s1 where e: "executeMsg env vm msg s = Inr (ret, s1)"
        and r: "reviewLoop env vm rest (process @ [msg]) (ret \<or> progress) s1 = Inr (dn, process', progress', s')"
        by (auto split: sum.splits prod.splits)
      from executeMsg_mono [OF assms e] Cons.IH [OF r] show ?thesis by simp
    qed
  qed
qed

lemma pump_mono:
  assumes "neverLowers env"
  shows "pump env vm ms s = Inr s' \<Longrightarrow> LLeaderHeight s \<le> LLeaderHeight s'"
proof (induction ms arbitrary: s)
  case Nil
  then show ?case by simp
next
  case (Cons msg rest)
  from Cons.prems obtain ret s1 where e: "executeMsg env vm msg s = Inr (ret, s1)"
    and r: "pump env vm rest (UpdateState env (if \<not> Peer2Peer (Msgs s1 msg) then SendOut env msg s1 else s1)) = Inr s'"
    by (auto split: sum.splits prod.splits)
  from executeMsg_mono [OF assms e] have "LLeaderHeight s \<le> LLeaderHeight s1" .
  also have "\<dots> \<le> LLeaderHeight (if \<not> Peer2Peer (Msgs s1 msg) then SendOut env msg s1 else s1)"
    using neverLowersD(6) [OF assms] by simp
  also have "\<dots> \<le> LLeaderHeight (UpdateState env (if \<not> Peer2Peer (Msgs s1 msg) then SendOut env msg s1 else s1))"
    by (rule neverLowersD(2) [OF assms])
  also from Cons.IH [OF r] have "\<dots> \<le> LLeaderHeight s'" .
  finally show ?case .
qed

lemma Process_mono:
  assumes "neverLowers env" and "Process env acks msgs s = Inr (progress, s')"
  shows "LLeaderHeight s \<le> LLeaderHeight s'"
proof (cases "ResetRequest s")
  case True
  with assms(2) have "s' = DoReset env (s\<lparr>ResetRequest := False\<rparr>)" by (simp add: Process_def)
  with neverLowersD(3) [OF assms(1), of "s\<lparr>ResetRequest := False\<rparr>"] show ?thesis by simp
next
  case False
  with assms(2) obtain s1 vm s2 process s3 pr s4 s5 dn process' s6
    where b: "bootWindow env s = Inr s1"
      and l: "leaderVM env s1 = Inr (vm, s2)"
      and d: "drainDBStates env [] s2 = (process, s3)"
      and a: "(if room process then ackLoop env vm acks False (ReviewHolding env s3)
               else Inr (False, ReviewHolding env s3)) = Inr (pr, s4)"
      and m: "(if room process then msgLoop env vm msgs s4 else Inr s4) = Inr s5"
      and r: "reviewLoop env vm (XReview s5) process pr s5 = Inr (dn, process', progress, s6)"
      and p: "pump env vm process' (if dn then s6\<lparr>XReview := []\<rparr> else s6) = Inr s'"
    by (auto simp: Process_def split: sum.splits prod.splits)
  from bootWindow_LL [OF b] have "LLeaderHeight s \<le> LLeaderHeight s1" by simp
  also from leaderVM_mono [OF assms(1) l] have "\<dots> \<le> LLeaderHeight s2" .
  also from drainDBStates_LL [OF d] have "\<dots> \<le> LLeaderHeight s3" by simp
  also have "\<dots> \<le> LLeaderHeight (ReviewHolding env s3)" by (rule ReviewHolding_mono [OF assms(1)])
  also from a have "\<dots> \<le> LLeaderHeight s4"
    by (auto dest!: ackLoop_mono [OF assms(1)] split: if_splits)
  also from m have "\<dots> \<le> LLeaderHeight s5"
    by (auto dest!: msgLoop_mono [OF assms(1)] split: if_splits)
  also from reviewLoop_mono [OF assms(1) r] have "\<dots> \<le> LLeaderHeight s6" .
  also from pump_mono [OF assms(1) p] have "\<dots> \<le> LLeaderHeight s'" by (simp split: if_splits)
  finally show ?thesis .
qed

lemma UpdateStateLoop_inv:
  assumes step: "\<And>env h s. I env s \<Longrightarrow> I env (snd (PLUpdateState env h s))"
    and run: "UpdateStateLoop env s = Some s'"
  shows "I env s \<longrightarrow> I env s'"
proof (rule UpdateStateLoop.raw_induct [where P = "\<lambda>env s y. I env s \<longrightarrow> I env y", OF _ run])
  fix f env s y
  assume ih: "\<And>e x z. f e x = Some z \<Longrightarrow> I e x \<longrightarrow> I e z"
  assume eq: "(case PLUpdateState env (LLeaderHeight s) s of
                 (again, s') \<Rightarrow> if again then f env s' else Some s') = Some y"
  obtain again s1 where u: "PLUpdateState env (LLeaderHeight s) s = (again, s1)" by force
  from step [of env s "LLeaderHeight s"] u have i: "I env s \<Longrightarrow> I env s1" by simp
  show "I env s \<longrightarrow> I env y"
  proof (cases again)
    case True
    with eq u have "f env s1 = Some y" by simp
    from ih [OF this] i show ?thesis by blast
  next
    case False
    with eq u i show ?thesis by auto
  qed
qed

lemma UpdateStateLoop_mono:
  assumes "neverLowers env" and "UpdateStateLoop env s = Some s'"
  shows "LLeaderHeight s \<le> LLeaderHeight s'"
proof -
  have "neverLowers env \<and> LLeaderHeight s \<le> LLeaderHeight s \<longrightarrow>
        neverLowers env \<and> LLeaderHeight s \<le> LLeaderHeight s'"
    using UpdateStateLoop_inv [where I = "\<lambda>env x. neverLowers env \<and> LLeaderHeight s \<le> LLeaderHeight x", OF _ assms(2)]
    by (metis neverLowersD(1) order_trans)
  with assms(1) show ?thesis by simp
qed

lemma UpdateStateLoop_belowTop:
  assumes "staysBelowTop env" and "UpdateStateLoop env s = Some s'" and "belowTop s"
  shows "belowTop s'"
proof -
  have "staysBelowTop env \<and> belowTop s \<longrightarrow> staysBelowTop env \<and> belowTop s'"
    using UpdateStateLoop_inv [where I = "\<lambda>env x. staysBelowTop env \<and> belowTop x", OF _ assms(2)]
    by (metis staysBelowTop_def)
  with assms(1,3) show ?thesis by simp
qed

lemma AddDBState_mono:
  assumes "neverLowers env" and "AddDBState env isNew db ab fb ecb ebs es s = Inr (r, s')"
  shows "LLeaderHeight s \<le> LLeaderHeight s'"
proof (cases "DBStatesPut env s (freshDBState isNew db ab fb ecb ebs es)")
  case False
  from AddDBState_refused [OF False] assms(2) show ?thesis by simp
next
  case True
  note put = NewDBState_accepted [OF True]
  show ?thesis
  proof (cases "DirectoryBlock.DBHeight db > LLeaderHeight s")
    case False
    with assms(2) put show ?thesis
      by (auto simp: AddDBState_def Let_def split: option.splits if_splits)
  next
    case high: True
    from assms(2) put high obtain s7 s8 where
        l: "UpdateStateLoop env s7 = Some s8" and h7: "LLeaderHeight s7 = DirectoryBlock.DBHeight db"
        and s': "s' = (if DirectoryBlock.DBHeight db = 0 \<and> LLeaderHeight s8 < 1 then s8\<lparr>LLeaderHeight := 1\<rparr> else s8)"
      by (auto simp: AddDBState_def Let_def split_beta dest!: Get_LL'
               split: option.splits if_splits sum.splits prod.splits)
    from UpdateStateLoop_mono [OF assms(1) l] h7 high
    have "LLeaderHeight s \<le> LLeaderHeight s8" by simp
    moreover have "LLeaderHeight s8 \<le> LLeaderHeight s'"
      unfolding s' by (auto simp: word_less_1)
    ultimately show ?thesis by simp
  qed
qed


lemma belowTop_cong:
  "LLeaderHeight s' = LLeaderHeight s \<Longrightarrow> ProcessLists s' = ProcessLists s \<Longrightarrow> belowTop s \<Longrightarrow> belowTop s'"
  by (simp add: belowTop_def)

lemma belowTop_LL:
  "belowTop s \<Longrightarrow> h < top \<Longrightarrow> belowTop (s\<lparr>LLeaderHeight := h\<rparr>)"
  by (simp add: belowTop_def)

lemma belowTop_setPL:
  "belowTop s \<Longrightarrow> DirectoryBlock.DBHeight (ProcessList.DirectoryBlock pl) < top \<Longrightarrow> belowTop (setPL k pl s)"
  by (simp add: belowTop_def setPL_def)

lemma belowTop_PL:
  "belowTop s \<Longrightarrow> ProcessLists s k = Some pl \<Longrightarrow> DirectoryBlock.DBHeight (ProcessList.DirectoryBlock pl) < top"
  by (auto simp: belowTop_def)

lemma belowTop_Get:
  assumes "staysBelowTop env" and "belowTop s"
  shows "belowTop (snd (ProcessLists_Get env h s))"
proof -
  from assms(1) have n: "\<And>s h pl. NewProcessList env s h = Some pl \<Longrightarrow>
      DirectoryBlock.DBHeight (ProcessList.DirectoryBlock pl) < top"
    unfolding staysBelowTop_def by blast
  from assms(2) show ?thesis
    by (auto simp: ProcessLists_Get_def belowTop_def dest: n split: option.splits)
qed

lemma belowTop_Get':
  "staysBelowTop env \<Longrightarrow> belowTop s \<Longrightarrow> ProcessLists_Get env h s = (p, s1) \<Longrightarrow> belowTop s1"
  using belowTop_Get [of env s h] by simp

lemma AddDBState_belowTop:
  assumes sb: "staysBelowTop env" and b: "belowTop s"
      and ht: "DirectoryBlock.DBHeight db < top"
      and run: "AddDBState env isNew db ab fb ecb ebs es s = Inr (r, s')"
  shows "belowTop s'"
proof (cases "DBStatesPut env s (freshDBState isNew db ab fb ecb ebs es)")
  case False
  from AddDBState_refused [OF False] run b show ?thesis by simp
next
  case True
  note put = NewDBState_accepted [OF True]
  define s0 where "s0 = setDBState (uint (DirectoryBlock.DBHeight db)) (freshDBState isNew db ab fb ecb ebs es) s"
  have b0: "belowTop s0"
    using b unfolding s0_def by (rule belowTop_cong [rotated 2]) (simp_all add: setDBState_def)
  have one: "(1::u32) < top" by (simp add: top_def)
  show ?thesis
  proof (cases "DirectoryBlock.DBHeight db > LLeaderHeight s")
    case False
    with run put have "s' = s0 \<or> s' = s0\<lparr>LLeaderHeight := 1\<rparr>"
      by (auto simp: AddDBState_def Let_def s0_def split: option.splits if_splits)
    with b0 belowTop_LL [OF b0 one] show ?thesis by auto
  next
    case high: True
    define s1 where "s1 = s0\<lparr>Syncing := False, EOM := False, DBSig := False,
                              LLeaderHeight := DirectoryBlock.DBHeight db\<rparr>"
    define s2 where "s2 = snd (ProcessLists_Get env (DirectoryBlock.DBHeight db + 1) s1)"
    define s3 where "s3 = s2\<lparr>CurrentMinute := 0, EOMProcessed := 0, DBSigProcessed := 0,
                              StartDelay := int (Now s2), RunLeader := False\<rparr>"
    define p where "p = fst (ProcessLists_Get env (LLeaderHeight s3) s3)"
    define s4 where "s4 = snd (ProcessLists_Get env (LLeaderHeight s3) s3)"
    define s5 where "s5 = s4\<lparr>LeaderPL := p\<rparr>"
    have b1: "belowTop s1"
      unfolding s1_def using b0 ht by (simp add: belowTop_def)
    have b2: "belowTop s2" unfolding s2_def by (rule belowTop_Get [OF sb b1])
    have b3: "belowTop s3" unfolding s3_def using b2 by (simp add: belowTop_def)
    have b4: "belowTop s4" unfolding s4_def by (rule belowTop_Get [OF sb b3])
    have b5: "belowTop s5" unfolding s5_def using b4 by (simp add: belowTop_def)
    from run put high obtain k pl s8 where
        pk: "ProcessLists s5 k = Some pl"
        and l: "UpdateStateLoop env
                  ((s5\<lparr>ProcessLists := (ProcessLists s5)(k \<mapsto> pl\<lparr>FactoidBalancesT := Map.empty, ECBalancesT := Map.empty\<rparr>)\<rparr>)
                     \<lparr>Leader := fst (GetVirtualServers env (pl\<lparr>FactoidBalancesT := Map.empty, ECBalancesT := Map.empty\<rparr>)
                                        (CurrentMinute s5) (IdentityChainID s5)),
                      LeaderVMIndex := snd (GetVirtualServers env (pl\<lparr>FactoidBalancesT := Map.empty, ECBalancesT := Map.empty\<rparr>)
                                        (CurrentMinute s5) (IdentityChainID s5))\<rparr>) = Some s8"
        and s': "s' = s8 \<or> s' = s8\<lparr>LLeaderHeight := 1\<rparr>"
      unfolding s5_def s4_def p_def s3_def s2_def s1_def s0_def
      by (auto simp: AddDBState_def Let_def split_beta
               split: option.splits if_splits sum.splits)
    let ?s7 = "(s5\<lparr>ProcessLists := (ProcessLists s5)(k \<mapsto> pl\<lparr>FactoidBalancesT := Map.empty, ECBalancesT := Map.empty\<rparr>)\<rparr>)
                     \<lparr>Leader := fst (GetVirtualServers env (pl\<lparr>FactoidBalancesT := Map.empty, ECBalancesT := Map.empty\<rparr>)
                                        (CurrentMinute s5) (IdentityChainID s5)),
                      LeaderVMIndex := snd (GetVirtualServers env (pl\<lparr>FactoidBalancesT := Map.empty, ECBalancesT := Map.empty\<rparr>)
                                        (CurrentMinute s5) (IdentityChainID s5))\<rparr>"
    from belowTop_PL [OF b5 pk] b5 have b7: "belowTop ?s7"
      by (auto simp: belowTop_def)
    from UpdateStateLoop_belowTop [OF sb l b7] have b8: "belowTop s8" .
    with s' belowTop_LL [OF b8 one] show ?thesis by auto
  qed
qed


lemma small_LL2 [simp]:
  "LLeaderHeight (cntFail m s) = LLeaderHeight s"
  "LLeaderHeight (FollowerExecuteDBState_pending env msg m h s) = LLeaderHeight s"
  "LLeaderHeight (dropOldAcks s) = LLeaderHeight s"
  "LLeaderHeight (endMinute env k e pl s) = LLeaderHeight s"
  by (simp_all add: cntFail_def FollowerExecuteDBState_pending_def Let_def
        ExecuteEntriesInDBState_def dropOldAcks_def endMinute_def)

lemma FollowerExecuteDBState_trim_mono:
  "neverLowers env \<Longrightarrow> FollowerExecuteDBState_trim env h p s = Inr s' \<Longrightarrow>
   LLeaderHeight s \<le> LLeaderHeight s'"
  by (auto simp: FollowerExecuteDBState_trim_def Let_def neverLowersD(7)
           split: if_splits option.splits)

lemma FollowerExecuteDBState_commit_mono:
  assumes nl: "neverLowers env"
      and run: "FollowerExecuteDBState_commit env msg m h d s = Inr s'"
  shows "LLeaderHeight s \<le> LLeaderHeight s'"
proof -
  define s1 where "s1 = s\<lparr>FReplay := sealAll env (DirectoryBlock.Timestamp (DBStateMsg.DirectoryBlock m))
                                (Transactions (DBStateMsg.FactoidBlock m)) (FReplay s)\<rparr>"
  define s2 where "s2 = (if IsInDB m = False
                then
                  (let s' = updDBState d (\<lambda>d. d\<lparr>ReadyToSave := True, Locked := False, DBState.Signed := True\<rparr>) s1
                   in DBStatesUpdateState env (s'\<lparr>DBStateAppliedCnt := DBStateAppliedCnt s' + 1\<rparr>))
                else updDBState d (\<lambda>d. d\<lparr>Saved := True, IsNew := False, Locked := False\<rparr>) s1)"
  define s3 where "s3 = s2\<lparr>EOM := False, EOMDone := False, EOMSys := False, DBSig := False, DBSigDone := False,
                  DBSigSys := False, Saving := True, Syncing := False\<rparr>"
  define s4 where "s4 = (if LastEnd (DBStates s3) < uint h then Catchup env s3 else s3)"
  define s5 where "s5 = (if LastBegin (DBStates s4) < uint h + 1
                then s4\<lparr>DBStates := (DBStates s4)\<lparr>LastBegin := uint h\<rparr>\<rparr>
                else s4)"
  define s6 where "s6 = s5\<lparr>DBStates := (DBStates s5)\<lparr>TimeToAsk := None\<rparr>\<rparr>"
  have "LLeaderHeight s1 = LLeaderHeight s" by (simp add: s1_def)
  moreover have "LLeaderHeight s1 \<le> LLeaderHeight s2"
  proof (cases "IsInDB m")
    case True
    then show ?thesis by (simp add: s2_def)
  next
    case False
    let ?u = "updDBState d (\<lambda>d. d\<lparr>ReadyToSave := True, Locked := False, DBState.Signed := True\<rparr>) s1"
    from neverLowersD(9) [OF nl, of "?u\<lparr>DBStateAppliedCnt := DBStateAppliedCnt ?u + 1\<rparr>"] False
    show ?thesis by (simp add: s2_def Let_def)
  qed
  moreover have "LLeaderHeight s3 = LLeaderHeight s2" by (simp add: s3_def)
  moreover have "LLeaderHeight s3 \<le> LLeaderHeight s4"
    by (simp add: s4_def neverLowersD(10) [OF nl])
  moreover have "LLeaderHeight s6 = LLeaderHeight s4" by (simp add: s6_def s5_def)
  moreover have "LLeaderHeight s6 \<le> LLeaderHeight s'"
  proof -
    from run have r: "(if Local (Msgs s6 msg) \<and> FastBoot s6
         then
           (case SaveFactomdState env d s6 of
              (ss, s7) \<Rightarrow>
                (let s8 = updDBState d (\<lambda>d. d\<lparr>SaveStruct := ss\<rparr>) s7
                 in case SaveDBStateList env s8 of
                      Some err \<Rightarrow> Inl (Panic err)
                    | None \<Rightarrow> Inr s8))
         else Inr s6) = Inr s'"
      unfolding FollowerExecuteDBState_commit_def s6_def s5_def s4_def s3_def s2_def s1_def Let_def .
    show ?thesis
    proof (cases "Local (Msgs s6 msg) \<and> FastBoot s6")
      case False
      with r show ?thesis by auto
    next
      case True
      obtain ss s7 where sv: "SaveFactomdState env d s6 = (ss, s7)" by force
      from neverLowersD(11) [OF nl, of s6 d] sv have "LLeaderHeight s6 \<le> LLeaderHeight s7" by simp
      moreover from r True sv have "s' = updDBState d (\<lambda>d. d\<lparr>SaveStruct := ss\<rparr>) s7"
        by (auto simp: Let_def split: option.splits)
      ultimately show ?thesis by simp
    qed
  qed
  ultimately show ?thesis by simp
qed

lemma FollowerExecuteDBState_mono:
  assumes nl: "neverLowers env"
      and run: "FollowerExecuteDBState env msg s = Inr s'"
  shows "LLeaderHeight s \<le> LLeaderHeight s'"
proof (cases "Body (Msgs s msg)")
  case (DBStateMsgB m)
  show ?thesis
    using run unfolding FollowerExecuteDBState_def DBStateMsgB
    apply (simp add: Let_def split: if_splits sum.splits option.splits prod.splits)
      apply (auto dest!: FollowerExecuteDBState_trim_mono [OF nl] AddDBState_mono [OF nl]
                         FollowerExecuteDBState_commit_mono [OF nl])
    done
qed (use run in \<open>simp_all add: FollowerExecuteDBState_def\<close>)

lemma heartbeats_mono:
  assumes nl: "neverLowers env"
  shows "LLeaderHeight s \<le> LLeaderHeight (heartbeats env as s)"
proof (induction as arbitrary: s)
  case Nil
  then show ?case by simp
next
  case (Cons a as)
  show ?case
  proof (cases "a = IdentityChainID s")
    case False
    with Cons [of s] show ?thesis by simp
  next
    case True
    define hb0 where "hb0 = \<lparr>MsgHash = Digest 0, RepeatHash = Digest 0, Timestamp = Now s, VMIndex = 0,
                       LeaderChainID = None, Minute = 0, Local = False, Peer2Peer = False,
                       SentInvalid = False, Signed = True, Body = Heartbeat (LLeaderHeight s)\<rparr>"
    define m where "m = hb0\<lparr>MsgHash := HashOf env hb0, RepeatHash := HashOf env hb0\<rparr>"
    let ?s1 = "SendOut env (fst (newMsg m s)) (snd (newMsg m s))"
    have "LLeaderHeight s = LLeaderHeight (snd (newMsg m s))" by simp
    also have "\<dots> \<le> LLeaderHeight ?s1" by (rule neverLowersD(6) [OF nl])
    also have "\<dots> \<le> LLeaderHeight (heartbeats env as ?s1)" by (rule Cons)
    also have "heartbeats env as ?s1 = heartbeats env (a # as) s"
      using True by (simp add: Let_def split_beta hb0_def m_def)
    finally show ?thesis .
  qed
qed

lemma SendHeartBeat_mono:
  "neverLowers env \<Longrightarrow> LLeaderHeight s \<le> LLeaderHeight (SendHeartBeat env s)"
  by (simp add: SendHeartBeat_def heartbeats_mono split: option.splits)

lemma ProcessEOM_unwind_mono:
  assumes nl: "neverLowers env" and run: "ProcessEOM_unwind env h s = Inr (b, s')"
  shows "LLeaderHeight s \<le> LLeaderHeight s'"
proof -
  have hb: "\<And>x. LLeaderHeight x = LLeaderHeight s \<Longrightarrow> LLeaderHeight s \<le> LLeaderHeight (SendHeartBeat env x)"
    using SendHeartBeat_mono [OF nl] by metis
  from run show ?thesis
    by (auto simp: ProcessEOM_unwind_def Let_def intro!: hb split: option.splits if_splits)
qed

lemma ProcessEOM_open_LL:
  "ProcessEOM_open k e s = Inr (b, s') \<Longrightarrow> LLeaderHeight s' = LLeaderHeight s"
  by (auto simp: ProcessEOM_open_def Let_def split: option.splits)

lemma ProcessEOM_each_LL:
  "ProcessEOM_each env k i e s = Inr (b, s') \<Longrightarrow> LLeaderHeight s' = LLeaderHeight s"
  by (auto simp: ProcessEOM_each_def Let_def split: option.splits if_splits)

lemma CheckForIDChange_LL:
  "CheckForIDChange env s = Inr s' \<Longrightarrow> LLeaderHeight s' = LLeaderHeight s"
  by (auto simp: CheckForIDChange_def Let_def split: option.splits if_splits prod.splits)

lemma nextMinute_LL:
  "nextMinute env h s = Inr s' \<Longrightarrow> LLeaderHeight s' = LLeaderHeight s"
  by (auto simp: nextMinute_def Let_def dest!: Get_LL' split: option.splits if_splits prod.splits sum.splits)

lemma closeBlock_links_LL:
  "closeBlock_links env d s = Inr s' \<Longrightarrow> LLeaderHeight s' = LLeaderHeight s \<and> ProcessLists s' = ProcessLists s"
  by (auto simp: closeBlock_links_def Let_def split: option.splits if_splits)

lemma closeBlock_advance_LL:
  "closeBlock_advance env s = Inr s' \<Longrightarrow> LLeaderHeight s' = LLeaderHeight s + 1"
  by (auto simp: closeBlock_advance_def Let_def dest!: Get_LL' CheckForIDChange_LL
           split: option.splits if_splits prod.splits sum.splits)

lemma closeBlock_DBSig_mono:
  assumes nl: "neverLowers env" and run: "closeBlock_DBSig env d s = Inr s'"
  shows "LLeaderHeight s \<le> LLeaderHeight s'"
  using run
  by (auto simp: closeBlock_DBSig_def Let_def
           dest!: Get_LL' buildDBSig_LL LeaderExecuteDBSig_mono [OF nl]
           split: option.splits if_splits prod.splits sum.splits)

lemma closeBlock_prepare_mono:
  assumes nl: "neverLowers env" and run: "closeBlock_prepare env k s = Inr (d, s')"
  shows "LLeaderHeight s \<le> LLeaderHeight s'"
proof -
  have pb: "\<And>d x. LLeaderHeight s \<le> LLeaderHeight x \<Longrightarrow> LLeaderHeight s \<le> LLeaderHeight (ProcessBlocks env d x)"
    using neverLowersD(8) [OF nl] order_trans by blast
  from run show ?thesis
    by (auto simp: closeBlock_prepare_def Let_def intro!: pb
             dest!: AddDBState_mono [OF nl] closeBlock_links_LL
             split: option.splits sum.splits prod.splits)
qed

lemma closeBlock_prepare_belowTop:
  assumes sb: "staysBelowTop env" and b: "belowTop s" and run: "closeBlock_prepare env k s = Inr (d, s')"
  shows "belowTop s'"
proof -
  from sb have pb: "\<And>d x. belowTop x \<Longrightarrow> belowTop (ProcessBlocks env d x)"
    unfolding staysBelowTop_def by blast
  from run obtain lk lpl added s1 s2 where
      lk: "LeaderPL s = Some lk" and lpl: "ProcessLists s lk = Some lpl"
      and add: "AddDBState env True (ProcessList.DirectoryBlock lpl) (ProcessList.AdminBlock lpl)
                (CurrentBlock (FactoidState s)) (ProcessList.EntryCreditBlock lpl)
                (map snd (NewEBlocks (the (ProcessLists s k)))) (map snd (NewEntries (the (ProcessLists s k)))) s
                = Inr (added, s1)"
      and links: "closeBlock_links env d s1 = Inr s2"
      and s': "s' = ProcessBlocks env d s2"
    by (auto simp: closeBlock_prepare_def Let_def split: option.splits sum.splits prod.splits)
  from AddDBState_belowTop [OF sb b belowTop_PL [OF b lpl] add] have "belowTop s1" .
  with closeBlock_links_LL [OF links] have "belowTop s2" by (simp add: belowTop_def)
  with s' pb show ?thesis by simp
qed

lemma word_succ_le: "(x::u32) < top \<Longrightarrow> x \<le> x + 1"
  by (simp add: top_def word_le_nat_alt word_less_nat_alt unat_word_ariths)

lemma closeBlock_mono:
  assumes nl: "neverLowers env" and sb: "staysBelowTop env" and b: "belowTop s"
      and run: "closeBlock env k s = Inr s'"
  shows "LLeaderHeight s \<le> LLeaderHeight s'"
proof -
  from run obtain d s2 s3 s4 where
      p: "closeBlock_prepare env k s = Inr (d, s2)"
      and a: "closeBlock_advance env s2 = Inr s3"
      and g: "closeBlock_DBSig env d s3 = Inr s4"
      and s': "s' = s4\<lparr>Saving := True\<rparr>"
    by (auto simp: closeBlock_def split: sum.splits prod.splits)
  from closeBlock_prepare_belowTop [OF sb b p] have "LLeaderHeight s2 < top" by (simp add: belowTop_def)
  then have "LLeaderHeight s2 \<le> LLeaderHeight s2 + 1" by (rule word_succ_le)
  with closeBlock_advance_LL [OF a] have "LLeaderHeight s2 \<le> LLeaderHeight s3" by simp
  with closeBlock_prepare_mono [OF nl p] closeBlock_DBSig_mono [OF nl g] s'
  show ?thesis by simp
qed

lemma belowTop_endMinute:
  assumes "belowTop s" and "ProcessLists s k = Some pl"
  shows "belowTop (endMinute env k e pl s)"
  using assms
  by (auto simp: belowTop_def endMinute_def Let_def setPL_def)

lemma ProcessEOM_complete_mono:
  assumes nl: "neverLowers env" and sb: "staysBelowTop env" and b: "belowTop s"
      and run: "ProcessEOM_complete env h k e s = Inr (r, s')"
  shows "LLeaderHeight s \<le> LLeaderHeight s'"
proof -
  from run obtain pl s7 where
      pl: "ProcessLists s k = Some pl"
      and m: "(if CurrentMinute (endMinute env k e pl s) < 10 then nextMinute env h (endMinute env k e pl s)
               else if CurrentMinute (endMinute env k e pl s) = 10 then closeBlock env k (endMinute env k e pl s)
               else Inr (endMinute env k e pl s)) = Inr s7"
      and s': "s' = dropOldAcks (s7\<lparr>Commits := RemoveExpired env s7\<rparr>)"
    by (auto simp: ProcessEOM_complete_def Let_def split: option.splits sum.splits)
  have "LLeaderHeight (endMinute env k e pl s) \<le> LLeaderHeight s7"
    using m closeBlock_mono [OF nl sb belowTop_endMinute [OF b pl, of env e], of k s7]
    by (auto dest!: nextMinute_LL split: if_splits)
  with s' show ?thesis by simp
qed

lemma ProcessEOM_mono:
  assumes nl: "neverLowers env" and sb: "staysBelowTop env" and b: "belowTop s"
      and run: "ProcessEOM env h msg s = Inr (r, s')"
  shows "LLeaderHeight s \<le> LLeaderHeight s'"
proof (cases "Body (Msgs s msg)")
  case (EOMMsg e)
  show ?thesis
  proof (cases "(Syncing s \<and> \<not> EOM s) \<or> (EOM s \<and> uint (EOM.Minute e) > EOMMinute s)")
    case True
    with run EOMMsg show ?thesis by (auto simp: ProcessEOM_def split: if_splits)
  next
    case False
    obtain p s1 where g: "ProcessLists_Get env h s = (p, s1)" by force
    note b1 = belowTop_Get' [OF sb b g]
    note l1 = Get_LL' [OF g]
    from run EOMMsg False g obtain k pl where
        k: "p = Some k" and pl: "ProcessLists s1 k = Some pl"
      by (auto simp: ProcessLists_Get_def ProcessEOM_def split: option.splits if_splits)
    define s2 where "s2 = (if (word_of_int (SystemHeight pl) :: u32) \<ge> EOM.SysHeight e
                         then s1\<lparr>EOMSys := True\<rparr> else s1)"
    have l2: "LLeaderHeight s2 = LLeaderHeight s" using l1 by (simp add: s2_def)
    have b2: "belowTop s2" using b1 by (simp add: s2_def belowTop_def)
    from run EOMMsg False g k pl have
      "ProcessEOM_unwind env h s2 = Inr (r, s') \<or> ProcessEOM_open k e s2 = Inr (r, s')
       \<or> ProcessEOM_each env k (VMIndex (Msgs s1 msg)) e s2 = Inr (r, s')
       \<or> ProcessEOM_complete env h k e s2 = Inr (r, s') \<or> s' = s2"
      unfolding ProcessEOM_def s2_def Let_def
      by (simp split: option.splits if_splits)
    with ProcessEOM_unwind_mono [OF nl, of h s2 r s'] ProcessEOM_open_LL [of k e s2 r s']
         ProcessEOM_each_LL [of env k _ e s2 r s'] ProcessEOM_complete_mono [OF nl sb b2, of h k e r s'] l2
    show ?thesis by auto
  qed
qed (use run in \<open>simp_all add: ProcessEOM_def\<close>)

lemma tracingEnv_neverLowers: "neverLowers tracingEnv"
  by (simp add: neverLowers_def tracingEnv_def quietEnv_def)

lemma tracingEnv_staysBelowTop: "staysBelowTop tracingEnv"
  by (simp add: staysBelowTop_def tracingEnv_def quietEnv_def openingPL_def blankPL_def
        blankDBlock_def top_def)

lemma closingState_belowTop: "belowTop (closingState 5)"
  by (simp add: belowTop_def closingState_def quietState_def closingPL_def blankPL_def
        blankDBlock_def top_def)

text \<open>
  C7, as amended. Let none of the methods that are handed the whole state lower
  \<open>LLeaderHeight\<close> (\<open>neverLowers\<close>). Then \<open>AddDBState\<close>, \<open>FollowerExecuteDBState\<close> and
  \<open>Process\<close> never return a state whose \<open>LLeaderHeight\<close> is smaller than the one they were
  called in. The same holds of \<open>ProcessEOM\<close>, block close included, as long as the leader
  height and the heights of the directory blocks of the process lists are below the
  largest 32-bit number, and the collaborators keep them there (\<open>staysBelowTop\<close>,
  \<open>belowTop\<close>).
\<close>

theorem LLeaderHeight_never_lowered:
  assumes "neverLowers env"
  shows "(AddDBState env isNew db ab fb ecb ebs es s = Inr (r, s1) \<longrightarrow> LLeaderHeight s \<le> LLeaderHeight s1)
       \<and> (FollowerExecuteDBState env msg s = Inr s2 \<longrightarrow> LLeaderHeight s \<le> LLeaderHeight s2)
       \<and> (Process env acks msgs s = Inr (progress, s3) \<longrightarrow> LLeaderHeight s \<le> LLeaderHeight s3)
       \<and> (staysBelowTop env \<and> belowTop s \<and> ProcessEOM env h eom s = Inr (b, s4)
            \<longrightarrow> LLeaderHeight s \<le> LLeaderHeight s4)"
proof (intro conjI impI)
  assume "AddDBState env isNew db ab fb ecb ebs es s = Inr (r, s1)"
  then show "LLeaderHeight s \<le> LLeaderHeight s1" by (rule AddDBState_mono [OF assms])
next
  assume "FollowerExecuteDBState env msg s = Inr s2"
  then show "LLeaderHeight s \<le> LLeaderHeight s2" by (rule FollowerExecuteDBState_mono [OF assms])
next
  assume "Process env acks msgs s = Inr (progress, s3)"
  then show "LLeaderHeight s \<le> LLeaderHeight s3" by (rule Process_mono [OF assms])
next
  assume "staysBelowTop env \<and> belowTop s \<and> ProcessEOM env h eom s = Inr (b, s4)"
  then show "LLeaderHeight s \<le> LLeaderHeight s4"
    using ProcessEOM_mono [OF assms, of s h eom b s4] by blast
qed

lemma never_lowered_runs:
  "\<not> isl (AddDBState tracingEnv False block10 [] noFBlock [] [] [] quietState)"
  "\<not> isl (FollowerExecuteDBState tracingEnv 40 ((spentTwiceState 7)\<lparr>LLeaderHeight := 3\<rparr>))"
  "\<not> isl (Process tracingEnv [] [50] (closingState 5))"
  "LLeaderHeight quietState = 0"
  "LLeaderHeight (snd (projr (AddDBState tracingEnv False block10 [] noFBlock [] [] [] quietState))) = 10"
  "LLeaderHeight (projr (FollowerExecuteDBState tracingEnv 40 ((spentTwiceState 7)\<lparr>LLeaderHeight := 3\<rparr>))) = 7"
  "LLeaderHeight (closingState 5) = 5"
  by code_simp+

text \<open>
  The hypotheses of C7 hold of the environment and the state of scenario 5: four runs, in
  which the height goes from 0 to 10, from 3 to 7, stays 5, and goes from 5 to 6.
\<close>

theorem LLeaderHeight_never_lowered_witness:
  "neverLowers tracingEnv \<and> staysBelowTop tracingEnv \<and> belowTop (closingState 5)
   \<and> (\<exists>r s1. AddDBState tracingEnv False block10 [] noFBlock [] [] [] quietState = Inr (r, s1)
         \<and> LLeaderHeight quietState \<le> LLeaderHeight s1 \<and> LLeaderHeight s1 = 10)
   \<and> (\<exists>s2. FollowerExecuteDBState tracingEnv 40 ((spentTwiceState 7)\<lparr>LLeaderHeight := 3\<rparr>) = Inr s2
         \<and> (3::u32) \<le> LLeaderHeight s2 \<and> LLeaderHeight s2 = 7)
   \<and> (\<exists>p s3. Process tracingEnv [] [50] (closingState 5) = Inr (p, s3)
         \<and> LLeaderHeight (closingState 5) \<le> LLeaderHeight s3)
   \<and> (\<exists>b s4. ProcessEOM tracingEnv 5 50 (closingState 5) = Inr (b, s4)
         \<and> LLeaderHeight (closingState 5) \<le> LLeaderHeight s4 \<and> LLeaderHeight s4 = 6)"
proof -
  note nl = tracingEnv_neverLowers
  note mono = LLeaderHeight_never_lowered [OF nl]
  obtain r s1 where a: "AddDBState tracingEnv False block10 [] noFBlock [] [] [] quietState = Inr (r, s1)"
    using never_lowered_runs(1)
    by (cases "AddDBState tracingEnv False block10 [] noFBlock [] [] [] quietState") auto
  obtain s2 where f: "FollowerExecuteDBState tracingEnv 40 ((spentTwiceState 7)\<lparr>LLeaderHeight := 3\<rparr>) = Inr s2"
    using never_lowered_runs(2)
    by (cases "FollowerExecuteDBState tracingEnv 40 ((spentTwiceState 7)\<lparr>LLeaderHeight := 3\<rparr>)") auto
  obtain p s3 where pr: "Process tracingEnv [] [50] (closingState 5) = Inr (p, s3)"
    using never_lowered_runs(3)
    by (cases "Process tracingEnv [] [50] (closingState 5)") auto
  obtain b s4 where e: "ProcessEOM tracingEnv 5 50 (closingState 5) = Inr (b, s4)"
    using closingState_run(1) by (cases "ProcessEOM tracingEnv 5 50 (closingState 5)") auto
  from mono [of False block10 "[]" noFBlock "[]" "[]" "[]" quietState r s1] a
  have 1: "LLeaderHeight quietState \<le> LLeaderHeight s1" by blast
  from mono [of _ _ _ _ _ _ _ "(spentTwiceState 7)\<lparr>LLeaderHeight := 3\<rparr>" _ _ 40 s2] f
  have 2: "(3::u32) \<le> LLeaderHeight s2" by simp
  from mono [of _ _ _ _ _ _ _ "closingState 5" _ _ _ _ "[]" "[50]" p s3] pr
  have 3: "LLeaderHeight (closingState 5) \<le> LLeaderHeight s3" by blast
  from mono [of _ _ _ _ _ _ _ "closingState 5" _ _ _ _ _ _ _ _ 5 50 b s4]
       tracingEnv_staysBelowTop closingState_belowTop e
  have 4: "LLeaderHeight (closingState 5) \<le> LLeaderHeight s4" by blast
  from never_lowered_runs(5) a have 5: "LLeaderHeight s1 = 10" by simp
  from never_lowered_runs(6) f have 6: "LLeaderHeight s2 = 7" by simp
  from closingState_run(2) e have 7: "LLeaderHeight s4 = 6" by simp
  from nl tracingEnv_staysBelowTop closingState_belowTop a f pr e 1 2 3 4 5 6 7
  show ?thesis by blast
qed

text \<open>
  C7 as the spec words it fails at the largest height: \<open>LLeaderHeight\<close> is a \<open>uint32\<close>, and the
  block close of scenario 5 at height \<open>0xFFFFFFFF\<close> increments it to 0.
\<close>

theorem LLeaderHeight_wraps_counterexample:
  "neverLowers tracingEnv
   \<and> LLeaderHeight (closingState 0xFFFFFFFF) = 0xFFFFFFFF
   \<and> \<not> isl (ProcessEOM tracingEnv 0xFFFFFFFF 50 (closingState 0xFFFFFFFF))
   \<and> LLeaderHeight (snd (projr (ProcessEOM tracingEnv 0xFFFFFFFF 50 (closingState 0xFFFFFFFF)))) = 0"
proof -
  have "LLeaderHeight (closingState 0xFFFFFFFF) = 0xFFFFFFFF" by code_simp
  moreover have "\<not> isl (ProcessEOM tracingEnv 0xFFFFFFFF 50 (closingState 0xFFFFFFFF))" by code_simp
  moreover have "LLeaderHeight (snd (projr (ProcessEOM tracingEnv 0xFFFFFFFF 50 (closingState 0xFFFFFFFF)))) = 0"
    by code_simp
  ultimately show ?thesis using tracingEnv_neverLowers by blast
qed

end
